(* ===== verification/HMS_Prelude.thy ===== *)
theory HMS_Prelude
  imports Main "HOL-Library.Word"
begin

text \<open>
  Shared vocabulary of the development: the C types of the program as HOL types, the
  facts about 32-bit signed arithmetic that the counters of the record store need, the
  generic "unlink the first matching element" operation on lists that the removal loop
  of the store and its lemmas are built on, and the decimal rendering of integers that
  \<^verbatim>\<open>fprintf(file, "%d\n", n)\<close> performs.

  The named collections: \<open>hms_unfold\<close> holds the defining equations of the handlers (a
  handler is evaluated on a concrete state by \<open>simp add: hms_unfold\<close>); \<open>hms_frame\<close> holds
  the frame facts (which fields an operation leaves alone).
\<close>

named_theorems hms_unfold "defining equations of the handlers, for evaluation on concrete states"
named_theorems hms_frame "frame facts: the fields of the state an operation does not change"

section \<open>C integers\<close>

text \<open>
  A C \<^verbatim>\<open>int\<close> is a 32-bit word read as two's complement (\<open>sint\<close>); \<open>+\<close> and \<open>-\<close> wrap
  around, comparisons of the source are the signed ones (\<open><s\<close>, \<open>\<le>s\<close>). \<^verbatim>\<open>time_t\<close> is a
  64-bit word read the same way.
\<close>

type_synonym cint = "32 word"
type_synonym time_t = "64 word"

definition INT_MAX :: int where
  "INT_MAX = 2147483647"

definition INT_MIN :: int where
  "INT_MIN = - 2147483648"

lemma sint_range32: "INT_MIN \<le> sint (x::cint) \<and> sint x \<le> INT_MAX"
  using sint_ge [of x] sint_less [of x] by (simp add: INT_MIN_def INT_MAX_def)

lemma sint_succ32: "sint (x::cint) < INT_MAX \<Longrightarrow> sint (x + 1) = sint x + 1"
proof -
  assume a: "sint x < INT_MAX"
  have "- (2 ^ 31) \<le> sint x + 1" "sint x + 1 < 2 ^ 31"
    using a sint_range32 [of x] by (simp_all add: INT_MIN_def INT_MAX_def)
  then have "signed_take_bit 31 (sint x + 1) = sint x + 1"
    by (simp add: signed_take_bit_int_eq_self)
  then show ?thesis by (simp add: sint_word_ariths)
qed

lemma sint_pred32: "INT_MIN < sint (x::cint) \<Longrightarrow> sint (x - 1) = sint x - 1"
proof -
  assume a: "INT_MIN < sint x"
  have "- (2 ^ 31) \<le> sint x - 1" "sint x - 1 < 2 ^ 31"
    using a sint_range32 [of x] by (simp_all add: INT_MIN_def INT_MAX_def)
  then have "signed_take_bit 31 (sint x - 1) = sint x - 1"
    by (simp add: signed_take_bit_int_eq_self)
  then show ?thesis by (simp add: sint_word_ariths)
qed

lemma sint_wrap32: "sint (x::cint) = INT_MAX \<Longrightarrow> sint (x + 1) = INT_MIN"
proof -
  assume "sint x = INT_MAX"
  then have "sint x = sint (2147483647 :: cint)" by (simp add: INT_MAX_def)
  then have "x = 2147483647" by (simp only: signed_word_eqI)
  then show ?thesis by (simp add: INT_MIN_def)
qed

lemma sint_of_nat32: "n \<le> 2147483647 \<Longrightarrow> sint (of_nat n :: cint) = int n"
  by (simp add: signed_of_nat signed_take_bit_int_eq_self)

lemma sint_word_of_int32:
  "- (2 ^ 31) \<le> k \<Longrightarrow> k < 2 ^ 31 \<Longrightarrow> sint (word_of_int k :: cint) = k"
  by (simp add: sint_sbintrunc' signed_take_bit_int_eq_self)

lemmas cint_less = word_sless_alt word_sle_eq

section \<open>Unlinking the first matching element\<close>

text \<open>
  \<open>remove_first P xs\<close> walks the list to the first element that satisfies \<open>P\<close> and
  unlinks it: \<open>None\<close> when the walk reaches the end (the list is left as it was),
  \<open>Some\<close> of the shortened list otherwise.
\<close>

fun remove_first :: "('a \<Rightarrow> bool) \<Rightarrow> 'a list \<Rightarrow> 'a list option" where
  "remove_first P [] = None"
| "remove_first P (x # xs) =
     (if P x then Some xs else map_option (Cons x) (remove_first P xs))"

lemma remove_first_None_iff: "remove_first P xs = None \<longleftrightarrow> (\<forall>x \<in> set xs. \<not> P x)"
  by (induction xs) auto

lemma remove_first_SomeD:
  "remove_first P xs = Some ys \<Longrightarrow>
     \<exists>as x bs. xs = as @ x # bs \<and> (\<forall>a \<in> set as. \<not> P a) \<and> P x \<and> ys = as @ bs"
proof (induction xs arbitrary: ys)
  case Nil
  then show ?case by simp
next
  case (Cons z zs)
  show ?case
  proof (cases "P z")
    case True
    with Cons.prems have "z # zs = [] @ z # zs \<and> (\<forall>a \<in> set []. \<not> P a) \<and> P z \<and> ys = [] @ zs"
      by simp
    then show ?thesis by blast
  next
    case False
    with Cons.prems obtain ys' where ys: "ys = z # ys'" and r: "remove_first P zs = Some ys'"
      by auto
    from Cons.IH [OF r] obtain as x bs where
      d: "zs = as @ x # bs" "\<forall>a \<in> set as. \<not> P a" "P x" "ys' = as @ bs"
      by blast
    with False ys have "z # zs = (z # as) @ x # bs \<and> (\<forall>a \<in> set (z # as). \<not> P a) \<and> P x
        \<and> ys = (z # as) @ bs"
      by simp
    then show ?thesis by blast
  qed
qed

lemma remove_first_SomeI:
  "(\<forall>a \<in> set as. \<not> P a) \<Longrightarrow> P x \<Longrightarrow> remove_first P (as @ x # bs) = Some (as @ bs)"
  by (induction as) auto

lemma remove_first_length: "remove_first P xs = Some ys \<Longrightarrow> length xs = Suc (length ys)"
  by (auto dest: remove_first_SomeD)

lemma remove_first_subset: "remove_first P xs = Some ys \<Longrightarrow> set ys \<subseteq> set xs"
  by (auto dest: remove_first_SomeD)

lemma remove_first_distinct_map:
  "remove_first P xs = Some ys \<Longrightarrow> distinct (map f xs) \<Longrightarrow> distinct (map f ys)"
  by (auto dest!: remove_first_SomeD)

lemma remove_first_map_gone:
  assumes "remove_first (\<lambda>x. f x = k) xs = Some ys" and "distinct (map f xs)"
  shows "k \<notin> f ` set ys"
  using assms by (auto dest!: remove_first_SomeD)

lemma remove_first_other_kept:
  "remove_first P xs = Some ys \<Longrightarrow> x \<in> set xs \<Longrightarrow> \<not> P x \<Longrightarrow> x \<in> set ys"
  by (auto dest!: remove_first_SomeD)

lemma remove_first_filter:
  "remove_first P xs = Some ys \<Longrightarrow> filter (\<lambda>x. \<not> P x) ys = filter (\<lambda>x. \<not> P x) xs"
  by (auto dest!: remove_first_SomeD)

section \<open>Decimal rendering\<close>

text \<open>
  \<open>show_int\<close> is the text that the conversion \<^verbatim>\<open>%d\<close> of \<^verbatim>\<open>printf\<close> produces for an
  integer: an optional minus sign and the decimal digits, most significant first.
\<close>

definition digit_char :: "nat \<Rightarrow> char" where
  "digit_char n = ''0123456789'' ! (n mod 10)"

fun show_nat :: "nat \<Rightarrow> string" where
  "show_nat n = (if n < 10 then [digit_char n] else show_nat (n div 10) @ [digit_char (n mod 10)])"

declare show_nat.simps [simp del]

definition show_int :: "int \<Rightarrow> string" where
  "show_int i = (if i < 0 then CHR ''-'' # show_nat (nat (- i)) else show_nat (nat i))"

definition show_cint :: "cint \<Rightarrow> string" where
  "show_cint w = show_int (sint w)"

lemma show_nat_nonempty [simp]: "show_nat n \<noteq> []"
  by (subst show_nat.simps) simp

lemma digit_char_is_digit: "digit_char n \<in> set ''0123456789''"
  unfolding digit_char_def by (rule nth_mem) simp

lemma show_nat_digits: "set (show_nat n) \<subseteq> set ''0123456789''"
proof (induction n rule: show_nat.induct)
  case (1 n)
  show ?case
  proof (cases "n < 10")
    case True
    then show ?thesis using digit_char_is_digit [of n] by (subst show_nat.simps) simp
  next
    case False
    with "1.IH" have "set (show_nat (n div 10)) \<subseteq> set ''0123456789''" by simp
    with False show ?thesis
      using digit_char_is_digit [of "n mod 10"] by (subst show_nat.simps) simp
  qed
qed

lemma show_int_nonempty [simp]: "show_int i \<noteq> []"
  by (simp add: show_int_def)

lemma sint_add_nat32:
  "sint (c::cint) + int k \<le> INT_MAX \<Longrightarrow> sint (c + of_nat k) = sint c + int k"
proof (induction k)
  case 0
  then show ?case by simp
next
  case (Suc k)
  then have "sint (c + of_nat k) = sint c + int k" by simp
  moreover from this Suc.prems have "sint (c + of_nat k) < INT_MAX" by simp
  then have "sint (c + of_nat k + 1) = sint (c + of_nat k) + 1" by (rule sint_succ32)
  ultimately show ?case by (simp add: algebra_simps)
qed

end
