(* ===== verification/Patient_Data.thy ===== *)
theory Patient_Data
  imports HMS_Prelude
begin

text \<open>
  The data of the register and the validation predicates.

  \<^item> \<open>Patient\<close> and \<open>DischargedPatient\<close> are the two structs of \<^verbatim>\<open>patient_data.h\<close>, which is
    not part of the repository's sources; their fields are the ones
    \<^verbatim>\<open>src/patient_management.c\<close> reads and writes (\<^verbatim>\<open>patientId\<close>, \<^verbatim>\<open>name\<close>,
    \<^verbatim>\<open>ageInYears\<close>, \<^verbatim>\<open>diagnosis\<close>, \<^verbatim>\<open>roomNumber\<close>, \<^verbatim>\<open>admissionDate\<close>; \<^verbatim>\<open>patient\<close>,
    \<^verbatim>\<open>dischargeDate\<close>).  A C string is the \<open>string\<close> of its characters before the
    terminating NUL.
  \<^item> \<open>limits\<close> collects the constants of the missing headers (\<^verbatim>\<open>MIN_PATIENT_NAME_LENGTH\<close>
    and so on).  Every definition that depends on one of them takes the record as its
    first argument; \<open>spec_limits\<close> holds the values the specification states (2 to 100
    characters, 0 to 149 years, rooms 1 to 50) and, for the diagnosis, which the
    specification only calls bounded, the lengths 1 to 255.
  \<^item> the four validators are those of \<^verbatim>\<open>src/patient.c\<close> (lines 229-275); the diagnostic
    \<^verbatim>\<open>printf\<close> of an invalid field is left to the model of the caller.
  \<^item> \<open>createPatient\<close> is the constructor of \<^verbatim>\<open>patient_data.h\<close> as the specification
    describes it: the fields are copied and the admission time is the current time.
\<close>

section \<open>Constants of the headers\<close>

record limits =
  MIN_PATIENT_NAME_LENGTH :: nat
  MAX_PATIENT_NAME_LENGTH :: nat
  MIN_AGE_YEARS :: cint
  MAX_AGE_YEARS :: cint
  MIN_DIAGNOSIS_LENGTH :: nat
  MAX_DIAGNOSIS_LENGTH :: nat
  MIN_ROOM_NUMBER :: cint
  MAX_ROOM_NUMBER :: cint

definition spec_limits :: limits where
  "spec_limits =
     \<lparr>MIN_PATIENT_NAME_LENGTH = 2, MAX_PATIENT_NAME_LENGTH = 100,
      MIN_AGE_YEARS = 0, MAX_AGE_YEARS = 149,
      MIN_DIAGNOSIS_LENGTH = 1, MAX_DIAGNOSIS_LENGTH = 255,
      MIN_ROOM_NUMBER = 1, MAX_ROOM_NUMBER = 50\<rparr>"

section \<open>Records\<close>

record Patient =
  patientId :: cint
  name :: string
  ageInYears :: cint
  diagnosis :: string
  roomNumber :: cint
  admissionDate :: time_t

record DischargedPatient =
  patient :: Patient
  dischargeDate :: time_t

definition createPatient :: "string \<Rightarrow> cint \<Rightarrow> string \<Rightarrow> cint \<Rightarrow> cint \<Rightarrow> time_t \<Rightarrow> Patient" where
  "createPatient patientName patientAge patientDiagnosis room ident now =
     \<lparr>patientId = ident, name = patientName, ageInYears = patientAge,
      diagnosis = patientDiagnosis, roomNumber = room, admissionDate = now\<rparr>"

lemma createPatient_fields [simp]:
  "patientId (createPatient n a d r i t) = i"
  "name (createPatient n a d r i t) = n"
  "ageInYears (createPatient n a d r i t) = a"
  "diagnosis (createPatient n a d r i t) = d"
  "roomNumber (createPatient n a d r i t) = r"
  "admissionDate (createPatient n a d r i t) = t"
  by (simp_all add: createPatient_def)

section \<open>Validation\<close>

datatype validity = IS_VALID | IS_INVALID

definition validatePatientName :: "limits \<Rightarrow> string \<Rightarrow> validity" where
  "validatePatientName L patientName =
     (if length patientName < MIN_PATIENT_NAME_LENGTH L \<or>
         length patientName > MAX_PATIENT_NAME_LENGTH L
      then IS_INVALID else IS_VALID)"

definition validatePatientAge :: "limits \<Rightarrow> cint \<Rightarrow> validity" where
  "validatePatientAge L patientAge =
     (if patientAge <s MIN_AGE_YEARS L \<or> MAX_AGE_YEARS L <s patientAge
      then IS_INVALID else IS_VALID)"

definition validatePatientDiagnosis :: "limits \<Rightarrow> string \<Rightarrow> validity" where
  "validatePatientDiagnosis L patientDiagnosis =
     (if length patientDiagnosis < MIN_DIAGNOSIS_LENGTH L \<or>
         length patientDiagnosis > MAX_DIAGNOSIS_LENGTH L
      then IS_INVALID else IS_VALID)"

definition validateRoomNumber :: "limits \<Rightarrow> cint \<Rightarrow> validity" where
  "validateRoomNumber L room =
     (if room <s MIN_ROOM_NUMBER L \<or> MAX_ROOM_NUMBER L <s room
      then IS_INVALID else IS_VALID)"

lemmas validate_defs =
  validatePatientName_def validatePatientAge_def validatePatientDiagnosis_def
  validateRoomNumber_def

text \<open>What a valid field is, in terms of the values read as numbers.\<close>

lemma validatePatientName_iff:
  "validatePatientName L s = IS_VALID \<longleftrightarrow>
     MIN_PATIENT_NAME_LENGTH L \<le> length s \<and> length s \<le> MAX_PATIENT_NAME_LENGTH L"
  by (auto simp: validatePatientName_def)

lemma validatePatientDiagnosis_iff:
  "validatePatientDiagnosis L s = IS_VALID \<longleftrightarrow>
     MIN_DIAGNOSIS_LENGTH L \<le> length s \<and> length s \<le> MAX_DIAGNOSIS_LENGTH L"
  by (auto simp: validatePatientDiagnosis_def)

lemma validatePatientAge_iff:
  "validatePatientAge L a = IS_VALID \<longleftrightarrow>
     sint (MIN_AGE_YEARS L) \<le> sint a \<and> sint a \<le> sint (MAX_AGE_YEARS L)"
  by (auto simp: validatePatientAge_def cint_less)

lemma validateRoomNumber_iff:
  "validateRoomNumber L r = IS_VALID \<longleftrightarrow>
     sint (MIN_ROOM_NUMBER L) \<le> sint r \<and> sint r \<le> sint (MAX_ROOM_NUMBER L)"
  by (auto simp: validateRoomNumber_def cint_less)

lemma validity_cases: "v = IS_VALID \<or> v = IS_INVALID"
  by (cases v) auto

text \<open>
  A patient all of whose fields pass their validator: what the input loops of
  \<^verbatim>\<open>addPatientRecord\<close> establish before the record is created.
\<close>

definition valid_patient :: "limits \<Rightarrow> Patient \<Rightarrow> bool" where
  "valid_patient L p \<longleftrightarrow>
     validatePatientName L (name p) = IS_VALID \<and>
     validatePatientAge L (ageInYears p) = IS_VALID \<and>
     validatePatientDiagnosis L (diagnosis p) = IS_VALID \<and>
     validateRoomNumber L (roomNumber p) = IS_VALID"

lemma valid_patient_createPatient:
  "valid_patient L (createPatient n a d r i t) \<longleftrightarrow>
     validatePatientName L n = IS_VALID \<and> validatePatientAge L a = IS_VALID \<and>
     validatePatientDiagnosis L d = IS_VALID \<and> validateRoomNumber L r = IS_VALID"
  by (simp add: valid_patient_def)

lemma valid_room_spec_limits:
  "validateRoomNumber spec_limits r = IS_VALID \<longleftrightarrow> 1 \<le> sint r \<and> sint r \<le> 50"
  by (simp add: validateRoomNumber_iff spec_limits_def)

section \<open>The accepted ranges\<close>

text \<open>
  C25.  The four validators accept exactly the closed ranges of the constants: a patient is
  valid if and only if the lengths of the name and of the diagnosis and the signed
  values of the age and of the room number lie between their minimum and their maximum,
  both included.
\<close>

theorem valid_patient_ranges:
  "valid_patient L p \<longleftrightarrow>
     length (name p) \<in> {MIN_PATIENT_NAME_LENGTH L .. MAX_PATIENT_NAME_LENGTH L} \<and>
     sint (ageInYears p) \<in> {sint (MIN_AGE_YEARS L) .. sint (MAX_AGE_YEARS L)} \<and>
     length (diagnosis p) \<in> {MIN_DIAGNOSIS_LENGTH L .. MAX_DIAGNOSIS_LENGTH L} \<and>
     sint (roomNumber p) \<in> {sint (MIN_ROOM_NUMBER L) .. sint (MAX_ROOM_NUMBER L)}"
  unfolding valid_patient_def
  by (simp add: validatePatientName_iff validatePatientAge_iff validatePatientDiagnosis_iff
      validateRoomNumber_iff)

end
