(* ===== verification/Binary_File.thy ===== *)
theory Binary_File
  imports HMS_Prelude
begin

text \<open>
  Files of fixed-size records, as \<^verbatim>\<open>fread(&r, sizeof r, 1, f)\<close> and
  \<^verbatim>\<open>fwrite(&r, sizeof r, 1, f)\<close> see them.  The content of a file is the \<open>string\<close> of its
  bytes (a \<open>char\<close> is a byte).  A \<open>codec\<close> describes how a value lies in memory: its size
  and the two directions between the value and its bytes.  The operations and their
  lemmas are stated for any codec; \<open>codec_ok\<close> is the interface a layout has to meet, and
  theory \<open>Patient_Codec\<close> discharges it for the two structs of the register.

  \<^item> \<open>fread_all\<close> is the loop \<^verbatim>\<open>while (fread(&r, size, 1, f) == 1) ...\<close>: it takes one
    block after the other and stops at the first short read, so the bytes of a record
    that was cut off are never decoded.
  \<^item> \<open>fwrite_all\<close> is the image of a sequence of records.
  \<^item> \<open>le_bytes\<close>, \<open>le_nat\<close> and \<open>cbuf\<close>, \<open>cstr\<close> are the encodings of integers and of
    NUL-terminated character arrays that concrete codecs are built from.
\<close>

section \<open>Codecs\<close>

record 'a codec =
  csize :: nat
  enc :: "'a \<Rightarrow> string"
  dec :: "string \<Rightarrow> 'a"

definition codec_ok :: "'a codec \<Rightarrow> ('a \<Rightarrow> bool) \<Rightarrow> bool" where
  "codec_ok c P \<longleftrightarrow>
     0 < csize c \<and> (\<forall>x. length (enc c x) = csize c) \<and> (\<forall>x. P x \<longrightarrow> dec c (enc c x) = x)"

lemma codec_okI:
  assumes "0 < csize c" and "\<And>x. length (enc c x) = csize c"
    and "\<And>x. P x \<Longrightarrow> dec c (enc c x) = x"
  shows "codec_ok c P"
  using assms by (simp add: codec_ok_def)

lemma codec_ok_size: "codec_ok c P \<Longrightarrow> 0 < csize c"
  by (simp add: codec_ok_def)

lemma codec_ok_length: "codec_ok c P \<Longrightarrow> length (enc c x) = csize c"
  by (simp add: codec_ok_def)

lemma codec_ok_dec: "codec_ok c P \<Longrightarrow> P x \<Longrightarrow> dec c (enc c x) = x"
  by (simp add: codec_ok_def)

lemma codec_ok_mono: "codec_ok c P \<Longrightarrow> (\<And>x. Q x \<Longrightarrow> P x) \<Longrightarrow> codec_ok c Q"
  by (simp add: codec_ok_def)

section \<open>Reading and writing sequences of records\<close>

function fread_all :: "'a codec \<Rightarrow> string \<Rightarrow> 'a list" where
  "fread_all c bs =
     (if csize c = 0 \<or> length bs < csize c then []
      else dec c (take (csize c) bs) # fread_all c (drop (csize c) bs))"
  by pat_completeness auto
termination
  by (relation "measure (\<lambda>(c, bs). length bs)") (auto simp: not_less)

declare fread_all.simps [simp del]

definition fwrite_all :: "'a codec \<Rightarrow> 'a list \<Rightarrow> string" where
  "fwrite_all c xs = concat (map (enc c) xs)"

lemma fwrite_all_simps [simp]:
  "fwrite_all c [] = []"
  "fwrite_all c (x # xs) = enc c x @ fwrite_all c xs"
  "fwrite_all c (xs @ ys) = fwrite_all c xs @ fwrite_all c ys"
  by (simp_all add: fwrite_all_def)

lemma length_fwrite_all: "codec_ok c P \<Longrightarrow> length (fwrite_all c xs) = csize c * length xs"
  by (induction xs) (auto simp: codec_ok_length)

lemma fread_all_short: "length bs < csize c \<Longrightarrow> fread_all c bs = []"
  by (subst fread_all.simps) simp

lemma fread_all_Nil [simp]: "fread_all c [] = []"
  by (subst fread_all.simps) auto

lemma fread_all_block:
  "0 < csize c \<Longrightarrow> length b = csize c \<Longrightarrow> fread_all c (b @ bs) = dec c b # fread_all c bs"
  by (subst fread_all.simps) simp

lemma fread_all_enc:
  "codec_ok c P \<Longrightarrow> P x \<Longrightarrow> fread_all c (enc c x @ bs) = x # fread_all c bs"
  by (simp add: fread_all_block codec_ok_dec codec_ok_size codec_ok_length)

text \<open>Reading back what was written, with whatever follows the last record.\<close>

lemma fread_all_fwrite_all_append:
  "codec_ok c P \<Longrightarrow> list_all P xs \<Longrightarrow>
     fread_all c (fwrite_all c xs @ bs) = xs @ fread_all c bs"
  by (induction xs) (auto simp: fread_all_enc)

lemma fread_all_fwrite_all:
  "codec_ok c P \<Longrightarrow> list_all P xs \<Longrightarrow> fread_all c (fwrite_all c xs) = xs"
  using fread_all_fwrite_all_append [of c P xs "[]"] by simp

lemma length_fread_all: "0 < csize c \<Longrightarrow> length (fread_all c bs) = length bs div csize c"
proof (induction c bs rule: fread_all.induct)
  case (1 c bs)
  show ?case
  proof (cases "length bs < csize c")
    case True
    then show ?thesis by (simp add: fread_all_short)
  next
    case False
    with "1.prems" have "length (fread_all c (drop (csize c) bs)) = (length bs - csize c) div csize c"
      using "1.IH" by simp
    with False "1.prems" show ?thesis
      by (subst fread_all.simps) (simp add: le_div_geq)
  qed
qed

lemma fread_all_eq_Nil_iff: "0 < csize c \<Longrightarrow> fread_all c bs = [] \<longleftrightarrow> length bs < csize c"
  by (subst fread_all.simps) auto

text \<open>
  The bytes that \<open>fread_all\<close> consumed: the longest prefix that is a whole number of
  blocks.  What is left is shorter than a block.
\<close>

definition whole_blocks :: "'a codec \<Rightarrow> string \<Rightarrow> string" where
  "whole_blocks c bs = take (csize c * (length bs div csize c)) bs"

lemma whole_blocks_short: "length bs < csize c \<Longrightarrow> whole_blocks c bs = []"
  by (simp add: whole_blocks_def)

lemma whole_blocks_step:
  assumes "0 < csize c" and "csize c \<le> length bs"
  shows "whole_blocks c bs = take (csize c) bs @ whole_blocks c (drop (csize c) bs)"
proof -
  let ?n = "csize c"
  from assms have q: "length bs div ?n = Suc ((length bs - ?n) div ?n)"
    by (simp add: le_div_geq)
  have "take (?n + ?n * ((length bs - ?n) div ?n)) bs
      = take ?n bs @ take (?n * ((length bs - ?n) div ?n)) (drop ?n bs)"
    by (rule take_add)
  then show ?thesis by (simp add: whole_blocks_def q)
qed

lemma fread_all_whole_blocks:
  "0 < csize c \<Longrightarrow> fread_all c (whole_blocks c bs) = fread_all c bs"
proof (induction c bs rule: fread_all.induct)
  case (1 c bs)
  show ?case
  proof (cases "length bs < csize c")
    case True
    then show ?thesis by (simp add: whole_blocks_short fread_all_short)
  next
    case False
    with "1.prems" have IH: "fread_all c (whole_blocks c (drop (csize c) bs)) = fread_all c (drop (csize c) bs)"
      using "1.IH" by simp
    from False "1.prems" have "fread_all c (whole_blocks c bs)
        = dec c (take (csize c) bs) # fread_all c (whole_blocks c (drop (csize c) bs))"
      by (simp add: whole_blocks_step fread_all_block)
    also from False "1.prems" have "\<dots> = fread_all c bs"
      by (simp add: IH fread_all.simps [of c bs])
    finally show ?thesis .
  qed
qed

section \<open>A write loop that may fail\<close>

text \<open>
  \<open>fwrite_loop c fail xs\<close> is the loop
  \<^verbatim>\<open>while (cur != NULL) { if (fwrite(&cur->data, size, 1, f) != 1) { err = 1; break; } ... }\<close>
  where \<open>fail = Some n\<close> says that the \<open>n\<close>-th call of \<^verbatim>\<open>fwrite\<close> (counted from 0) is the
  first that does not write its record, and \<open>None\<close> that every call succeeds.  The result
  is the bytes that reached the file and the error flag.
\<close>

fun fwrite_loop :: "'a codec \<Rightarrow> nat option \<Rightarrow> 'a list \<Rightarrow> string \<times> bool" where
  "fwrite_loop c fail [] = ([], False)"
| "fwrite_loop c fail (x # xs) =
     (if fail = Some 0 then ([], True)
      else let (bs, err) = fwrite_loop c (map_option (\<lambda>n. n - 1) fail) xs
           in (enc c x @ bs, err))"

lemma fwrite_loop_None [simp]: "fwrite_loop c None xs = (fwrite_all c xs, False)"
  by (induction xs) auto

lemma fwrite_loop_Some:
  "fwrite_loop c (Some n) xs = (fwrite_all c (take n xs), n < length xs)"
proof (induction xs arbitrary: n)
  case Nil
  then show ?case by simp
next
  case (Cons x xs)
  then show ?case by (cases n) auto
qed

lemma fwrite_loop_no_error:
  "snd (fwrite_loop c fail xs) = False \<Longrightarrow> fst (fwrite_loop c fail xs) = fwrite_all c xs"
  by (cases fail) (auto simp: fwrite_loop_Some)

section \<open>Integers and character arrays as bytes\<close>

fun le_bytes :: "nat \<Rightarrow> nat \<Rightarrow> string" where
  "le_bytes 0 n = []"
| "le_bytes (Suc k) n = char_of (n mod 256) # le_bytes k (n div 256)"

fun le_nat :: "string \<Rightarrow> nat" where
  "le_nat [] = 0"
| "le_nat (c # cs) = of_char c + 256 * le_nat cs"

lemma length_le_bytes [simp]: "length (le_bytes k n) = k"
  by (induction k arbitrary: n) auto

lemma le_nat_le_bytes: "n < 256 ^ k \<Longrightarrow> le_nat (le_bytes k n) = n"
proof (induction k arbitrary: n)
  case 0
  then show ?case by simp
next
  case (Suc k)
  then have "n div 256 < 256 ^ k"
    by (simp add: less_mult_imp_div_less mult.commute)
  with Suc.IH have "le_nat (le_bytes k (n div 256)) = n div 256" by blast
  then show ?case by simp
qed

definition enc_int :: "cint \<Rightarrow> string" where
  "enc_int w = le_bytes 4 (unat w)"

definition dec_int :: "string \<Rightarrow> cint" where
  "dec_int bs = of_nat (le_nat bs)"

definition enc_time :: "time_t \<Rightarrow> string" where
  "enc_time w = le_bytes 8 (unat w)"

definition dec_time :: "string \<Rightarrow> time_t" where
  "dec_time bs = of_nat (le_nat bs)"

lemma length_enc_int [simp]: "length (enc_int w) = 4"
  by (simp add: enc_int_def)

lemma length_enc_time [simp]: "length (enc_time w) = 8"
  by (simp add: enc_time_def)

lemma dec_enc_int [simp]: "dec_int (enc_int w) = w"
proof -
  have "unat w < 256 ^ 4" using unsigned_less [of w, where 'a = nat] by simp
  then show ?thesis by (simp add: dec_int_def enc_int_def le_nat_le_bytes)
qed

lemma dec_enc_time [simp]: "dec_time (enc_time w) = w"
proof -
  have "unat w < 256 ^ 8" using unsigned_less [of w, where 'a = nat] by simp
  then show ?thesis by (simp add: dec_time_def enc_time_def le_nat_le_bytes)
qed

text \<open>
  A character array of \<open>n\<close> bytes that holds a C string: the characters, a NUL, and NUL
  padding (what \<^verbatim>\<open>strcpy\<close> into a zeroed array leaves).  \<open>cstr\<close> reads the string back.
\<close>

definition NUL :: char where
  "NUL = CHR 0x00"

definition cbuf :: "nat \<Rightarrow> string \<Rightarrow> string" where
  "cbuf n s = take n (s @ replicate n NUL)"

definition cstr :: "string \<Rightarrow> string" where
  "cstr buf = takeWhile (\<lambda>c. c \<noteq> NUL) buf"

lemma length_cbuf [simp]: "length (cbuf n s) = n"
  by (simp add: cbuf_def)

lemma cstr_cbuf: "length s < n \<Longrightarrow> NUL \<notin> set s \<Longrightarrow> cstr (cbuf n s) = s"
proof -
  assume l: "length s < n" and z: "NUL \<notin> set s"
  then obtain m where m: "n - length s = Suc m" by (cases "n - length s") auto
  with l have "cbuf n s = s @ NUL # replicate m NUL"
    by (simp add: cbuf_def)
  moreover from z have "takeWhile (\<lambda>c. c \<noteq> NUL) (s @ NUL # replicate m NUL) = s"
    by (induction s) auto
  ultimately show ?thesis by (simp add: cstr_def)
qed

section \<open>Truncated files and failed writes\<close>

text \<open>
  C8.  Reading a file of records that was cut off after \<open>n\<close> bytes yields the records
  that were written completely, in order, and nothing else: the reading loop stops at
  the last complete record.
\<close>

theorem fread_all_truncated:
  assumes "codec_ok c P" and "list_all P xs"
  shows "fread_all c (take n (fwrite_all c xs)) = take (n div csize c) xs"
  using assms(2)
proof (induction xs arbitrary: n)
  case Nil
  then show ?case by simp
next
  case (Cons x xs)
  let ?k = "csize c"
  from assms(1) have k: "0 < ?k" "length (enc c x) = ?k"
    by (simp_all add: codec_ok_size [OF assms(1)] codec_ok_length [OF assms(1)])
  show ?case
  proof (cases "n < ?k")
    case True
    then have "length (take n (fwrite_all c (x # xs))) < ?k" by simp
    then have "fread_all c (take n (fwrite_all c (x # xs))) = []" by (rule fread_all_short)
    with True show ?thesis by simp
  next
    case False
    let ?rest = "take (n - ?k) (fwrite_all c xs)"
    from False k have "take n (fwrite_all c (x # xs)) = enc c x @ ?rest"
      by simp
    moreover from k have "fread_all c (enc c x @ ?rest) = dec c (enc c x) # fread_all c ?rest"
      by (subst fread_all.simps) simp
    moreover from assms(1) Cons.prems have "dec c (enc c x) = x"
      by (simp add: codec_ok_dec)
    moreover from False k have "n div ?k = Suc ((n - ?k) div ?k)" by (simp add: le_div_geq)
    ultimately show ?thesis using Cons by simp
  qed
qed

text \<open>
  C22.  The reading loop ends on every file: it delivers as many records as whole blocks
  fit into the file, it has consumed exactly these blocks, and fewer bytes than one
  record are left unread.
\<close>

theorem fread_all_consumes:
  assumes "0 < csize c"
  shows "length (fread_all c bs) = length bs div csize c \<and>
         fread_all c (take (csize c * length (fread_all c bs)) bs) = fread_all c bs \<and>
         length bs - csize c * length (fread_all c bs) < csize c"
proof -
  have l: "length (fread_all c bs) = length bs div csize c"
    using assms by (rule length_fread_all)
  moreover have "fread_all c (take (csize c * (length bs div csize c)) bs) = fread_all c bs"
    using fread_all_whole_blocks [OF assms, of bs] by (simp add: whole_blocks_def)
  moreover have "length bs - csize c * (length bs div csize c) < csize c"
    using assms by (simp add: minus_mult_div_eq_mod)
  ultimately show ?thesis by simp
qed

text \<open>
  C21.  The writing loop stops at the first \<^verbatim>\<open>fwrite\<close> that fails: the file then holds the
  records before the failing one and the error flag is set; when no call fails, the file
  holds every record and the flag is clear.
\<close>

theorem fwrite_loop_prefix:
  "fwrite_loop c fail xs =
     (fwrite_all c (case fail of None \<Rightarrow> xs | Some n \<Rightarrow> take n xs),
      case fail of None \<Rightarrow> False | Some n \<Rightarrow> n < length xs)"
  by (cases fail) (simp_all add: fwrite_loop_Some)

end
