(* ===== verification/Patient_Codec.thy ===== *)
theory Patient_Codec
  imports Patient_Data Binary_File
begin

text \<open>
  The memory image of the two structs, which is what \<^verbatim>\<open>fwrite(&p, sizeof(Patient), 1, f)\<close>
  puts into \<^verbatim>\<open>patients.dat\<close> and \<^verbatim>\<open>discharged_patients.dat\<close>.  The header that fixes
  the layout is not part of the sources, so the layout here is the plain one: the fields
  in the order the code names them, integers little-endian in four bytes, \<^verbatim>\<open>time_t\<close> in
  eight, the two character arrays with \<open>MAX_PATIENT_NAME_LENGTH\<close> and
  \<open>MAX_DIAGNOSIS_LENGTH\<close> bytes, no padding between fields.  The theories that use the
  codecs rely on \<open>patient_codec_ok\<close> and \<open>discharged_codec_ok\<close> only, which hold for any
  layout that stores every field.

  \<open>storable\<close> says that the two strings of a patient fit their arrays together with the
  terminating NUL; a patient that is not storable does not survive a round trip (the
  string is cut, and in C the copy overruns the array).
\<close>

section \<open>Splitting a block at field boundaries\<close>

definition split_at :: "nat \<Rightarrow> string \<Rightarrow> string \<times> string" where
  "split_at k bs = (take k bs, drop k bs)"

lemma split_at_append [simp]: "length a = k \<Longrightarrow> split_at k (a @ b) = (a, b)"
  by (simp add: split_at_def)

lemma split_at_exact [simp]: "length a = k \<Longrightarrow> split_at k a = (a, [])"
  by (simp add: split_at_def)

section \<open>Patient\<close>

definition sizeof_Patient :: "limits \<Rightarrow> nat" where
  "sizeof_Patient L = 4 + MAX_PATIENT_NAME_LENGTH L + 4 + MAX_DIAGNOSIS_LENGTH L + 4 + 8"

definition Patient_bytes :: "limits \<Rightarrow> Patient \<Rightarrow> string" where
  "Patient_bytes L p =
     enc_int (patientId p) @ cbuf (MAX_PATIENT_NAME_LENGTH L) (name p) @
     enc_int (ageInYears p) @ cbuf (MAX_DIAGNOSIS_LENGTH L) (diagnosis p) @
     enc_int (roomNumber p) @ enc_time (admissionDate p)"

definition bytes_Patient :: "limits \<Rightarrow> string \<Rightarrow> Patient" where
  "bytes_Patient L bs =
     (let (b_id, r1) = split_at 4 bs;
          (b_name, r2) = split_at (MAX_PATIENT_NAME_LENGTH L) r1;
          (b_age, r3) = split_at 4 r2;
          (b_diag, r4) = split_at (MAX_DIAGNOSIS_LENGTH L) r3;
          (b_room, r5) = split_at 4 r4;
          (b_date, r6) = split_at 8 r5
      in \<lparr>patientId = dec_int b_id, name = cstr b_name, ageInYears = dec_int b_age,
          diagnosis = cstr b_diag, roomNumber = dec_int b_room,
          admissionDate = dec_time b_date\<rparr>)"

definition patient_codec :: "limits \<Rightarrow> Patient codec" where
  "patient_codec L = \<lparr>csize = sizeof_Patient L, enc = Patient_bytes L, dec = bytes_Patient L\<rparr>"

definition storable :: "limits \<Rightarrow> Patient \<Rightarrow> bool" where
  "storable L p \<longleftrightarrow>
     length (name p) < MAX_PATIENT_NAME_LENGTH L \<and> NUL \<notin> set (name p) \<and>
     length (diagnosis p) < MAX_DIAGNOSIS_LENGTH L \<and> NUL \<notin> set (diagnosis p)"

lemma patient_codec_sel [simp]:
  "csize (patient_codec L) = sizeof_Patient L"
  "enc (patient_codec L) = Patient_bytes L"
  "dec (patient_codec L) = bytes_Patient L"
  by (simp_all add: patient_codec_def)

lemma length_Patient_bytes [simp]: "length (Patient_bytes L p) = sizeof_Patient L"
  by (simp add: Patient_bytes_def sizeof_Patient_def)

lemma sizeof_Patient_pos [simp]: "0 < sizeof_Patient L"
  by (simp add: sizeof_Patient_def)

lemma bytes_Patient_bytes: "storable L p \<Longrightarrow> bytes_Patient L (Patient_bytes L p @ rest) = p"
  by (simp add: bytes_Patient_def Patient_bytes_def storable_def cstr_cbuf)

lemma patient_codec_ok: "codec_ok (patient_codec L) (storable L)"
  using bytes_Patient_bytes [of L _ "[]"] by (intro codec_okI) simp_all

section \<open>DischargedPatient\<close>

definition sizeof_DischargedPatient :: "limits \<Rightarrow> nat" where
  "sizeof_DischargedPatient L = sizeof_Patient L + 8"

definition Discharged_bytes :: "limits \<Rightarrow> DischargedPatient \<Rightarrow> string" where
  "Discharged_bytes L d = Patient_bytes L (patient d) @ enc_time (dischargeDate d)"

definition bytes_Discharged :: "limits \<Rightarrow> string \<Rightarrow> DischargedPatient" where
  "bytes_Discharged L bs =
     (let (b_patient, r1) = split_at (sizeof_Patient L) bs;
          (b_date, r2) = split_at 8 r1
      in \<lparr>patient = bytes_Patient L b_patient, dischargeDate = dec_time b_date\<rparr>)"

definition discharged_codec :: "limits \<Rightarrow> DischargedPatient codec" where
  "discharged_codec L =
     \<lparr>csize = sizeof_DischargedPatient L, enc = Discharged_bytes L, dec = bytes_Discharged L\<rparr>"

lemma discharged_codec_sel [simp]:
  "csize (discharged_codec L) = sizeof_DischargedPatient L"
  "enc (discharged_codec L) = Discharged_bytes L"
  "dec (discharged_codec L) = bytes_Discharged L"
  by (simp_all add: discharged_codec_def)

lemma length_Discharged_bytes [simp]:
  "length (Discharged_bytes L d) = sizeof_DischargedPatient L"
  by (simp add: Discharged_bytes_def sizeof_DischargedPatient_def)

lemma bytes_Discharged_bytes:
  "storable L (patient d) \<Longrightarrow> bytes_Discharged L (Discharged_bytes L d) = d"
  using bytes_Patient_bytes [of L "patient d" "[]"]
  by (simp add: bytes_Discharged_def Discharged_bytes_def)

lemma discharged_codec_ok: "codec_ok (discharged_codec L) (\<lambda>d. storable L (patient d))"
  by (intro codec_okI) (simp_all add: bytes_Discharged_bytes sizeof_DischargedPatient_def)

end
