(* ===== verification/Patient_List.thy ===== *)
theory Patient_List
  imports Patient_Data
begin

text \<open>
  The linked list of active patients of \<^verbatim>\<open>src/patient_management.c\<close>, at the level of the
  sequence of records it holds: the list \<open>[p\<^sub>1, \<dots>, p\<^sub>n]\<close> stands for the chain of
  \<^verbatim>\<open>PatientNode\<close>s from \<^verbatim>\<open>patientHead\<close> whose \<^verbatim>\<open>data\<close> fields are \<open>p\<^sub>1, \<dots>, p\<^sub>n\<close>, and
  \<open>[]\<close> for the \<^verbatim>\<open>NULL\<close> head.  Each traversal of the source is a recursive function that
  makes the same comparisons in the same order:

  \<^item> \<open>insertPatientAtEndOfList\<close> (lines 944-970): the first argument says whether
    \<^verbatim>\<open>malloc\<close> returned a node; the result \<open>[]\<close> is the \<^verbatim>\<open>NULL\<close> the function returns when
    it did not.  \<open>link_at_end\<close> is the walk to the last node and the link;
  \<^item> \<open>getPatientFromList\<close> (lines 869-886), \<open>isRoomOccupiedInList\<close> (lines 910-920);
  \<^item> \<open>computeNextPatientId\<close> (lines 926-939) with its loop \<open>max_id_loop\<close>;
  \<^item> \<open>unlink_node\<close>: the head test and the search loop of \<^verbatim>\<open>removePatientFromSystem\<close>
    (lines 772-799), \<open>None\<close> when the loop ends at \<^verbatim>\<open>NULL\<close>.

  The lemmas give each traversal its meaning on the sequence (append, first match,
  membership, maximum, removal of the first match) and the facts about identifiers and
  rooms that the invariants of the store are built from.
\<close>

section \<open>Constants of the module\<close>

definition IS_EMPTY :: cint where
  "IS_EMPTY = 0"

definition DEFAULT_ID :: cint where
  "DEFAULT_ID = 1"

definition ROOM_UNOCCUPIED :: cint where
  "ROOM_UNOCCUPIED = - 1"

lemmas c_constants = IS_EMPTY_def DEFAULT_ID_def ROOM_UNOCCUPIED_def

section \<open>Traversals\<close>

fun link_at_end :: "Patient list \<Rightarrow> Patient \<Rightarrow> Patient list" where
  "link_at_end [] d = [d]"
| "link_at_end (current # rest) d = current # link_at_end rest d"

definition insertPatientAtEndOfList :: "bool \<Rightarrow> Patient list \<Rightarrow> Patient \<Rightarrow> Patient list" where
  "insertPatientAtEndOfList malloc_ok head d =
     (if \<not> malloc_ok then []
      else if head = [] then [d]
      else link_at_end head d)"

fun getPatientFromList :: "cint \<Rightarrow> Patient list \<Rightarrow> Patient option" where
  "getPatientFromList ident [] = None"
| "getPatientFromList ident (current # rest) =
     (if patientId current = ident then Some current else getPatientFromList ident rest)"

fun isRoomOccupiedInList :: "cint \<Rightarrow> Patient list \<Rightarrow> cint" where
  "isRoomOccupiedInList room [] = ROOM_UNOCCUPIED"
| "isRoomOccupiedInList room (current # rest) =
     (if roomNumber current = room then 1 else isRoomOccupiedInList room rest)"

fun max_id_loop :: "cint \<Rightarrow> Patient list \<Rightarrow> cint" where
  "max_id_loop maxId [] = maxId"
| "max_id_loop maxId (current # rest) =
     max_id_loop (if maxId <s patientId current then patientId current else maxId) rest"

definition computeNextPatientId :: "Patient list \<Rightarrow> cint" where
  "computeNextPatientId head = max_id_loop 0 head + 1"

definition unlink_node :: "cint \<Rightarrow> Patient list \<Rightarrow> Patient list option" where
  "unlink_node ident head =
     (case head of
        [] \<Rightarrow> None
      | current # rest \<Rightarrow>
          if patientId current = ident then Some rest
          else map_option (Cons current) (remove_first (\<lambda>p. patientId p = ident) rest))"

section \<open>Meaning of the traversals\<close>

lemma link_at_end_append [simp]: "link_at_end xs d = xs @ [d]"
  by (induction xs) auto

lemma insertPatientAtEndOfList_ok [simp]: "insertPatientAtEndOfList True xs d = xs @ [d]"
  by (simp add: insertPatientAtEndOfList_def)

lemma insertPatientAtEndOfList_fail [simp]: "insertPatientAtEndOfList False xs d = []"
  by (simp add: insertPatientAtEndOfList_def)

lemma insertPatientAtEndOfList_Nil_iff:
  "insertPatientAtEndOfList ok xs d = [] \<longleftrightarrow> \<not> ok"
  by (cases ok) auto

lemma getPatientFromList_find: "getPatientFromList i xs = find (\<lambda>p. patientId p = i) xs"
  by (induction xs) auto

lemma getPatientFromList_SomeD:
  "getPatientFromList i xs = Some p \<Longrightarrow> p \<in> set xs \<and> patientId p = i"
  by (induction xs) (auto split: if_splits)

lemma getPatientFromList_None_iff:
  "getPatientFromList i xs = None \<longleftrightarrow> i \<notin> patientId ` set xs"
  by (induction xs) auto

lemma getPatientFromList_append:
  "getPatientFromList i (xs @ ys) =
     (case getPatientFromList i xs of Some p \<Rightarrow> Some p | None \<Rightarrow> getPatientFromList i ys)"
  by (induction xs) auto

lemma getPatientFromList_unique:
  "distinct (map patientId xs) \<Longrightarrow> p \<in> set xs \<Longrightarrow> getPatientFromList (patientId p) xs = Some p"
  by (induction xs) (auto simp: image_iff)

lemma isRoomOccupiedInList_cases:
  "isRoomOccupiedInList r xs = (if r \<in> roomNumber ` set xs then 1 else ROOM_UNOCCUPIED)"
  by (induction xs) auto

lemma isRoomOccupiedInList_iff:
  "isRoomOccupiedInList r xs = ROOM_UNOCCUPIED \<longleftrightarrow> r \<notin> roomNumber ` set xs"
  by (simp add: isRoomOccupiedInList_cases ROOM_UNOCCUPIED_def)

lemma unlink_node_remove_first:
  "unlink_node i xs = remove_first (\<lambda>p. patientId p = i) xs"
  by (cases xs) (auto simp: unlink_node_def)

lemma unlink_node_None_iff: "unlink_node i xs = None \<longleftrightarrow> i \<notin> patientId ` set xs"
  by (auto simp: unlink_node_remove_first remove_first_None_iff)

lemma unlink_node_found:
  "getPatientFromList i xs = Some p \<Longrightarrow> \<exists>ys. unlink_node i xs = Some ys"
  using unlink_node_None_iff [of i xs] getPatientFromList_None_iff [of i xs] by auto

lemma unlink_node_length: "unlink_node i xs = Some ys \<Longrightarrow> length xs = Suc (length ys)"
  by (simp add: unlink_node_remove_first remove_first_length)

lemma unlink_node_subset: "unlink_node i xs = Some ys \<Longrightarrow> set ys \<subseteq> set xs"
  by (simp add: unlink_node_remove_first remove_first_subset)

lemma unlink_node_distinct:
  "unlink_node i xs = Some ys \<Longrightarrow> distinct (map f xs) \<Longrightarrow> distinct (map f ys)"
  by (simp add: unlink_node_remove_first remove_first_distinct_map)

lemma unlink_node_gone:
  "unlink_node i xs = Some ys \<Longrightarrow> distinct (map patientId xs) \<Longrightarrow> i \<notin> patientId ` set ys"
  unfolding unlink_node_remove_first by (rule remove_first_map_gone)

lemma unlink_node_others:
  "unlink_node i xs = Some ys \<Longrightarrow> p \<in> set xs \<Longrightarrow> patientId p \<noteq> i \<Longrightarrow> p \<in> set ys"
  unfolding unlink_node_remove_first by (rule remove_first_other_kept)

lemma unlink_node_filter:
  "unlink_node i xs = Some ys \<Longrightarrow> distinct (map patientId xs) \<Longrightarrow>
     ys = filter (\<lambda>p. patientId p \<noteq> i) xs"
proof -
  assume u: "unlink_node i xs = Some ys" and d: "distinct (map patientId xs)"
  from u have f: "filter (\<lambda>p. patientId p \<noteq> i) ys = filter (\<lambda>p. patientId p \<noteq> i) xs"
    unfolding unlink_node_remove_first by (rule remove_first_filter)
  from unlink_node_gone [OF u d] have "filter (\<lambda>p. patientId p \<noteq> i) ys = ys"
    by (auto simp: filter_id_conv)
  with f show ?thesis by simp
qed

section \<open>The largest identifier\<close>

lemma max_id_loop_ge_start: "sint m \<le> sint (max_id_loop m xs)"
proof (induction xs arbitrary: m)
  case Nil
  then show ?case by simp
next
  case (Cons p ps)
  show ?case
    using Cons.IH [of "patientId p"] Cons.IH [of m] by (auto simp: cint_less)
qed

lemma max_id_loop_ge_ids: "p \<in> set xs \<Longrightarrow> sint (patientId p) \<le> sint (max_id_loop m xs)"
proof (induction xs arbitrary: m)
  case Nil
  then show ?case by simp
next
  case (Cons q qs)
  show ?case
  proof (cases "p = q")
    case True
    then show ?thesis
      using max_id_loop_ge_start [of "patientId q" qs] max_id_loop_ge_start [of m qs]
      by (auto simp: cint_less)
  next
    case False
    with Cons.prems have "p \<in> set qs" by simp
    then show ?thesis using Cons.IH by simp
  qed
qed

lemma max_id_loop_attained: "max_id_loop m xs = m \<or> max_id_loop m xs \<in> patientId ` set xs"
proof (induction xs arbitrary: m)
  case Nil
  then show ?case by simp
next
  case (Cons p ps)
  show ?case
    using Cons.IH [of "patientId p"] Cons.IH [of m] by auto
qed

lemma computeNextPatientId_sint:
  assumes "\<forall>p \<in> set xs. sint (patientId p) < INT_MAX"
  shows "sint (computeNextPatientId xs) = sint (max_id_loop 0 xs) + 1"
proof -
  from max_id_loop_attained [of 0 xs] assms have "sint (max_id_loop 0 xs) < INT_MAX"
    by (auto simp: INT_MAX_def)
  then show ?thesis by (simp add: computeNextPatientId_def sint_succ32)
qed

lemma computeNextPatientId_above:
  assumes "\<forall>p \<in> set xs. sint (patientId p) < INT_MAX" and "p \<in> set xs"
  shows "sint (patientId p) < sint (computeNextPatientId xs)"
  using computeNextPatientId_sint [OF assms(1)] max_id_loop_ge_ids [OF assms(2), of 0] by simp

lemma computeNextPatientId_positive:
  assumes "\<forall>p \<in> set xs. sint (patientId p) < INT_MAX"
  shows "0 < sint (computeNextPatientId xs)"
  using computeNextPatientId_sint [OF assms] max_id_loop_ge_start [of 0 xs] by simp

lemma computeNextPatientId_Nil [simp]: "computeNextPatientId [] = DEFAULT_ID"
  by (simp add: computeNextPatientId_def DEFAULT_ID_def)

lemma remove_first_remove1:
  "remove_first (\<lambda>p. patientId p = i) xs =
     (case getPatientFromList i xs of None \<Rightarrow> None | Some p \<Rightarrow> Some (remove1 p xs))"
proof (induction xs)
  case Nil
  then show ?case by simp
next
  case (Cons x xs)
  then show ?case
    by (cases "getPatientFromList i xs") (auto dest: getPatientFromList_SomeD)
qed

lemma unlink_node_via_remove1:
  "getPatientFromList i xs = Some p \<Longrightarrow> unlink_node i xs = Some (remove1 p xs)"
  by (simp add: unlink_node_remove_first remove_first_remove1)

section \<open>The next identifier and the removal, against reference definitions\<close>

text \<open>
  C19.  When no identifier in the list is \<^verbatim>\<open>INT_MAX\<close>, \<open>computeNextPatientId\<close> returns one
  more than the largest identifier of the list, where the empty list and a list of
  non-positive identifiers count as largest identifier 0.
\<close>

theorem computeNextPatientId_max:
  assumes "\<forall>p \<in> set xs. sint (patientId p) < INT_MAX"
  shows "sint (computeNextPatientId xs) = Max (insert 0 ((\<lambda>p. sint (patientId p)) ` set xs)) + 1"
proof -
  let ?A = "insert 0 ((\<lambda>p. sint (patientId p)) ` set xs)"
  have "sint (max_id_loop 0 xs) \<in> ?A"
    using max_id_loop_attained [of 0 xs] by auto
  moreover have "\<And>y. y \<in> ?A \<Longrightarrow> y \<le> sint (max_id_loop 0 xs)"
    using max_id_loop_ge_start [of 0 xs] max_id_loop_ge_ids [of _ xs 0] by auto
  ultimately have "Max ?A = sint (max_id_loop 0 xs)" by (intro Max_eqI) simp_all
  with computeNextPatientId_sint [OF assms] show ?thesis by simp
qed

text \<open>
  C20.  The unlinking loop of \<open>removePatientFromSystem\<close> agrees with the library's
  \<open>remove1\<close>: it fails exactly when the search by identifier fails, and otherwise removes
  the one record that the search returns.
\<close>

theorem unlink_node_remove1:
  "unlink_node i xs =
     (case getPatientFromList i xs of None \<Rightarrow> None | Some p \<Rightarrow> Some (remove1 p xs))"
  unfolding unlink_node_remove_first by (rule remove_first_remove1)

end
