(* ===== verification/Stdio.thy ===== *)
theory Stdio
  imports Patient_Data
begin

text \<open>
  The outside world of the program: the files of the working directory and the console.

  \<^item> \<open>fname\<close> names the six files the program opens; \<open>path_of\<close> gives the path the source
    passes to \<^verbatim>\<open>fopen\<close>.  A file system \<open>fs\<close> maps a name to the bytes of the file, or to
    \<open>None\<close> when there is no such file.
  \<^item> \<open>fopen_w\<close>, \<open>fopen_a\<close>, \<open>fappend\<close>, \<open>fremove\<close> and \<open>frename\<close> are the effects of a
    successful \<^verbatim>\<open>fopen(.., "wb")\<close>, \<^verbatim>\<open>fopen(.., "ab")\<close>, of writing through a stream opened
    for appending, of \<^verbatim>\<open>remove\<close> and of \<^verbatim>\<open>rename\<close>.  Whether a call succeeds is decided
    by the environment and is an argument of the handler that makes the call.
  \<^item> \<open>console_event\<close> is one call that prints: \<^verbatim>\<open>puts\<close>, \<^verbatim>\<open>printf\<close>, \<^verbatim>\<open>perror\<close> and
    \<^verbatim>\<open>fprintf(stderr, ..)\<close> with the text they print, and \<^verbatim>\<open>printPatient\<close> with the record
    it is given.  The
    console is the list of the events so far.
\<close>

datatype fname =
  PatientsDat | PatientsTmp | DischargedDat | RoomUsageTxt | PatientReportsTxt
  | DischargedReportsTxt

fun path_of :: "fname \<Rightarrow> string" where
  "path_of PatientsDat = ''patients.dat''"
| "path_of PatientsTmp = ''patients.tmp''"
| "path_of DischargedDat = ''discharged_patients.dat''"
| "path_of RoomUsageTxt = ''room_usage.txt''"
| "path_of PatientReportsTxt = ''patient_reports.txt''"
| "path_of DischargedReportsTxt = ''discharged_reports.txt''"

type_synonym fs = "fname \<Rightarrow> string option"

definition fopen_w :: "fname \<Rightarrow> fs \<Rightarrow> fs" where
  "fopen_w f d = d(f \<mapsto> [])"

definition fopen_a :: "fname \<Rightarrow> fs \<Rightarrow> fs" where
  "fopen_a f d = d(f \<mapsto> (case d f of None \<Rightarrow> [] | Some old \<Rightarrow> old))"

definition fappend :: "fname \<Rightarrow> string \<Rightarrow> fs \<Rightarrow> fs" where
  "fappend f bs d = d(f \<mapsto> (case d f of None \<Rightarrow> bs | Some old \<Rightarrow> old @ bs))"

definition fremove :: "fname \<Rightarrow> fs \<Rightarrow> fs" where
  "fremove f d = d(f := None)"

definition frename :: "fname \<Rightarrow> fname \<Rightarrow> fs \<Rightarrow> fs" where
  "frename old new d = (d(new := d old))(old := None)"

lemmas fs_defs = fopen_w_def fopen_a_def fappend_def fremove_def frename_def

lemma path_of_inj: "path_of f = path_of g \<Longrightarrow> f = g"
  by (cases f; cases g) simp_all

lemma fappend_same [simp]:
  "fappend f bs d f = Some (case d f of None \<Rightarrow> bs | Some old \<Rightarrow> old @ bs)"
  by (simp add: fappend_def)

lemma fappend_other [simp]: "g \<noteq> f \<Longrightarrow> fappend f bs d g = d g"
  by (simp add: fappend_def)

lemma fopen_a_same [simp]: "fopen_a f d f = Some (case d f of None \<Rightarrow> [] | Some old \<Rightarrow> old)"
  by (simp add: fopen_a_def)

lemma fopen_a_other [simp]: "g \<noteq> f \<Longrightarrow> fopen_a f d g = d g"
  by (simp add: fopen_a_def)

lemma fopen_w_same [simp]: "fopen_w f d f = Some []"
  by (simp add: fopen_w_def)

lemma fopen_w_other [simp]: "g \<noteq> f \<Longrightarrow> fopen_w f d g = d g"
  by (simp add: fopen_w_def)

lemma fremove_same [simp]: "fremove f d f = None"
  by (simp add: fremove_def)

lemma fremove_other [simp]: "g \<noteq> f \<Longrightarrow> fremove f d g = d g"
  by (simp add: fremove_def)

lemma frename_new [simp]: "old \<noteq> new \<Longrightarrow> frename old new d new = d old"
  by (simp add: frename_def)

lemma frename_old [simp]: "frename old new d old = None"
  by (simp add: frename_def)

lemma frename_other [simp]: "g \<noteq> old \<Longrightarrow> g \<noteq> new \<Longrightarrow> frename old new d g = d g"
  by (simp add: frename_def)

lemma fappend_fopen_a [simp]: "fappend f bs (fopen_a f d) = fappend f bs d"
  by (auto simp: fappend_def fopen_a_def split: option.splits)

datatype console_event =
  Puts string | Printf string | Perror string | Eprintf string | PrintPatient Patient

end
