(* ===== verification/Persistence.thy ===== *)
theory Persistence
  imports Patient_Codec Patient_List Stdio
begin

text \<open>
  The state of the program and the functions of \<^verbatim>\<open>src/patient_management.c\<close> that move
  records between the list and the files.

  \<^item> \<open>hms\<close> is the whole state: the three module variables \<^verbatim>\<open>patientHead\<close>,
    \<^verbatim>\<open>totalPatients\<close>, \<^verbatim>\<open>patientIDCounter\<close> (lines 28-30), the files and the console.
  \<^item> \<open>upd_env\<close> is what the environment decides during \<^verbatim>\<open>updatePatientsFile\<close>: whether
    the temporary file can be created, which \<^verbatim>\<open>fwrite\<close> is the first to fail, whether
    \<^verbatim>\<open>fclose\<close>, \<^verbatim>\<open>remove\<close> (for a reason other than a missing file) and \<^verbatim>\<open>rename\<close> fail.
  \<^item> \<open>clearBinaryFile\<close> (lines 117-128), \<open>updatePatientsFile\<close> (lines 810-864),
    \<open>writePatientToFile\<close> (lines 892-905) and \<open>logRoomUsage\<close> (lines 1075-1093) follow the
    source statement by statement; a Boolean argument named \<open>*_fails\<close> is the outcome of
    the one library call it names.  A write that fails leaves the file as it was.

  The lemmas give, for every outcome of the environment, the files after the call: the
  rewrite replaces \<^verbatim>\<open>patients.dat\<close> by the image of the list when nothing fails, leaves
  it untouched when the temporary file cannot be written, and loses it when \<^verbatim>\<open>rename\<close>
  fails after \<^verbatim>\<open>remove\<close> succeeded.
\<close>

section \<open>State\<close>

record hms =
  patientHead :: "Patient list"
  totalPatients :: cint
  patientIDCounter :: cint
  files :: fs
  console :: "console_event list"

definition say :: "console_event \<Rightarrow> hms \<Rightarrow> hms" where
  "say ev s = s\<lparr>console := console s @ [ev]\<rparr>"

lemma say_fields [simp]:
  "patientHead (say ev s) = patientHead s"
  "totalPatients (say ev s) = totalPatients s"
  "patientIDCounter (say ev s) = patientIDCounter s"
  "files (say ev s) = files s"
  "console (say ev s) = console s @ [ev]"
  by (simp_all add: say_def)

lemma fold_say_fields [simp]:
  "patientHead (fold (\<lambda>p. say (f p)) xs s) = patientHead s"
  "totalPatients (fold (\<lambda>p. say (f p)) xs s) = totalPatients s"
  "patientIDCounter (fold (\<lambda>p. say (f p)) xs s) = patientIDCounter s"
  "files (fold (\<lambda>p. say (f p)) xs s) = files s"
  "console (fold (\<lambda>p. say (f p)) xs s) = console s @ map f xs"
  by (induction xs arbitrary: s) simp_all

text \<open>The state in which the program starts (the initialisers of lines 28-30).\<close>

definition boot :: "fs \<Rightarrow> hms" where
  "boot d = \<lparr>patientHead = [], totalPatients = IS_EMPTY, patientIDCounter = DEFAULT_ID,
             files = d, console = []\<rparr>"

lemma boot_fields [simp]:
  "patientHead (boot d) = []" "totalPatients (boot d) = IS_EMPTY"
  "patientIDCounter (boot d) = DEFAULT_ID" "files (boot d) = d" "console (boot d) = []"
  by (simp_all add: boot_def)

record upd_env =
  tmp_open_fails :: bool
  write_fails_at :: "nat option"
  tmp_close_fails :: bool
  remove_fails :: bool
  rename_fails :: bool

definition no_upd_faults :: upd_env where
  "no_upd_faults =
     \<lparr>tmp_open_fails = False, write_fails_at = None, tmp_close_fails = False,
      remove_fails = False, rename_fails = False\<rparr>"

section \<open>The functions\<close>

definition clearBinaryFile :: "bool \<Rightarrow> fname \<Rightarrow> hms \<Rightarrow> hms" where
  "clearBinaryFile open_fails fileName s =
     (if open_fails then say (Puts ''Error: Unable to clear patients.dat.'') s
      else s\<lparr>files := fopen_w fileName (files s)\<rparr>)"

definition updatePatientsFile :: "limits \<Rightarrow> upd_env \<Rightarrow> hms \<Rightarrow> hms" where
  "updatePatientsFile L e s =
     (if tmp_open_fails e then say (Perror ''Error creating temporary backup file'') s
      else
        let (bytes, werr) = fwrite_loop (patient_codec L) (write_fails_at e) (patientHead s);
            s1 = s\<lparr>files := fappend PatientsTmp bytes (fopen_w PatientsTmp (files s))\<rparr>;
            s2 = (if werr then say (Perror ''Error writing patient to temporary file'') s1
                  else s1);
            s3 = (if tmp_close_fails e
                  then say (Perror ''Error closing temporary backup file'') s2 else s2);
            write_error = (werr \<or> tmp_close_fails e)
        in if \<not> write_error then
             let s4 = (if files s3 PatientsDat = None then s3
                       else if remove_fails e
                       then say (Perror ''Error removing old patients.dat'') s3
                       else s3\<lparr>files := fremove PatientsDat (files s3)\<rparr>)
             in if rename_fails e
                then say (Perror ''Error renaming temporary file to patients.dat'') s4
                else say (Puts ''patients.dat updated successfully.'')
                       (s4\<lparr>files := frename PatientsTmp PatientsDat (files s4)\<rparr>)
           else say (Puts ''Backup failed. Original patients.dat remains unchanged.'')
                  (s3\<lparr>files := fremove PatientsTmp (files s3)\<rparr>))"

definition writePatientToFile :: "limits \<Rightarrow> bool \<Rightarrow> bool \<Rightarrow> Patient \<Rightarrow> hms \<Rightarrow> hms" where
  "writePatientToFile L open_fails write_fails newPatient s =
     (if open_fails
      then say (Puts ''\<newline>Unable to find patients.dat. Patient not added to file.'') s
      else say (Puts ''\<newline>Patient successfully added to file.\<newline>'')
             (s\<lparr>files := (if write_fails then fopen_a PatientsDat (files s)
                           else fappend PatientsDat (Patient_bytes L newPatient) (files s))\<rparr>))"

definition logRoomUsage :: "bool \<Rightarrow> bool \<Rightarrow> cint \<Rightarrow> hms \<Rightarrow> hms" where
  "logRoomUsage open_fails write_fails room s =
     (if open_fails then say (Perror ''Error opening room_usage.txt for logging'') s
      else s\<lparr>files := (if write_fails then fopen_a RoomUsageTxt (files s)
                        else fappend RoomUsageTxt (show_cint room @ ''\<newline>'') (files s))\<rparr>)"

declare clearBinaryFile_def [hms_unfold] updatePatientsFile_def [hms_unfold]
  writePatientToFile_def [hms_unfold] logRoomUsage_def [hms_unfold] say_def [hms_unfold]
  no_upd_faults_def [hms_unfold]

section \<open>Frame: the list and the counters\<close>

lemma updatePatientsFile_store [simp, hms_frame]:
  "patientHead (updatePatientsFile L e s) = patientHead s"
  "totalPatients (updatePatientsFile L e s) = totalPatients s"
  "patientIDCounter (updatePatientsFile L e s) = patientIDCounter s"
  by (simp_all add: updatePatientsFile_def Let_def split: prod.splits)

lemma writePatientToFile_store [simp, hms_frame]:
  "patientHead (writePatientToFile L o_f w_f p s) = patientHead s"
  "totalPatients (writePatientToFile L o_f w_f p s) = totalPatients s"
  "patientIDCounter (writePatientToFile L o_f w_f p s) = patientIDCounter s"
  by (simp_all add: writePatientToFile_def)

lemma logRoomUsage_store [simp, hms_frame]:
  "patientHead (logRoomUsage o_f w_f r s) = patientHead s"
  "totalPatients (logRoomUsage o_f w_f r s) = totalPatients s"
  "patientIDCounter (logRoomUsage o_f w_f r s) = patientIDCounter s"
  by (simp_all add: logRoomUsage_def)

lemma clearBinaryFile_store [simp, hms_frame]:
  "patientHead (clearBinaryFile o_f f s) = patientHead s"
  "totalPatients (clearBinaryFile o_f f s) = totalPatients s"
  "patientIDCounter (clearBinaryFile o_f f s) = patientIDCounter s"
  by (simp_all add: clearBinaryFile_def)

lemma updatePatientsFile_other_files [simp, hms_frame]:
  "f \<noteq> PatientsDat \<Longrightarrow> f \<noteq> PatientsTmp \<Longrightarrow> files (updatePatientsFile L e s) f = files s f"
  by (simp add: updatePatientsFile_def Let_def split: prod.splits)

lemma writePatientToFile_other_files [simp, hms_frame]:
  "f \<noteq> PatientsDat \<Longrightarrow> files (writePatientToFile L o_f w_f p s) f = files s f"
  by (simp add: writePatientToFile_def)

lemma logRoomUsage_other_files [simp, hms_frame]:
  "f \<noteq> RoomUsageTxt \<Longrightarrow> files (logRoomUsage o_f w_f r s) f = files s f"
  by (simp add: logRoomUsage_def)

section \<open>The rewrite of the active file\<close>

text \<open>The image of the list, as the rewrite leaves it in \<^verbatim>\<open>patients.dat\<close>.\<close>

definition image_of :: "limits \<Rightarrow> Patient list \<Rightarrow> string" where
  "image_of L xs = fwrite_all (patient_codec L) xs"

lemma image_of_simps [simp]:
  "image_of L [] = []"
  "image_of L (x # xs) = Patient_bytes L x @ image_of L xs"
  "image_of L (xs @ ys) = image_of L xs @ image_of L ys"
  by (simp_all add: image_of_def)

definition upd_write_error :: "upd_env \<Rightarrow> hms \<Rightarrow> bool" where
  "upd_write_error e s \<longleftrightarrow>
     (case write_fails_at e of None \<Rightarrow> False | Some n \<Rightarrow> n < length (patientHead s))
     \<or> tmp_close_fails e"

lemma fwrite_loop_error:
  "snd (fwrite_loop c fail xs) = (case fail of None \<Rightarrow> False | Some n \<Rightarrow> n < length xs)"
  by (cases fail) (simp_all add: fwrite_loop_Some)

lemma updatePatientsFile_success:
  assumes "\<not> tmp_open_fails e" and "\<not> upd_write_error e s" and "\<not> rename_fails e"
  shows "files (updatePatientsFile L e s) PatientsDat = Some (image_of L (patientHead s))"
    and "files (updatePatientsFile L e s) PatientsTmp = None"
proof -
  obtain bytes werr where w: "fwrite_loop (patient_codec L) (write_fails_at e) (patientHead s) = (bytes, werr)"
    by (cases "fwrite_loop (patient_codec L) (write_fails_at e) (patientHead s)")
  with assms(2) fwrite_loop_error [of "patient_codec L" "write_fails_at e" "patientHead s"]
  have e: "\<not> werr" "\<not> tmp_close_fails e" by (auto simp: upd_write_error_def)
  with w fwrite_loop_no_error [of "patient_codec L" "write_fails_at e" "patientHead s"]
  have b: "bytes = image_of L (patientHead s)" by (simp add: image_of_def)
  from assms(1,3) w e b
  show "files (updatePatientsFile L e s) PatientsDat = Some (image_of L (patientHead s))"
    and "files (updatePatientsFile L e s) PatientsTmp = None"
    by (simp_all add: updatePatientsFile_def Let_def)
qed

lemma updatePatientsFile_write_error:
  assumes "\<not> tmp_open_fails e" and "upd_write_error e s"
  shows "files (updatePatientsFile L e s) PatientsDat = files s PatientsDat"
    and "files (updatePatientsFile L e s) PatientsTmp = None"
proof -
  obtain bytes werr where w: "fwrite_loop (patient_codec L) (write_fails_at e) (patientHead s) = (bytes, werr)"
    by (cases "fwrite_loop (patient_codec L) (write_fails_at e) (patientHead s)")
  with assms(2) fwrite_loop_error [of "patient_codec L" "write_fails_at e" "patientHead s"]
  have e: "werr \<or> tmp_close_fails e" by (auto simp: upd_write_error_def)
  from assms(1) w e
  show "files (updatePatientsFile L e s) PatientsDat = files s PatientsDat"
    and "files (updatePatientsFile L e s) PatientsTmp = None"
    by (auto simp: updatePatientsFile_def Let_def)
qed

lemma updatePatientsFile_open_error:
  "tmp_open_fails e \<Longrightarrow> files (updatePatientsFile L e s) = files s"
  by (simp add: updatePatientsFile_def)

lemma updatePatientsFile_rename_error:
  assumes "\<not> tmp_open_fails e" and "\<not> upd_write_error e s" and "rename_fails e"
  shows "files (updatePatientsFile L e s) PatientsTmp = Some (image_of L (patientHead s))"
    and "files (updatePatientsFile L e s) PatientsDat =
           (if remove_fails e then files s PatientsDat else None)"
proof -
  obtain bytes werr where w: "fwrite_loop (patient_codec L) (write_fails_at e) (patientHead s) = (bytes, werr)"
    by (cases "fwrite_loop (patient_codec L) (write_fails_at e) (patientHead s)")
  with assms(2) fwrite_loop_error [of "patient_codec L" "write_fails_at e" "patientHead s"]
  have e: "\<not> werr" "\<not> tmp_close_fails e" by (auto simp: upd_write_error_def)
  with w fwrite_loop_no_error [of "patient_codec L" "write_fails_at e" "patientHead s"]
  have b: "bytes = image_of L (patientHead s)" by (simp add: image_of_def)
  from assms(1,3) w e b
  show "files (updatePatientsFile L e s) PatientsTmp = Some (image_of L (patientHead s))"
    and "files (updatePatientsFile L e s) PatientsDat =
           (if remove_fails e then files s PatientsDat else None)"
    by (auto simp: updatePatientsFile_def Let_def)
qed

text \<open>An environment in which the rewrite goes through.\<close>

definition upd_ok :: "upd_env \<Rightarrow> bool" where
  "upd_ok e \<longleftrightarrow>
     \<not> tmp_open_fails e \<and> write_fails_at e = None \<and> \<not> tmp_close_fails e \<and> \<not> rename_fails e"

lemma upd_ok_no_write_error: "upd_ok e \<Longrightarrow> \<not> upd_write_error e s"
  by (simp add: upd_ok_def upd_write_error_def)

lemma updatePatientsFile_ok [simp]:
  assumes "upd_ok e"
  shows "files (updatePatientsFile L e s) PatientsDat = Some (image_of L (patientHead s))"
    and "files (updatePatientsFile L e s) PatientsTmp = None"
  using assms updatePatientsFile_success [of e s L] upd_ok_no_write_error [of e s]
  by (simp_all add: upd_ok_def)

section \<open>What a failed rewrite leaves behind\<close>

text \<open>
  C5.  Crash safety of the rewrite: when the temporary file cannot be created, written
  completely or closed, \<^verbatim>\<open>patients.dat\<close> is exactly what it was before the call, no
  temporary file of this call stays behind, and the list and the counters are untouched.
\<close>

theorem updatePatientsFile_keeps_original:
  assumes "tmp_open_fails e \<or> upd_write_error e s"
  shows "files (updatePatientsFile L e s) PatientsDat = files s PatientsDat \<and>
         files (updatePatientsFile L e s) PatientsTmp =
           (if tmp_open_fails e then files s PatientsTmp else None) \<and>
         patientHead (updatePatientsFile L e s) = patientHead s \<and>
         totalPatients (updatePatientsFile L e s) = totalPatients s"
proof -
  obtain bytes werr where
    w: "fwrite_loop (patient_codec L) (write_fails_at e) (patientHead s) = (bytes, werr)"
    by (cases "fwrite_loop (patient_codec L) (write_fails_at e) (patientHead s)")
  with fwrite_loop_error [of "patient_codec L" "write_fails_at e" "patientHead s"]
  have "werr = (case write_fails_at e of None \<Rightarrow> False | Some n \<Rightarrow> n < length (patientHead s))"
    by simp
  with assms w show ?thesis
    by (auto simp: updatePatientsFile_def Let_def upd_write_error_def)
qed

text \<open>
  C16.  The replacement itself is not atomic: when the temporary file was written and
  \<^verbatim>\<open>remove\<close> succeeded but \<^verbatim>\<open>rename\<close> fails, \<^verbatim>\<open>patients.dat\<close> no longer exists and the
  records are only in \<^verbatim>\<open>patients.tmp\<close>, which no start-up reads.
\<close>

theorem updatePatientsFile_rename_failure:
  assumes "\<not> tmp_open_fails e" and "\<not> upd_write_error e s"
    and "rename_fails e" and "\<not> remove_fails e"
  shows "files (updatePatientsFile L e s) PatientsDat = None \<and>
         files (updatePatientsFile L e s) PatientsTmp = Some (image_of L (patientHead s))"
  using updatePatientsFile_rename_error [OF assms(1-3), of L] assms(4) by simp

end
