(* ===== verification/Patient_Management.thy ===== *)
theory Patient_Management
  imports Persistence
begin

text \<open>
  The handlers of \<^verbatim>\<open>src/patient_management.c\<close>: start-up, admission, listing, search,
  discharge, backup and restore.  Each handler is a function from the state before the
  call to the state after it.  What the user types and what the environment decides are
  arguments: the record \<open>add_env\<close> holds the four values that the input loops
  \<^verbatim>\<open>getPatientName\<close>, \<^verbatim>\<open>getPatientAge\<close>, \<^verbatim>\<open>getPatientDiagnosis\<close> and \<^verbatim>\<open>getRoomNumber\<close> hand to
  \<^verbatim>\<open>addPatientRecord\<close>, the time \<^verbatim>\<open>createPatient\<close> reads, and the outcomes of \<^verbatim>\<open>malloc\<close>,
  \<^verbatim>\<open>fopen\<close> and \<^verbatim>\<open>fwrite\<close>; \<open>discharge_env\<close> and \<open>init_env\<close> do the same for discharge and
  start-up.  The input loops end only with a value that passes its validator (and, for
  the room, that \<open>isRoomOccupiedInList\<close> reports free); the theorems that need this state
  it as a hypothesis on the environment (\<open>admissible\<close>).

  The invariants of the store are \<open>ids_ok\<close> (identifiers are distinct and below the
  counter), \<open>rooms_ok\<close> (no room is held twice), \<open>count_ok\<close> (\<^verbatim>\<open>totalPatients\<close> is the
  length of the list) and \<open>synced\<close> (\<^verbatim>\<open>patients.dat\<close> is the image of the list).
\<close>

section \<open>What the environment supplies\<close>

record init_env =
  ie_open_fails :: bool
  ie_malloc_fails_at :: "nat option"
  ie_clear_open_fails :: bool

record add_env =
  in_name :: string
  in_age :: cint
  in_diagnosis :: string
  in_room :: cint
  add_now :: time_t
  add_malloc_ok :: bool
  add_open_fails :: bool
  add_write_fails :: bool

record discharge_env =
  in_id :: cint
  in_confirm :: char
  dis_now :: time_t
  archive_open_fails :: bool
  archive_write_fails :: bool
  log_open_fails :: bool
  log_write_fails :: bool
  dis_upd :: upd_env

section \<open>Start-up\<close>

definition initializePatientSystemDefault :: "hms \<Rightarrow> hms" where
  "initializePatientSystemDefault s =
     say (Puts ''Patient system initialized with default settings using linked list.'')
       (s\<lparr>patientHead := [], totalPatients := IS_EMPTY, patientIDCounter := DEFAULT_ID\<rparr>)"

definition clearMemory :: "hms \<Rightarrow> hms" where
  "clearMemory s = s\<lparr>patientHead := [], totalPatients := IS_EMPTY, patientIDCounter := DEFAULT_ID\<rparr>"

text \<open>The statement \<^verbatim>\<open>patientHead = insertPatientAtEndOfList(patientHead, data)\<close>.\<close>

definition insert_node :: "bool \<Rightarrow> Patient \<Rightarrow> hms \<Rightarrow> hms" where
  "insert_node malloc_ok d s =
     (let s1 = s\<lparr>patientHead := insertPatientAtEndOfList malloc_ok (patientHead s) d\<rparr>
      in if malloc_ok \<and> patientHead s \<noteq> []
         then say (Puts ''Patient inserted at end of list.'') s1 else s1)"

text \<open>
  The loop of \<^verbatim>\<open>initializePatientSystem\<close> over the records that \<^verbatim>\<open>fread\<close> delivers;
  \<open>Inl\<close> is the exit through \<^verbatim>\<open>patientHead == NULL\<close>.
\<close>

fun load_loop :: "nat option \<Rightarrow> Patient list \<Rightarrow> hms \<Rightarrow> hms + hms" where
  "load_loop fail [] s = Inr s"
| "load_loop fail (tempPatient # records) s =
     (let s1 = insert_node (fail \<noteq> Some 0) tempPatient s
      in if patientHead s1 = [] then Inl s1
         else load_loop (map_option (\<lambda>n. n - 1) fail) records
                (s1\<lparr>totalPatients := totalPatients s1 + 1\<rparr>))"

definition initializePatientSystem :: "limits \<Rightarrow> init_env \<Rightarrow> hms \<Rightarrow> hms" where
  "initializePatientSystem L e s0 =
     (let s = clearMemory s0 in
      case (if ie_open_fails e then None else files s PatientsDat) of
        None \<Rightarrow>
          initializePatientSystemDefault
            (say (Puts ''Error reading patients.dat. Initializing with default setting.'') s)
      | Some bytes \<Rightarrow>
          if bytes = [] then
            initializePatientSystemDefault
              (say (Puts ''patients.dat is empty. Initializing with default setting.'') s)
          else
            (case load_loop (ie_malloc_fails_at e) (fread_all (patient_codec L) bytes) s of
               Inl s1 \<Rightarrow>
                 initializePatientSystemDefault
                   (say (Puts ''Error: Unable to populate linked list from patients.dat.'') s1)
             | Inr s1 \<Rightarrow>
                 if fread_all (patient_codec L) bytes = [] then
                   initializePatientSystemDefault
                     (clearBinaryFile (ie_clear_open_fails e) PatientsDat
                        (say (Puts ''Warning: patients.dat contained no valid patient records.'') s1))
                 else
                   say (Puts ''Patients successfully loaded from file.'')
                     (s1\<lparr>patientIDCounter := computeNextPatientId (patientHead s1)\<rparr>)))"

section \<open>Admission\<close>

text \<open>The record that line 159 creates from the values read and the counter.\<close>

definition new_patient :: "add_env \<Rightarrow> hms \<Rightarrow> Patient" where
  "new_patient e s =
     createPatient (in_name e) (in_age e) (in_diagnosis e) (in_room e)
       (patientIDCounter s) (add_now e)"

definition addPatientRecord :: "limits \<Rightarrow> add_env \<Rightarrow> hms \<Rightarrow> hms" where
  "addPatientRecord L e s =
     (let newPatient = new_patient e s;
          s1 = insert_node (add_malloc_ok e) newPatient s;
          s2 = s1\<lparr>totalPatients := totalPatients s1 + 1,
                  patientIDCounter := patientIDCounter s1 + 1\<rparr>;
          s3 = writePatientToFile L (add_open_fails e) (add_write_fails e) newPatient s2
      in say (PrintPatient newPatient) (say (Printf ''--- Patient Added ---\<newline>'') s3))"

section \<open>Listing and search\<close>

definition viewPatientRecords :: "hms \<Rightarrow> hms" where
  "viewPatientRecords s =
     (if patientHead s = [] then say (Puts ''No patients admitted!'') s
      else fold (\<lambda>p. say (PrintPatient p)) (patientHead s) s)"

definition searchPatientById :: "cint \<Rightarrow> hms \<Rightarrow> hms" where
  "searchPatientById ident s =
     (if patientHead s = [] then say (Puts ''No patients admitted!'') s
      else let s1 = say (Printf ''Enter A Patient Id: '') s in
        case getPatientFromList ident (patientHead s1) of
          Some p \<Rightarrow> say (PrintPatient p) s1
        | None \<Rightarrow> say (Puts ''Patient doesn't exist!'') s1)"

section \<open>Discharge\<close>

definition removePatientFromSystem :: "limits \<Rightarrow> upd_env \<Rightarrow> Patient option \<Rightarrow> hms \<Rightarrow> hms" where
  "removePatientFromSystem L e target s =
     (case target of
        None \<Rightarrow> s
      | Some p \<Rightarrow>
          (case unlink_node (patientId p) (patientHead s) of
             None \<Rightarrow> s
           | Some rest \<Rightarrow>
               updatePatientsFile L e
                 (s\<lparr>patientHead := rest, totalPatients := totalPatients s - 1\<rparr>)))"

definition confirmDischarge :: "char \<Rightarrow> Patient \<Rightarrow> hms \<Rightarrow> bool \<times> hms" where
  "confirmDischarge answer p s =
     (answer = CHR ''y'',
      say (Printf ''Are you sure you want to discharge this patient? (y/n)\<newline>'')
        (say (Printf (''Patient Name: '' @ name p @ ''\<newline>''))
           (say (Printf (''Patient ID: '' @ show_cint (patientId p) @ ''\<newline>'')) s)))"

definition dischargePatient :: "limits \<Rightarrow> discharge_env \<Rightarrow> hms \<Rightarrow> hms" where
  "dischargePatient L e s =
     (if patientHead s = [] then say (Puts ''No patients to discharge!'') s
      else let s1 = say (Printf ''Enter ID of patient to discharge:\<newline>'') s in
        case getPatientFromList (in_id e) (patientHead s1) of
          None \<Rightarrow> say (Puts ''Patient not found!'') s1
        | Some patientToDischarge \<Rightarrow>
            let (confirmed, s2) = confirmDischarge (in_confirm e) patientToDischarge s1 in
            if \<not> confirmed then say (Printf ''Patient discharge cancelled.\<newline>'') s2
            else
              let dischargedPatient =
                    \<lparr>patient = patientToDischarge, dischargeDate = dis_now e\<rparr>
              in if archive_open_fails e
                 then say (Perror ''Error opening discharged_patients.dat'') s2
                 else if archive_write_fails e
                 then say (Perror ''Error writing to discharged_patients.dat'')
                        (s2\<lparr>files := fopen_a DischargedDat (files s2)\<rparr>)
                 else
                   let s3 = s2\<lparr>files := fappend DischargedDat
                                  (Discharged_bytes L dischargedPatient) (files s2)\<rparr>;
                       s4 = logRoomUsage (log_open_fails e) (log_write_fails e)
                              (roomNumber patientToDischarge) s3;
                       s5 = removePatientFromSystem L (dis_upd e) (Some patientToDischarge) s4
                   in say (Printf ''Patient has been discharged!\<newline>'') s5)"

section \<open>Backup and restore\<close>

definition backupPatientSystem :: "limits \<Rightarrow> upd_env \<Rightarrow> hms \<Rightarrow> hms" where
  "backupPatientSystem L e s = updatePatientsFile L e s"

definition restoreDataFromFile :: "limits \<Rightarrow> init_env \<Rightarrow> hms \<Rightarrow> hms" where
  "restoreDataFromFile L e s = initializePatientSystem L e s"

declare initializePatientSystemDefault_def [hms_unfold] clearMemory_def [hms_unfold]
  insert_node_def [hms_unfold] initializePatientSystem_def [hms_unfold]
  addPatientRecord_def [hms_unfold] viewPatientRecords_def [hms_unfold]
  searchPatientById_def [hms_unfold] removePatientFromSystem_def [hms_unfold]
  confirmDischarge_def [hms_unfold] dischargePatient_def [hms_unfold]
  backupPatientSystem_def [hms_unfold] restoreDataFromFile_def [hms_unfold]

end
