(* ===== verification/Store_Invariants.thy ===== *)
theory Store_Invariants
  imports Patient_Management
begin

text \<open>
  The invariants of the record store and what each handler does to the list, the
  counters and the files.

  \<^item> \<open>ids_ok\<close>: the counter is positive and the identifiers of the active patients are
    distinct, positive and below it;  \<open>rooms_ok\<close>: no two active patients hold the same room;
    \<open>count_ok\<close>: \<^verbatim>\<open>totalPatients\<close> is the length of the list;  \<open>synced\<close>: every active
    patient is storable and \<^verbatim>\<open>patients.dat\<close> holds exactly the image of the list (or is
    missing while the list is empty).
  \<^item> \<open>add_admissible\<close> is what the input loops of \<^verbatim>\<open>addPatientRecord\<close> guarantee about the
    values they return: each passes its validator and the room is reported free.
  \<^item> for each handler: the list and counters after the call on every branch, then the
    invariants it keeps and the hypotheses on the environment under which it keeps them.
\<close>

section \<open>Invariants\<close>

definition ids_ok :: "hms \<Rightarrow> bool" where
  "ids_ok s \<longleftrightarrow>
     0 < sint (patientIDCounter s) \<and>
     distinct (map patientId (patientHead s)) \<and>
     list_all (\<lambda>p. 0 < sint (patientId p) \<and> sint (patientId p) < sint (patientIDCounter s))
       (patientHead s)"

definition rooms_ok :: "hms \<Rightarrow> bool" where
  "rooms_ok s \<longleftrightarrow> distinct (map roomNumber (patientHead s))"

definition count_ok :: "hms \<Rightarrow> bool" where
  "count_ok s \<longleftrightarrow> sint (totalPatients s) = int (length (patientHead s))"

definition synced :: "limits \<Rightarrow> hms \<Rightarrow> bool" where
  "synced L s \<longleftrightarrow>
     list_all (storable L) (patientHead s) \<and>
     (case files s PatientsDat of
        None \<Rightarrow> patientHead s = []
      | Some bytes \<Rightarrow> bytes = image_of L (patientHead s))"

definition add_admissible :: "limits \<Rightarrow> add_env \<Rightarrow> hms \<Rightarrow> bool" where
  "add_admissible L e s \<longleftrightarrow>
     validatePatientName L (in_name e) = IS_VALID \<and>
     validatePatientAge L (in_age e) = IS_VALID \<and>
     validatePatientDiagnosis L (in_diagnosis e) = IS_VALID \<and>
     validateRoomNumber L (in_room e) = IS_VALID \<and>
     isRoomOccupiedInList (in_room e) (patientHead s) = ROOM_UNOCCUPIED"

lemmas inv_defs = ids_ok_def rooms_ok_def count_ok_def synced_def

text \<open>Distinct identifiers between 1 and the counter: there are fewer than the counter.\<close>

lemma distinct_bounded_length:
  fixes f :: "'a \<Rightarrow> int"
  assumes "distinct (map f xs)" and "\<forall>x \<in> set xs. 0 < f x \<and> f x < c" and "xs \<noteq> []"
  shows "int (length xs) < c"
proof -
  from assms(2,3) have c: "1 < c" by (cases xs) auto
  from assms(1) have "length xs = card (f ` set xs)"
    by (metis distinct_card length_map set_map)
  also from assms(2) have "f ` set xs \<subseteq> {1..<c}" by auto
  then have "card (f ` set xs) \<le> card {1..<c}" by (intro card_mono) simp_all
  finally have "length xs \<le> card {1..<c}" .
  then have "length xs \<le> nat (c - 1)" by simp
  with c show ?thesis by linarith
qed

lemma inj_sint: "inj (sint :: cint \<Rightarrow> int)"
  by (rule injI) (rule signed_word_eqI)

lemma ids_ok_length:
  assumes "ids_ok s" and "patientHead s \<noteq> []"
  shows "int (length (patientHead s)) < sint (patientIDCounter s)"
proof -
  from assms(1) have "distinct (map patientId (patientHead s))"
    by (simp add: ids_ok_def)
  then have "distinct (map (\<lambda>p. sint (patientId p)) (patientHead s))"
    by (auto simp: distinct_map inj_on_def dest: injD [OF inj_sint])
  moreover from assms(1)
  have "\<forall>p \<in> set (patientHead s). 0 < sint (patientId p) \<and> sint (patientId p) < sint (patientIDCounter s)"
    by (simp add: ids_ok_def list_all_iff)
  ultimately show ?thesis using assms(2) by (rule distinct_bounded_length)
qed

section \<open>Start-up\<close>

lemma clearMemory_fields [simp]:
  "patientHead (clearMemory s) = []"
  "totalPatients (clearMemory s) = IS_EMPTY"
  "patientIDCounter (clearMemory s) = DEFAULT_ID"
  "files (clearMemory s) = files s"
  "console (clearMemory s) = console s"
  by (simp_all add: clearMemory_def)

lemma initializePatientSystemDefault_fields [simp]:
  "patientHead (initializePatientSystemDefault s) = []"
  "totalPatients (initializePatientSystemDefault s) = IS_EMPTY"
  "patientIDCounter (initializePatientSystemDefault s) = DEFAULT_ID"
  "files (initializePatientSystemDefault s) = files s"
  by (simp_all add: initializePatientSystemDefault_def)

lemma empty_store_invariants:
  assumes "patientHead s = []" and "totalPatients s = IS_EMPTY"
    and "patientIDCounter s = DEFAULT_ID"
  shows "ids_ok s" and "rooms_ok s" and "count_ok s"
  using assms by (simp_all add: inv_defs c_constants)

lemma insert_node_fields [simp]:
  "patientHead (insert_node ok d s) = insertPatientAtEndOfList ok (patientHead s) d"
  "totalPatients (insert_node ok d s) = totalPatients s"
  "patientIDCounter (insert_node ok d s) = patientIDCounter s"
  "files (insert_node ok d s) = files s"
  by (simp_all add: insert_node_def Let_def)

text \<open>
  The loading loop: with every allocation successful it appends the records in file
  order and counts them; the first failed allocation leaves it through \<open>Inl\<close>.
\<close>

lemma load_loop_ok:
  "\<exists>s'. load_loop None xs s = Inr s' \<and> patientHead s' = patientHead s @ xs \<and>
        totalPatients s' = totalPatients s + of_nat (length xs) \<and>
        patientIDCounter s' = patientIDCounter s \<and> files s' = files s"
proof (induction xs arbitrary: s)
  case Nil
  then show ?case by simp
next
  case (Cons x xs)
  let ?s1 = "(insert_node True x s)\<lparr>totalPatients := totalPatients s + 1\<rparr>"
  from Cons.IH [of ?s1] obtain s' where
    "load_loop None xs ?s1 = Inr s'" "patientHead s' = patientHead ?s1 @ xs"
    "totalPatients s' = totalPatients ?s1 + of_nat (length xs)"
    "patientIDCounter s' = patientIDCounter ?s1" "files s' = files ?s1"
    by blast
  then show ?case by (simp add: Let_def)
qed

lemma load_loop_fail:
  "n < length xs \<Longrightarrow> \<exists>s'. load_loop (Some n) xs s = Inl s' \<and> files s' = files s"
proof (induction xs arbitrary: s n)
  case Nil
  then show ?case by simp
next
  case (Cons x xs)
  show ?case
  proof (cases n)
    case 0
    then show ?thesis by (simp add: Let_def)
  next
    case (Suc m)
    let ?s1 = "(insert_node True x s)\<lparr>totalPatients := totalPatients s + 1\<rparr>"
    from Suc Cons.prems have "m < length xs" by simp
    from Cons.IH [OF this, of ?s1] Suc show ?thesis by (simp add: Let_def)
  qed
qed

lemma load_loop_late_failure:
  "length xs \<le> n \<Longrightarrow> load_loop (Some n) xs s = load_loop None xs s"
proof (induction xs arbitrary: s n)
  case Nil
  then show ?case by simp
next
  case (Cons x xs)
  then obtain m where "n = Suc m" "length xs \<le> m" by (cases n) auto
  with Cons.IH show ?case by (simp add: Let_def)
qed

section \<open>Admission\<close>

lemma new_patient_fields [simp]:
  "patientId (new_patient e s) = patientIDCounter s"
  "name (new_patient e s) = in_name e"
  "ageInYears (new_patient e s) = in_age e"
  "diagnosis (new_patient e s) = in_diagnosis e"
  "roomNumber (new_patient e s) = in_room e"
  "admissionDate (new_patient e s) = add_now e"
  by (simp_all add: new_patient_def)

lemma addPatientRecord_store:
  "patientHead (addPatientRecord L e s) =
     insertPatientAtEndOfList (add_malloc_ok e) (patientHead s) (new_patient e s)"
  "totalPatients (addPatientRecord L e s) = totalPatients s + 1"
  "patientIDCounter (addPatientRecord L e s) = patientIDCounter s + 1"
  by (simp_all add: addPatientRecord_def Let_def)

lemma addPatientRecord_files:
  "files (addPatientRecord L e s) =
     (if add_open_fails e then files s
      else if add_write_fails e then fopen_a PatientsDat (files s)
      else fappend PatientsDat (Patient_bytes L (new_patient e s)) (files s))"
  by (simp add: addPatientRecord_def writePatientToFile_def Let_def)

lemma addPatientRecord_ids_ok:
  assumes "ids_ok s" and "add_malloc_ok e" and "sint (patientIDCounter s) < INT_MAX"
  shows "ids_ok (addPatientRecord L e s)"
proof -
  let ?c = "patientIDCounter s"
  from assms(3) have c: "sint (?c + 1) = sint ?c + 1" by (rule sint_succ32)
  from assms(1) have below: "\<forall>p \<in> set (patientHead s). sint (patientId p) < sint ?c"
    by (simp add: ids_ok_def list_all_iff)
  then have "?c \<notin> patientId ` set (patientHead s)" by auto
  with assms(1,2) below c show ?thesis
    by (auto simp: ids_ok_def addPatientRecord_store list_all_iff)
qed

lemma addPatientRecord_rooms_ok:
  assumes "rooms_ok s" and "add_malloc_ok e"
    and "isRoomOccupiedInList (in_room e) (patientHead s) = ROOM_UNOCCUPIED"
  shows "rooms_ok (addPatientRecord L e s)"
  using assms by (simp add: rooms_ok_def addPatientRecord_store isRoomOccupiedInList_iff)

lemma addPatientRecord_count_ok:
  assumes "count_ok s" and "ids_ok s" and "add_malloc_ok e"
    and "sint (patientIDCounter s) < INT_MAX"
  shows "count_ok (addPatientRecord L e s)"
proof -
  have "sint (totalPatients s) < INT_MAX"
  proof (cases "patientHead s = []")
    case True
    with assms(1) show ?thesis by (simp add: count_ok_def INT_MAX_def)
  next
    case False
    with assms(1,2,4) ids_ok_length [of s] show ?thesis by (simp add: count_ok_def)
  qed
  then have "sint (totalPatients s + 1) = sint (totalPatients s) + 1" by (rule sint_succ32)
  with assms(1,3) show ?thesis by (simp add: count_ok_def addPatientRecord_store)
qed

lemma addPatientRecord_synced:
  assumes "synced L s" and "add_malloc_ok e" and "\<not> add_open_fails e"
    and "\<not> add_write_fails e" and "storable L (new_patient e s)"
  shows "synced L (addPatientRecord L e s)"
  using assms
  by (auto simp: synced_def addPatientRecord_store addPatientRecord_files split: option.splits)

text \<open>
  When \<^verbatim>\<open>malloc\<close> fails, \<^verbatim>\<open>insertPatientAtEndOfList\<close> returns \<^verbatim>\<open>NULL\<close> and the handler
  stores it in \<^verbatim>\<open>patientHead\<close>: every active patient is dropped from the list while the
  counters go up and the new record is still appended to the file.
\<close>

lemma addPatientRecord_malloc_failure:
  assumes "\<not> add_malloc_ok e"
  shows "patientHead (addPatientRecord L e s) = []"
    and "totalPatients (addPatientRecord L e s) = totalPatients s + 1"
  using assms by (simp_all add: addPatientRecord_store)

section \<open>Discharge\<close>

lemma removePatientFromSystem_store:
  "patientHead (removePatientFromSystem L e (Some p) s) =
     (case unlink_node (patientId p) (patientHead s) of None \<Rightarrow> patientHead s | Some r \<Rightarrow> r)"
  "totalPatients (removePatientFromSystem L e (Some p) s) =
     (case unlink_node (patientId p) (patientHead s) of
        None \<Rightarrow> totalPatients s | Some r \<Rightarrow> totalPatients s - 1)"
  "patientIDCounter (removePatientFromSystem L e (Some p) s) = patientIDCounter s"
  by (simp_all add: removePatientFromSystem_def split: option.splits)

lemma removePatientFromSystem_other_files [simp]:
  "f \<noteq> PatientsDat \<Longrightarrow> f \<noteq> PatientsTmp \<Longrightarrow>
     files (removePatientFromSystem L e t s) f = files s f"
  by (simp add: removePatientFromSystem_def split: option.splits)

lemma confirmDischarge_fields [simp]:
  "fst (confirmDischarge a p s) = (a = CHR ''y'')"
  "patientHead (snd (confirmDischarge a p s)) = patientHead s"
  "totalPatients (snd (confirmDischarge a p s)) = totalPatients s"
  "patientIDCounter (snd (confirmDischarge a p s)) = patientIDCounter s"
  "files (snd (confirmDischarge a p s)) = files s"
  by (simp_all add: confirmDischarge_def)

text \<open>The branches of the handler that leave the store and the files as they were.\<close>

definition discharge_refused :: "discharge_env \<Rightarrow> hms \<Rightarrow> bool" where
  "discharge_refused e s \<longleftrightarrow>
     getPatientFromList (in_id e) (patientHead s) = None \<or> in_confirm e \<noteq> CHR ''y'' \<or>
     archive_open_fails e"

lemma dischargePatient_refused:
  assumes "discharge_refused e s"
  shows "patientHead (dischargePatient L e s) = patientHead s"
    and "totalPatients (dischargePatient L e s) = totalPatients s"
    and "patientIDCounter (dischargePatient L e s) = patientIDCounter s"
    and "files (dischargePatient L e s) = files s"
  using assms
  by (auto simp: discharge_refused_def dischargePatient_def Let_def split_beta
           split: option.splits)

lemma dischargePatient_archive_write_error:
  assumes "getPatientFromList (in_id e) (patientHead s) = Some p" and "in_confirm e = CHR ''y''"
    and "\<not> archive_open_fails e" and "archive_write_fails e"
  shows "patientHead (dischargePatient L e s) = patientHead s"
    and "totalPatients (dischargePatient L e s) = totalPatients s"
    and "files (dischargePatient L e s) = fopen_a DischargedDat (files s)"
  using assms
  by (auto simp: dischargePatient_def Let_def split_beta split: option.splits)

definition discharge_goes :: "discharge_env \<Rightarrow> hms \<Rightarrow> Patient \<Rightarrow> bool" where
  "discharge_goes e s p \<longleftrightarrow>
     getPatientFromList (in_id e) (patientHead s) = Some p \<and> in_confirm e = CHR ''y'' \<and>
     \<not> archive_open_fails e \<and> \<not> archive_write_fails e"

lemma dischargePatient_store:
  assumes "discharge_goes e s p"
  shows "unlink_node (in_id e) (patientHead s) = Some (patientHead (dischargePatient L e s))"
    and "totalPatients (dischargePatient L e s) = totalPatients s - 1"
    and "patientIDCounter (dischargePatient L e s) = patientIDCounter s"
proof -
  from assms have g: "getPatientFromList (in_id e) (patientHead s) = Some p"
    by (simp add: discharge_goes_def)
  then obtain rest where r: "unlink_node (in_id e) (patientHead s) = Some rest"
    using unlink_node_found by blast
  from g have i: "patientId p = in_id e" by (simp add: getPatientFromList_SomeD)
  from g have ne: "patientHead s \<noteq> []" by auto
  from assms r i ne
  show "unlink_node (in_id e) (patientHead s) = Some (patientHead (dischargePatient L e s))"
    and "totalPatients (dischargePatient L e s) = totalPatients s - 1"
    and "patientIDCounter (dischargePatient L e s) = patientIDCounter s"
    by (simp_all add: discharge_goes_def dischargePatient_def Let_def split_beta
          removePatientFromSystem_store)
qed

lemma dischargePatient_archive:
  assumes "discharge_goes e s p"
  shows "files (dischargePatient L e s) DischargedDat =
           Some ((case files s DischargedDat of None \<Rightarrow> [] | Some old \<Rightarrow> old) @
                 Discharged_bytes L \<lparr>patient = p, dischargeDate = dis_now e\<rparr>)"
proof -
  from assms have "patientHead s \<noteq> []" by (auto simp: discharge_goes_def)
  with assms show ?thesis
    by (auto simp: discharge_goes_def dischargePatient_def Let_def split_beta
             split: option.splits)
qed

lemma dischargePatient_room_log:
  assumes "discharge_goes e s p" and "\<not> log_open_fails e" and "\<not> log_write_fails e"
  shows "files (dischargePatient L e s) RoomUsageTxt =
           Some ((case files s RoomUsageTxt of None \<Rightarrow> [] | Some old \<Rightarrow> old) @
                 show_cint (roomNumber p) @ ''\<newline>'')"
proof -
  from assms have "patientHead s \<noteq> []" by (auto simp: discharge_goes_def)
  with assms show ?thesis
    by (auto simp: discharge_goes_def dischargePatient_def Let_def split_beta logRoomUsage_def
             split: option.splits)
qed

lemma dischargePatient_active_file:
  assumes "discharge_goes e s p" and "upd_ok (dis_upd e)"
  shows "files (dischargePatient L e s) PatientsDat =
           Some (image_of L (patientHead (dischargePatient L e s)))"
proof -
  from assms(1) have g: "getPatientFromList (in_id e) (patientHead s) = Some p"
    by (simp add: discharge_goes_def)
  then obtain rest where r: "unlink_node (in_id e) (patientHead s) = Some rest"
    using unlink_node_found by blast
  from g have i: "patientId p = in_id e" by (simp add: getPatientFromList_SomeD)
  from g have ne: "patientHead s \<noteq> []" by auto
  from assms r i ne show ?thesis
    by (simp add: discharge_goes_def dischargePatient_def Let_def split_beta
          removePatientFromSystem_def)
qed

lemma dischargePatient_store_unchanged:
  assumes "\<not> (\<exists>p. discharge_goes e s p)"
  shows "patientHead (dischargePatient L e s) = patientHead s \<and>
         totalPatients (dischargePatient L e s) = totalPatients s \<and>
         patientIDCounter (dischargePatient L e s) = patientIDCounter s \<and>
         files (dischargePatient L e s) PatientsDat = files s PatientsDat"
proof -
  consider (refused) "discharge_refused e s"
    | (write_error) p where "getPatientFromList (in_id e) (patientHead s) = Some p"
        "in_confirm e = CHR ''y''" "\<not> archive_open_fails e" "archive_write_fails e"
    using assms
    by (cases "getPatientFromList (in_id e) (patientHead s)")
      (auto simp: discharge_goes_def discharge_refused_def)
  then show ?thesis
  proof cases
    case refused
    then show ?thesis by (simp add: dischargePatient_refused)
  next
    case (write_error p)
    then have "patientHead s \<noteq> []" by auto
    with write_error show ?thesis
      by (simp add: dischargePatient_def Let_def split_beta)
  qed
qed

lemma ids_ok_sublist:
  assumes "ids_ok s" and "unlink_node i (patientHead s) = Some (patientHead s')"
    and "patientIDCounter s' = patientIDCounter s"
  shows "ids_ok s'"
  using assms unlink_node_subset [OF assms(2)] unlink_node_distinct [OF assms(2), of patientId]
  by (auto simp: ids_ok_def list_all_iff)

lemma dischargePatient_ids_ok:
  assumes "ids_ok s"
  shows "ids_ok (dischargePatient L e s)"
proof (cases "\<exists>p. discharge_goes e s p")
  case True
  then obtain p where "discharge_goes e s p" ..
  from assms dischargePatient_store(1,3) [OF this, of L] show ?thesis
    by (rule ids_ok_sublist)
next
  case False
  from dischargePatient_store_unchanged [OF this, of L] assms show ?thesis
    by (simp add: ids_ok_def)
qed

lemma dischargePatient_rooms_ok:
  assumes "rooms_ok s"
  shows "rooms_ok (dischargePatient L e s)"
proof (cases "\<exists>p. discharge_goes e s p")
  case True
  then obtain p where "discharge_goes e s p" ..
  from dischargePatient_store(1) [OF this, of L] assms show ?thesis
    by (auto simp: rooms_ok_def dest: unlink_node_distinct)
next
  case False
  from dischargePatient_store_unchanged [OF this, of L] assms show ?thesis
    by (simp add: rooms_ok_def)
qed

lemma dischargePatient_count_ok:
  assumes "count_ok s"
  shows "count_ok (dischargePatient L e s)"
proof (cases "\<exists>p. discharge_goes e s p")
  case True
  then obtain p where g: "discharge_goes e s p" ..
  let ?s' = "dischargePatient L e s"
  from dischargePatient_store(1) [OF g, of L]
  have l: "length (patientHead s) = Suc (length (patientHead ?s'))"
    by (rule unlink_node_length)
  with assms have "INT_MIN < sint (totalPatients s)"
    by (simp add: count_ok_def INT_MIN_def)
  then have "sint (totalPatients s - 1) = sint (totalPatients s) - 1" by (rule sint_pred32)
  with assms l dischargePatient_store(2) [OF g, of L] show ?thesis
    by (simp add: count_ok_def)
next
  case False
  from dischargePatient_store_unchanged [OF this, of L] assms show ?thesis
    by (simp add: count_ok_def)
qed

lemma dischargePatient_synced:
  assumes "synced L s" and "upd_ok (dis_upd e)"
  shows "synced L (dischargePatient L e s)"
proof (cases "\<exists>p. discharge_goes e s p")
  case True
  then obtain p where g: "discharge_goes e s p" ..
  from dischargePatient_store(1) [OF g, of L] assms(1)
  have "list_all (storable L) (patientHead (dischargePatient L e s))"
    by (auto simp: synced_def list_all_iff dest: unlink_node_subset)
  with dischargePatient_active_file [OF g assms(2), of L] show ?thesis
    by (simp add: synced_def)
next
  case False
  from dischargePatient_store_unchanged [OF this, of L] assms(1) show ?thesis
    by (simp add: synced_def split: option.splits)
qed

text \<open>Discharge is terminal: the identifier is no longer found, and the room is free.\<close>

lemma dischargePatient_not_found_after:
  assumes "discharge_goes e s p" and "ids_ok s"
  shows "getPatientFromList (in_id e) (patientHead (dischargePatient L e s)) = None"
proof -
  from assms(2) have "distinct (map patientId (patientHead s))" by (simp add: ids_ok_def)
  with dischargePatient_store(1) [OF assms(1), of L]
  have "in_id e \<notin> patientId ` set (patientHead (dischargePatient L e s))"
    by (rule unlink_node_gone)
  then show ?thesis by (simp add: getPatientFromList_None_iff)
qed

lemma dischargePatient_room_free:
  assumes "discharge_goes e s p" and "ids_ok s" and "rooms_ok s"
  shows "isRoomOccupiedInList (roomNumber p) (patientHead (dischargePatient L e s))
           = ROOM_UNOCCUPIED"
proof -
  let ?xs = "patientHead s" and ?ys = "patientHead (dischargePatient L e s)"
  from assms(1) have p: "p \<in> set ?xs" "patientId p = in_id e"
    by (auto simp: discharge_goes_def dest: getPatientFromList_SomeD)
  from assms(2) have d: "distinct (map patientId ?xs)" by (simp add: ids_ok_def)
  have u: "unlink_node (in_id e) ?xs = Some ?ys" using assms(1) by (rule dischargePatient_store)
  have "roomNumber p \<notin> roomNumber ` set ?ys"
  proof
    assume "roomNumber p \<in> roomNumber ` set ?ys"
    then obtain q where q: "q \<in> set ?ys" "roomNumber q = roomNumber p" by auto
    with unlink_node_subset [OF u] have "q \<in> set ?xs" by auto
    from assms(3) have "inj_on roomNumber (set ?xs)"
      by (simp add: rooms_ok_def distinct_map)
    from inj_onD [OF this q(2) \<open>q \<in> set ?xs\<close> p(1)] have "q = p" .
    with q(1) p(2) unlink_node_gone [OF u d] show False by (auto simp: image_iff)
  qed
  then show ?thesis by (simp add: isRoomOccupiedInList_iff)
qed

section \<open>Start-up from a file\<close>

definition init_ok :: "init_env \<Rightarrow> bool" where
  "init_ok e \<longleftrightarrow> \<not> ie_open_fails e \<and> ie_malloc_fails_at e = None"

text \<open>The records that a start-up reads from the file system.\<close>

definition stored_patients :: "limits \<Rightarrow> fs \<Rightarrow> Patient list" where
  "stored_patients L d =
     (case d PatientsDat of None \<Rightarrow> [] | Some bytes \<Rightarrow> fread_all (patient_codec L) bytes)"

lemma initializePatientSystem_no_file:
  assumes "ie_open_fails e \<or> files s PatientsDat = None"
  shows "patientHead (initializePatientSystem L e s) = [] \<and>
         totalPatients (initializePatientSystem L e s) = IS_EMPTY \<and>
         patientIDCounter (initializePatientSystem L e s) = DEFAULT_ID \<and>
         files (initializePatientSystem L e s) = files s"
  using assms by (auto simp: initializePatientSystem_def Let_def)

lemma initializePatientSystem_nothing_read:
  assumes "\<not> ie_open_fails e" and "files s PatientsDat = Some bytes"
    and "fread_all (patient_codec L) bytes = []"
  shows "patientHead (initializePatientSystem L e s) = [] \<and>
         totalPatients (initializePatientSystem L e s) = IS_EMPTY \<and>
         patientIDCounter (initializePatientSystem L e s) = DEFAULT_ID \<and>
         files (initializePatientSystem L e s) =
           (if bytes = [] \<or> ie_clear_open_fails e then files s
            else fopen_w PatientsDat (files s))"
  using assms by (simp add: initializePatientSystem_def Let_def clearBinaryFile_def)

lemma initializePatientSystem_loaded:
  assumes "init_ok e" and "files s PatientsDat = Some bytes"
    and "fread_all (patient_codec L) bytes \<noteq> []"
  shows "patientHead (initializePatientSystem L e s) = fread_all (patient_codec L) bytes \<and>
         totalPatients (initializePatientSystem L e s) =
           of_nat (length (fread_all (patient_codec L) bytes)) \<and>
         patientIDCounter (initializePatientSystem L e s) =
           computeNextPatientId (fread_all (patient_codec L) bytes) \<and>
         files (initializePatientSystem L e s) = files s"
proof -
  let ?xs = "fread_all (patient_codec L) bytes"
  from load_loop_ok [of ?xs "clearMemory s"] obtain s' where
    "load_loop None ?xs (clearMemory s) = Inr s'" "patientHead s' = ?xs"
    "totalPatients s' = of_nat (length ?xs)" "files s' = files s"
    by (auto simp: IS_EMPTY_def)
  moreover from assms(3) have "bytes \<noteq> []" by auto
  ultimately show ?thesis
    using assms by (simp add: initializePatientSystem_def Let_def init_ok_def)
qed

lemma initializePatientSystem_malloc_failure:
  assumes "\<not> ie_open_fails e" and "files s PatientsDat = Some bytes"
    and "ie_malloc_fails_at e = Some n" and "n < length (fread_all (patient_codec L) bytes)"
  shows "patientHead (initializePatientSystem L e s) = [] \<and>
         totalPatients (initializePatientSystem L e s) = IS_EMPTY \<and>
         patientIDCounter (initializePatientSystem L e s) = DEFAULT_ID \<and>
         files (initializePatientSystem L e s) = files s"
proof -
  let ?xs = "fread_all (patient_codec L) bytes"
  from load_loop_fail [OF assms(4), of "clearMemory s"] obtain s' where
    "load_loop (Some n) ?xs (clearMemory s) = Inl s'" "files s' = files s"
    by auto
  moreover from assms(4) have "bytes \<noteq> []" by auto
  ultimately show ?thesis
    using assms by (simp add: initializePatientSystem_def Let_def)
qed

text \<open>
  Start-up from the image of a sequence of records, possibly followed by the beginning
  of a record that was cut off: the list is the sequence, in file order.
\<close>

lemma fread_all_image:
  assumes "list_all (storable L) xs" and "length junk < sizeof_Patient L"
  shows "fread_all (patient_codec L) (image_of L xs @ junk) = xs"
  using fread_all_fwrite_all_append [OF patient_codec_ok assms(1), of junk] assms(2)
  by (simp add: image_of_def fread_all_short)

lemma initializePatientSystem_image:
  assumes "init_ok e" and "files s PatientsDat = Some (image_of L xs @ junk)"
    and "list_all (storable L) xs" and "length junk < sizeof_Patient L"
  shows "patientHead (initializePatientSystem L e s) = xs \<and>
         totalPatients (initializePatientSystem L e s) = of_nat (length xs) \<and>
         patientIDCounter (initializePatientSystem L e s) = computeNextPatientId xs"
proof (cases "xs = []")
  case True
  with assms(4) have "fread_all (patient_codec L) (image_of L xs @ junk) = []"
    by (simp add: fread_all_short)
  from initializePatientSystem_nothing_read [OF _ assms(2) this, of e] assms(1) True
  show ?thesis by (simp add: init_ok_def IS_EMPTY_def)
next
  case False
  with fread_all_image [OF assms(3,4)]
  have "fread_all (patient_codec L) (image_of L xs @ junk) \<noteq> []" by simp
  from initializePatientSystem_loaded [OF assms(1,2) this] fread_all_image [OF assms(3,4)]
  show ?thesis by simp
qed

text \<open>The invariants after a start-up from the image of a well-formed sequence.\<close>

definition wf_records :: "Patient list \<Rightarrow> bool" where
  "wf_records xs \<longleftrightarrow>
     distinct (map patientId xs) \<and> distinct (map roomNumber xs) \<and>
     list_all (\<lambda>p. 0 < sint (patientId p) \<and> sint (patientId p) < INT_MAX) xs"

lemma wf_records_length:
  assumes "wf_records xs"
  shows "int (length xs) < INT_MAX"
proof (cases "xs = []")
  case True
  then show ?thesis by (simp add: INT_MAX_def)
next
  case False
  from assms have "distinct (map (\<lambda>p. sint (patientId p)) xs)"
    by (auto simp: wf_records_def distinct_map inj_on_def dest: injD [OF inj_sint])
  moreover from assms have "\<forall>p \<in> set xs. 0 < sint (patientId p) \<and> sint (patientId p) < INT_MAX"
    by (simp add: wf_records_def list_all_iff)
  ultimately show ?thesis using False by (rule distinct_bounded_length)
qed

lemma initializePatientSystem_invariants:
  assumes "init_ok e" and "files s PatientsDat = Some (image_of L xs @ junk)"
    and "list_all (storable L) xs" and "length junk < sizeof_Patient L" and "wf_records xs"
  shows "ids_ok (initializePatientSystem L e s) \<and> rooms_ok (initializePatientSystem L e s) \<and>
         count_ok (initializePatientSystem L e s)"
proof -
  let ?s' = "initializePatientSystem L e s"
  from initializePatientSystem_image [OF assms(1-4)]
  have h: "patientHead ?s' = xs" and t: "totalPatients ?s' = of_nat (length xs)"
    and c: "patientIDCounter ?s' = computeNextPatientId xs"
    by simp_all
  from assms(5) have b: "\<forall>p \<in> set xs. sint (patientId p) < INT_MAX"
    by (simp add: wf_records_def list_all_iff)
  have "ids_ok ?s'"
    using assms(5) computeNextPatientId_above [OF b] computeNextPatientId_positive [OF b]
    by (simp add: ids_ok_def h c wf_records_def list_all_iff)
  moreover have "rooms_ok ?s'" using assms(5) by (simp add: rooms_ok_def h wf_records_def)
  moreover have "count_ok ?s'"
    using wf_records_length [OF assms(5)] by (simp add: count_ok_def h t sint_of_nat32 INT_MAX_def)
  ultimately show ?thesis by simp
qed

lemma initializePatientSystem_synced:
  assumes "init_ok e" and "files s PatientsDat = Some (image_of L xs)"
    and "list_all (storable L) xs"
  shows "synced L (initializePatientSystem L e s)"
proof (cases "xs = []")
  case True
  with initializePatientSystem_nothing_read [of e s "[]" L] assms(1,2) show ?thesis
    by (simp add: synced_def init_ok_def)
next
  case False
  from fread_all_image [OF assms(3), of "[]"] have r: "fread_all (patient_codec L) (image_of L xs) = xs"
    by simp
  with False initializePatientSystem_loaded [OF assms(1,2)] assms(2,3) show ?thesis
    by (simp add: synced_def)
qed

lemma initializePatientSystem_no_file_synced:
  assumes "files s PatientsDat = None"
  shows "synced L (initializePatientSystem L e s)"
  using initializePatientSystem_no_file [of e s L] assms by (simp add: synced_def)

section \<open>Operations that only print, and the invariant as a whole\<close>

lemma viewPatientRecords_fields [simp]:
  "patientHead (viewPatientRecords s) = patientHead s"
  "totalPatients (viewPatientRecords s) = totalPatients s"
  "patientIDCounter (viewPatientRecords s) = patientIDCounter s"
  "files (viewPatientRecords s) = files s"
  by (simp_all add: viewPatientRecords_def)

lemma searchPatientById_fields [simp]:
  "patientHead (searchPatientById i s) = patientHead s"
  "totalPatients (searchPatientById i s) = totalPatients s"
  "patientIDCounter (searchPatientById i s) = patientIDCounter s"
  "files (searchPatientById i s) = files s"
  by (simp_all add: searchPatientById_def Let_def split: option.splits)

lemma backupPatientSystem_fields [simp]:
  "patientHead (backupPatientSystem L e s) = patientHead s"
  "totalPatients (backupPatientSystem L e s) = totalPatients s"
  "patientIDCounter (backupPatientSystem L e s) = patientIDCounter s"
  by (simp_all add: backupPatientSystem_def)

text \<open>The invariants speak of the list, the counters and the active file only.\<close>

lemma invariants_cong:
  assumes "patientHead s' = patientHead s" and "totalPatients s' = totalPatients s"
    and "patientIDCounter s' = patientIDCounter s"
  shows "ids_ok s' = ids_ok s" and "rooms_ok s' = rooms_ok s" and "count_ok s' = count_ok s"
    and "files s' PatientsDat = files s PatientsDat \<Longrightarrow> synced L s' = synced L s"
  using assms by (simp_all add: inv_defs split: option.splits)

definition store_inv :: "limits \<Rightarrow> hms \<Rightarrow> bool" where
  "store_inv L s \<longleftrightarrow> ids_ok s \<and> rooms_ok s \<and> count_ok s \<and> synced L s"

lemma store_inv_wf_records: 
  assumes "ids_ok s" and "rooms_ok s" shows "wf_records (patientHead s)"
proof -
  have "sint (patientIDCounter s) \<le> INT_MAX" using sint_range32 by simp
  with assms show ?thesis by (fastforce simp: wf_records_def ids_ok_def rooms_ok_def list_all_iff)
qed

lemma initializePatientSystem_store_inv:
  assumes "store_inv L s" and "init_ok e"
  shows "store_inv L (initializePatientSystem L e s)"
proof (cases "files s PatientsDat")
  case None
  from initializePatientSystem_no_file [of e s L] None
    initializePatientSystem_no_file_synced [OF None, of L e]
  show ?thesis by (simp add: store_inv_def empty_store_invariants)
next
  case (Some bytes)
  with assms(1) have f: "files s PatientsDat = Some (image_of L (patientHead s) @ [])"
    and st: "list_all (storable L) (patientHead s)"
    by (simp_all add: store_inv_def synced_def)
  from assms(1) have "wf_records (patientHead s)"
    by (simp add: store_inv_def store_inv_wf_records)
  from initializePatientSystem_invariants [OF assms(2) f st _ this]
    initializePatientSystem_synced [OF assms(2) _ st, of s] f
  show ?thesis by (simp add: store_inv_def)
qed

section \<open>The invariant as a whole, handler by handler\<close>

lemma addPatientRecord_store_inv:
  assumes "store_inv L s" and "add_admissible L e s" and "storable L (new_patient e s)"
    and "add_malloc_ok e" and "\<not> add_open_fails e" and "\<not> add_write_fails e"
    and "sint (patientIDCounter s) < INT_MAX"
  shows "store_inv L (addPatientRecord L e s)"
  using assms
  by (simp add: store_inv_def add_admissible_def addPatientRecord_ids_ok
      addPatientRecord_rooms_ok addPatientRecord_count_ok addPatientRecord_synced)

lemma dischargePatient_store_inv:
  assumes "store_inv L s" and "upd_ok (dis_upd e)"
  shows "store_inv L (dischargePatient L e s)"
  using assms
  by (simp add: store_inv_def dischargePatient_ids_ok dischargePatient_rooms_ok
      dischargePatient_count_ok dischargePatient_synced)

lemma backupPatientSystem_store_inv:
  assumes "store_inv L s" and "upd_ok e"
  shows "store_inv L (backupPatientSystem L e s)"
  using assms by (simp add: store_inv_def inv_defs backupPatientSystem_def)

lemma restoreDataFromFile_store_inv:
  assumes "store_inv L s" and "init_ok e"
  shows "store_inv L (restoreDataFromFile L e s)"
  using assms by (simp add: restoreDataFromFile_def initializePatientSystem_store_inv)

lemma viewPatientRecords_store_inv:
  "store_inv L s \<Longrightarrow> store_inv L (viewPatientRecords s)"
  by (simp add: store_inv_def invariants_cong [of "viewPatientRecords s" s])

lemma searchPatientById_store_inv:
  "store_inv L s \<Longrightarrow> store_inv L (searchPatientById i s)"
  by (simp add: store_inv_def invariants_cong [of "searchPatientById i s" s])

lemmas handler_store_inv =
  initializePatientSystem_store_inv addPatientRecord_store_inv dischargePatient_store_inv
  backupPatientSystem_store_inv restoreDataFromFile_store_inv viewPatientRecords_store_inv
  searchPatientById_store_inv

section \<open>Admission: identifiers, rooms, failures\<close>

text \<open>
  C2.  Admission assigns a fresh identifier: when the identifiers of the store are in
  order, the allocation succeeds and the counter is below \<^verbatim>\<open>INT_MAX\<close>, the new record is
  appended at the end of the list, its identifier is the old counter, no active patient
  had that identifier, the counter grows by one, and the identifiers are in order again.
\<close>

theorem admission_assigns_fresh_id:
  assumes "ids_ok s" and "add_malloc_ok e" and "sint (patientIDCounter s) < INT_MAX"
  shows "patientHead (addPatientRecord L e s) = patientHead s @ [new_patient e s] \<and>
         patientId (new_patient e s) = patientIDCounter s \<and>
         patientIDCounter s \<notin> patientId ` set (patientHead s) \<and>
         sint (patientIDCounter (addPatientRecord L e s)) = sint (patientIDCounter s) + 1 \<and>
         ids_ok (addPatientRecord L e s)"
proof -
  from assms(1) have "\<forall>p \<in> set (patientHead s). sint (patientId p) < sint (patientIDCounter s)"
    by (simp add: ids_ok_def list_all_iff)
  then have "patientIDCounter s \<notin> patientId ` set (patientHead s)" by auto
  moreover from assms(3) have "sint (patientIDCounter s + 1) = sint (patientIDCounter s) + 1"
    by (rule sint_succ32)
  moreover have "patientHead (addPatientRecord L e s) =
      insertPatientAtEndOfList (add_malloc_ok e) (patientHead s) (new_patient e s)"
    and "patientIDCounter (addPatientRecord L e s) = patientIDCounter s + 1"
    by (simp_all add: addPatientRecord_def Let_def)
  ultimately show ?thesis
    using assms by (simp add: addPatientRecord_ids_ok)
qed

text \<open>
  C3.  Room exclusivity across an admission: when no room is held twice and
  \<open>isRoomOccupiedInList\<close> reported the requested room free, no room is held twice after
  the admission, and the requested room is now reported occupied.
\<close>

theorem admission_keeps_rooms_exclusive:
  assumes "rooms_ok s" and "add_malloc_ok e"
    and "isRoomOccupiedInList (in_room e) (patientHead s) = ROOM_UNOCCUPIED"
  shows "rooms_ok (addPatientRecord L e s) \<and>
         isRoomOccupiedInList (in_room e) (patientHead (addPatientRecord L e s)) = 1"
proof -
  from assms(3) have "in_room e \<notin> roomNumber ` set (patientHead s)"
    by (simp add: isRoomOccupiedInList_iff)
  with assms(1,2) show ?thesis
    unfolding rooms_ok_def new_patient_def addPatientRecord_store
    by (simp add: isRoomOccupiedInList_cases)
qed

text \<open>
  C14.  A failed allocation during an admission loses the store: \<^verbatim>\<open>addPatientRecord\<close>
  assigns the \<^verbatim>\<open>NULL\<close> that \<open>insertPatientAtEndOfList\<close> returns to \<^verbatim>\<open>patientHead\<close>, so the list
  is empty afterwards, while both counters are incremented and the record is still
  appended to \<^verbatim>\<open>patients.dat\<close>; \<^verbatim>\<open>totalPatients\<close> no longer is the length of the list.
\<close>

theorem admission_malloc_failure_drops_list:
  assumes "\<not> add_malloc_ok e" and "count_ok s" and "\<not> add_open_fails e"
    and "\<not> add_write_fails e"
  shows "patientHead (addPatientRecord L e s) = [] \<and>
         totalPatients (addPatientRecord L e s) = totalPatients s + 1 \<and>
         patientIDCounter (addPatientRecord L e s) = patientIDCounter s + 1 \<and>
         files (addPatientRecord L e s) =
           fappend PatientsDat (Patient_bytes L (new_patient e s)) (files s) \<and>
         \<not> count_ok (addPatientRecord L e s)"
proof -
  from assms(2) have "totalPatients s \<noteq> - 1"
    by (auto simp: count_ok_def)
  then have "totalPatients s + 1 \<noteq> 0"
    by (simp add: add_eq_0_iff2)
  then have "sint (totalPatients s + 1) \<noteq> 0" by (simp add: signed_eq_0_iff)
  with assms show ?thesis
    by (simp add: addPatientRecord_store addPatientRecord_files count_ok_def)
qed

text \<open>
  C18.  The identifier counter wraps: an admission in a state whose counter is \<^verbatim>\<open>INT_MAX\<close>
  leaves the counter at \<^verbatim>\<open>INT_MIN\<close>, so the identifiers are no longer below a positive
  counter.
\<close>

theorem admission_counter_overflow:
  assumes "sint (patientIDCounter s) = INT_MAX"
  shows "sint (patientIDCounter (addPatientRecord L e s)) = INT_MIN \<and>
         \<not> ids_ok (addPatientRecord L e s)"
  using sint_wrap32 [OF assms]
  by (simp add: addPatientRecord_store ids_ok_def INT_MIN_def)

section \<open>Discharge: what is removed and what is written\<close>

text \<open>
  C4.  Discharge is terminal: after a confirmed discharge whose archive entry was written,
  the list is the old list without the discharged record, a search for the identifier
  finds nothing, the room of the discharged patient is reported free, and
  \<^verbatim>\<open>totalPatients\<close> went down by one.
\<close>

theorem discharge_is_terminal:
  assumes "discharge_goes e s p" and "ids_ok s" and "rooms_ok s"
  shows "patientHead (dischargePatient L e s) = remove1 p (patientHead s) \<and>
         getPatientFromList (in_id e) (patientHead (dischargePatient L e s)) = None \<and>
         isRoomOccupiedInList (roomNumber p) (patientHead (dischargePatient L e s))
           = ROOM_UNOCCUPIED \<and>
         totalPatients (dischargePatient L e s) = totalPatients s - 1"
proof -
  from assms(1) have g: "getPatientFromList (in_id e) (patientHead s) = Some p"
    by (simp add: discharge_goes_def)
  have "unlink_node (in_id e) (patientHead s) = Some (remove1 p (patientHead s))"
    using g
    by (cases "patientHead s")
      (auto simp: unlink_node_def remove_first_remove1 dest: getPatientFromList_SomeD)
  with dischargePatient_store(1) [OF assms(1), of L]
  have "patientHead (dischargePatient L e s) = remove1 p (patientHead s)" by simp
  with dischargePatient_not_found_after [OF assms(1,2), of L]
    dischargePatient_room_free [OF assms, of L] dischargePatient_store(2) [OF assms(1), of L]
  show ?thesis by simp
qed

text \<open>
  C9.  What a discharge writes: the archive \<^verbatim>\<open>discharged_patients.dat\<close> grows by exactly
  the record of the patient with the discharge time, \<^verbatim>\<open>room_usage.txt\<close> grows by the
  decimal room number and a newline, and the two report files are not touched.
\<close>

theorem discharge_appends_archive_and_log:
  assumes "discharge_goes e s p" and "\<not> log_open_fails e" and "\<not> log_write_fails e"
  shows "files (dischargePatient L e s) DischargedDat =
           Some ((case files s DischargedDat of None \<Rightarrow> [] | Some old \<Rightarrow> old) @
                 Discharged_bytes L \<lparr>patient = p, dischargeDate = dis_now e\<rparr>) \<and>
         files (dischargePatient L e s) RoomUsageTxt =
           Some ((case files s RoomUsageTxt of None \<Rightarrow> [] | Some old \<Rightarrow> old) @
                 show_cint (roomNumber p) @ ''\<newline>'') \<and>
         files (dischargePatient L e s) PatientReportsTxt = files s PatientReportsTxt \<and>
         files (dischargePatient L e s) DischargedReportsTxt = files s DischargedReportsTxt"
proof -
  from assms(1) have "patientHead s \<noteq> []" by (auto simp: discharge_goes_def)
  with assms(1) have
    "files (dischargePatient L e s) PatientReportsTxt = files s PatientReportsTxt"
    "files (dischargePatient L e s) DischargedReportsTxt = files s DischargedReportsTxt"
    by (simp_all add: discharge_goes_def dischargePatient_def Let_def split_beta)
  moreover from assms \<open>patientHead s \<noteq> []\<close> have
    "files (dischargePatient L e s) RoomUsageTxt =
       Some ((case files s RoomUsageTxt of None \<Rightarrow> [] | Some old \<Rightarrow> old) @
             show_cint (roomNumber p) @ ''\<newline>'')"
    by (auto simp: discharge_goes_def dischargePatient_def Let_def split_beta logRoomUsage_def
             split: option.splits)
  ultimately show ?thesis using dischargePatient_archive [OF assms(1), of L] by simp
qed

text \<open>
  C15.  When the archive cannot be opened or written, a confirmed discharge removes
  nothing: the patient is still in the list and still found by the identifier,
  \<^verbatim>\<open>patients.dat\<close> and \<^verbatim>\<open>room_usage.txt\<close> are as before.
\<close>

theorem discharge_archive_failure_keeps_patient:
  assumes "getPatientFromList (in_id e) (patientHead s) = Some p"
    and "in_confirm e = CHR ''y''" and "archive_open_fails e \<or> archive_write_fails e"
  shows "patientHead (dischargePatient L e s) = patientHead s \<and>
         getPatientFromList (in_id e) (patientHead (dischargePatient L e s)) = Some p \<and>
         totalPatients (dischargePatient L e s) = totalPatients s \<and>
         files (dischargePatient L e s) PatientsDat = files s PatientsDat \<and>
         files (dischargePatient L e s) RoomUsageTxt = files s RoomUsageTxt"
proof (cases "archive_open_fails e")
  case True
  then have "discharge_refused e s" by (simp add: discharge_refused_def)
  with assms(1) show ?thesis by (simp add: dischargePatient_refused)
next
  case False
  with assms have w: "archive_write_fails e" by simp
  from dischargePatient_archive_write_error [OF assms(1,2) False w, of L] assms(1)
  show ?thesis by simp
qed

section \<open>Start-up: truncated files, round trips, files that were never checked\<close>

text \<open>
  C7.  A start-up from a file that holds the images of the records \<open>xs\<close> followed by the
  beginning of a record that was cut off loads exactly \<open>xs\<close>, in file order, counts
  them, and sets the counter to \<open>computeNextPatientId xs\<close>.  The file is left alone,
  except that a file without a single complete record is emptied.
\<close>

theorem load_stops_at_last_complete_record:
  assumes "init_ok e" and "files s PatientsDat = Some (image_of L xs @ junk)"
    and "list_all (storable L) xs" and "length junk < sizeof_Patient L"
  shows "patientHead (initializePatientSystem L e s) = xs \<and>
         totalPatients (initializePatientSystem L e s) = of_nat (length xs) \<and>
         patientIDCounter (initializePatientSystem L e s) = computeNextPatientId xs \<and>
         files (initializePatientSystem L e s) PatientsDat =
           (if xs = [] \<and> junk \<noteq> [] \<and> \<not> ie_clear_open_fails e then Some []
            else Some (image_of L xs @ junk))"
proof -
  let ?bytes = "image_of L xs @ junk"
  have r: "fread_all (patient_codec L) ?bytes = xs" using assms(3,4) by (rule fread_all_image)
  have "files (initializePatientSystem L e s) PatientsDat =
          (if xs = [] \<and> junk \<noteq> [] \<and> \<not> ie_clear_open_fails e then Some [] else Some ?bytes)"
  proof (cases "xs = []")
    case True
    with r assms(1,2) show ?thesis
      by (simp add: initializePatientSystem_def Let_def clearBinaryFile_def init_ok_def)
  next
    case False
    with r initializePatientSystem_loaded [OF assms(1,2)] assms(2) show ?thesis by simp
  qed
  with initializePatientSystem_image [OF assms] show ?thesis by simp
qed

text \<open>
  C6.  Round trip through the file: after a rewrite that went through, a start-up reads
  back exactly the list that was written, with \<^verbatim>\<open>totalPatients\<close> its length and the
  counter recomputed from its identifiers.
\<close>

theorem load_after_rewrite:
  assumes "upd_ok u" and "init_ok e" and "list_all (storable L) (patientHead s)"
  shows "patientHead (initializePatientSystem L e (updatePatientsFile L u s)) = patientHead s \<and>
         totalPatients (initializePatientSystem L e (updatePatientsFile L u s)) =
           of_nat (length (patientHead s)) \<and>
         patientIDCounter (initializePatientSystem L e (updatePatientsFile L u s)) =
           computeNextPatientId (patientHead s)"
proof -
  let ?s1 = "updatePatientsFile L u s" and ?xs = "patientHead s"
  have f: "files ?s1 PatientsDat = Some (image_of L ?xs)" using assms(1) by simp
  have r: "fread_all (patient_codec L) (image_of L ?xs) = ?xs"
    using fread_all_image [OF assms(3), of "[]"] by simp
  show ?thesis
  proof (cases "?xs = []")
    case True
    with f assms(2) show ?thesis
      by (simp add: initializePatientSystem_def Let_def init_ok_def c_constants)
  next
    case False
    from load_loop_ok [of ?xs "clearMemory ?s1"] obtain s' where
      "load_loop None ?xs (clearMemory ?s1) = Inr s'" "patientHead s' = ?xs"
      "totalPatients s' = of_nat (length ?xs)"
      by (auto simp: IS_EMPTY_def)
    moreover from r False have "image_of L ?xs \<noteq> []" by auto
    ultimately show ?thesis
      using f r assms(2) False by (simp add: initializePatientSystem_def Let_def init_ok_def)
  qed
qed

text \<open>
  C12.  Loading is idempotent: a second start-up directly after a start-up gives the same
  list, the same \<^verbatim>\<open>totalPatients\<close> and the same counter, whatever the file holds.
\<close>

theorem load_idempotent:
  assumes "init_ok e"
  shows "patientHead (initializePatientSystem L e (initializePatientSystem L e s)) =
           patientHead (initializePatientSystem L e s) \<and>
         totalPatients (initializePatientSystem L e (initializePatientSystem L e s)) =
           totalPatients (initializePatientSystem L e s) \<and>
         patientIDCounter (initializePatientSystem L e (initializePatientSystem L e s)) =
           patientIDCounter (initializePatientSystem L e s)"
proof (cases "files s PatientsDat")
  case None
  with initializePatientSystem_no_file [of e s L]
  have "files (initializePatientSystem L e s) PatientsDat = None" by simp
  with initializePatientSystem_no_file [of e "initializePatientSystem L e s" L]
    initializePatientSystem_no_file [of e s L] None
  show ?thesis by simp
next
  case (Some bytes)
  let ?s1 = "initializePatientSystem L e s"
  from assms have o: "\<not> ie_open_fails e" by (simp add: init_ok_def)
  show ?thesis
  proof (cases "fread_all (patient_codec L) bytes = []")
    case True
    note first = initializePatientSystem_nothing_read [OF o Some True]
    then obtain b where b: "files ?s1 PatientsDat = Some b" "fread_all (patient_codec L) b = []"
      using Some True by (cases "bytes = [] \<or> ie_clear_open_fails e") auto
    from initializePatientSystem_nothing_read [OF o b] first show ?thesis by simp
  next
    case False
    note first = initializePatientSystem_loaded [OF assms Some False]
    with Some have "files ?s1 PatientsDat = Some bytes" by simp
    from initializePatientSystem_loaded [OF assms this False] first show ?thesis by simp
  qed
qed

text \<open>
  C13.  Load then persist: a restore followed at once by a backup leaves
  \<^verbatim>\<open>patients.dat\<close> byte for byte as it was, when the file is the image of storable
  records and neither call meets a failure.
\<close>

theorem restore_backup_roundtrip:
  assumes "init_ok e" and "upd_ok u" and "files s PatientsDat = Some (image_of L xs)"
    and "list_all (storable L) xs"
  shows "files (backupPatientSystem L u (restoreDataFromFile L e s)) PatientsDat =
           files s PatientsDat"
proof -
  from assms(3) have "files s PatientsDat = Some (image_of L xs @ [])" by simp
  from initializePatientSystem_image [OF assms(1) this assms(4)]
  have "patientHead (restoreDataFromFile L e s) = xs" by (simp add: restoreDataFromFile_def)
  with assms(2,3) show ?thesis by (simp add: backupPatientSystem_def)
qed

text \<open>
  C24.  The load checks nothing: a file in which two records carry the same identifier
  is loaded as it is, so the store starts with identifiers that are not distinct.
\<close>

theorem load_accepts_duplicate_ids:
  assumes "init_ok e" and "files s PatientsDat = Some (image_of L xs)"
    and "list_all (storable L) xs" and "\<not> distinct (map patientId xs)"
  shows "patientHead (initializePatientSystem L e s) = xs \<and>
         \<not> ids_ok (initializePatientSystem L e s)"
proof -
  from assms(2) have "files s PatientsDat = Some (image_of L xs @ [])" by simp
  from initializePatientSystem_image [OF assms(1) this assms(3)]
  have "patientHead (initializePatientSystem L e s) = xs" by simp
  with assms(4) show ?thesis by (simp add: ids_ok_def)
qed

section \<open>Listing\<close>

text \<open>
  C26.  The listing prints the active patients in list order, which is admission order,
  or the notice that there are none; it changes nothing but the console.
\<close>

theorem view_lists_in_order:
  "console (viewPatientRecords s) =
     console s @ (if patientHead s = [] then [Puts ''No patients admitted!'']
                  else map PrintPatient (patientHead s)) \<and>
   patientHead (viewPatientRecords s) = patientHead s \<and>
   files (viewPatientRecords s) = files s"
proof (cases "patientHead s = []")
  case True
  then show ?thesis by (simp add: viewPatientRecords_def)
next
  case False
  then show ?thesis by (simp add: viewPatientRecords_def)
qed

lemma initializePatientSystem_files_kept:
  assumes "init_ok e" and "files s PatientsDat = Some (image_of L xs)"
    and "list_all (storable L) xs"
  shows "files (initializePatientSystem L e s) = files s"
proof (cases "xs = []")
  case True
  with initializePatientSystem_nothing_read [of e s "[]" L] assms(1,2) show ?thesis
    by (simp add: init_ok_def)
next
  case False
  with fread_all_image [OF assms(3), of "[]"]
  have "fread_all (patient_codec L) (image_of L xs) \<noteq> []" by simp
  from initializePatientSystem_loaded [OF assms(1,2) this] show ?thesis by simp
qed

end
