(* ===== verification/Time_Format.thy ===== *)
theory Time_Format
  imports HMS_Prelude "HOL-Library.Signed_Division"
begin

text \<open>
  The parts of \<^verbatim>\<open><time.h>\<close> and of \<^verbatim>\<open>printf\<close> that the reports use.

  \<^item> \<open>tm\<close> holds the four fields of \<^verbatim>\<open>struct tm\<close> that the program reads.  A \<open>calendar\<close>
    is what \<^verbatim>\<open>localtime\<close> computes from a \<^verbatim>\<open>time_t\<close>: it depends on the time zone of the
    machine, so the report functions take it as an argument.  \<open>gmtime\<close> is the calendar
    of UTC, by the usual era arithmetic of the proleptic Gregorian calendar.
  \<^item> \<^verbatim>\<open>localtime\<close> returns a pointer to one object with static storage duration, which
    every call overwrites: a field read through a pointer that an earlier call returned
    is a field of the time of the latest call.  The functions that use \<^verbatim>\<open>localtime\<close> name
    the content of that object after each call.
  \<^item> \<open>hours_diff\<close> is \<^verbatim>\<open>(int) (difftime(now, t) / 3600)\<close>: the conversion of the quotient
    to \<^verbatim>\<open>int\<close> truncates toward zero (the quotient of the doubles is exact enough for
    this whenever the difference is below \<open>2 ^ 53\<close> seconds).
  \<^item> \<open>strftime_ymd\<close> is \<^verbatim>\<open>strftime(.., "%Y-%m-%d", ..)\<close>; \<open>ljust\<close> is the left-justified
    padding of the conversions \<^verbatim>\<open>%-5d\<close> and \<^verbatim>\<open>%-15s\<close>.
\<close>

section \<open>Broken-down time\<close>

record tm =
  tm_year :: cint
  tm_mon :: cint
  tm_mday :: cint
  tm_yday :: cint

type_synonym calendar = "time_t \<Rightarrow> tm"

definition days_from_civil :: "int \<Rightarrow> int \<Rightarrow> int \<Rightarrow> int" where
  "days_from_civil y m d =
     (let y' = (if m \<le> 2 then y - 1 else y);
          era = y' div 400;
          yoe = y' - era * 400;
          doy = (153 * (if 2 < m then m - 3 else m + 9) + 2) div 5 + d - 1;
          doe = yoe * 365 + yoe div 4 - yoe div 100 + doy
      in era * 146097 + doe - 719468)"

definition civil_from_days :: "int \<Rightarrow> int \<times> int \<times> int" where
  "civil_from_days z0 =
     (let z = z0 + 719468;
          era = z div 146097;
          doe = z - era * 146097;
          yoe = (doe - doe div 1460 + doe div 36524 - doe div 146096) div 365;
          doy = doe - (365 * yoe + yoe div 4 - yoe div 100);
          mp = (5 * doy + 2) div 153;
          d = doy - (153 * mp + 2) div 5 + 1;
          m = (if mp < 10 then mp + 3 else mp - 9);
          y = yoe + era * 400 + (if m \<le> 2 then 1 else 0)
      in (y, m, d))"

definition gmtime :: calendar where
  "gmtime t =
     (let days = sint t div 86400;
          (y, m, d) = civil_from_days days
      in \<lparr>tm_year = word_of_int (y - 1900), tm_mon = word_of_int (m - 1),
          tm_mday = word_of_int d, tm_yday = word_of_int (days - days_from_civil y 1 1)\<rparr>)"

section \<open>Differences of times\<close>

definition hours_diff :: "time_t \<Rightarrow> time_t \<Rightarrow> cint" where
  "hours_diff now t = word_of_int ((sint now - sint t) sdiv 3600)"

lemma sdiv_3600_le_iff: "(k::int) sdiv 3600 \<le> 24 \<longleftrightarrow> k < 90000"
proof (cases "0 \<le> k")
  case True
  then have s: "k sdiv 3600 = k div 3600" by (simp add: signed_divide_int_def sgn_if)
  have "k div 3600 \<le> 24" if "k < 90000"
    using zdiv_mono1 [of k 89999 3600] that by simp
  moreover have "25 \<le> k div 3600" if "90000 \<le> k"
    using zdiv_mono1 [of 90000 k 3600] that by simp
  ultimately show ?thesis unfolding s by (cases "k < 90000") simp_all
next
  case False
  then have "k sdiv 3600 = - (\<bar>k\<bar> div 3600)" by (simp add: signed_divide_int_def sgn_if)
  moreover have "0 \<le> \<bar>k\<bar> div 3600" by (simp add: pos_imp_zdiv_nonneg_iff)
  ultimately show ?thesis using False by simp
qed

section \<open>Formatting\<close>

definition ljust :: "nat \<Rightarrow> string \<Rightarrow> string" where
  "ljust n s = s @ replicate (n - length s) (CHR '' '')"

definition two_digits :: "int \<Rightarrow> string" where
  "two_digits n = (if 0 \<le> n \<and> n < 10 then CHR ''0'' # show_int n else show_int n)"

definition strftime_ymd :: "tm \<Rightarrow> string" where
  "strftime_ymd t =
     show_int (sint (tm_year t) + 1900) @ ''-'' @ two_digits (sint (tm_mon t) + 1) @ ''-'' @
     two_digits (sint (tm_mday t))"

lemma length_ljust: "length (ljust n s) = max n (length s)"
  by (simp add: ljust_def)

lemma ljust_prefix: "take (length s) (ljust n s) = s"
  by (simp add: ljust_def)

section \<open>The calendar of UTC at some instants\<close>

lemma gmtime_epoch:
  "gmtime 0 = \<lparr>tm_year = 70, tm_mon = 0, tm_mday = 1, tm_yday = 0\<rparr>"
  by code_simp

lemma gmtime_leap_day:
  "gmtime 1709164800 = \<lparr>tm_year = 124, tm_mon = 1, tm_mday = 29, tm_yday = 59\<rparr>"
  by code_simp

lemma gmtime_before_epoch:
  "gmtime (- 1) = \<lparr>tm_year = 69, tm_mon = 11, tm_mday = 31, tm_yday = 364\<rparr>"
  by code_simp

end
