(* ===== verification/Reporting.thy ===== *)
theory Reporting
  imports Patient_Management Time_Format
begin

text \<open>
  The timeframe reports of \<^verbatim>\<open>src/patient_management.c\<close>: \<open>countPatientsByTimeframe\<close>,
  \<open>printFormattedReport\<close>, \<open>displayPatientReport\<close> for the active patients, and
  \<open>countDischargedPatientsByTimeframe\<close>, \<open>printDischargedFormattedReport\<close>,
  \<open>displayDischargedPatientReport\<close> for the archive.

  The calendar of \<^verbatim>\<open>localtime\<close> is an argument (\<open>cal\<close>); the two calls of \<^verbatim>\<open>time(NULL)\<close>
  of one report and the outcomes of \<^verbatim>\<open>fopen\<close> are the fields of \<open>report_env\<close>.

  \<open>countPatientsByTimeframe\<close> copies the year, the day of the year and the month of the
  current time into three \<^verbatim>\<open>int\<close> variables before its loop.  The other three loops keep
  the pointer \<^verbatim>\<open>currentTime\<close> that \<^verbatim>\<open>localtime(&now)\<close> returned and call \<^verbatim>\<open>localtime\<close> again
  for every record: both pointers then refer to the one static object, which holds the
  time of the record.  In the definitions the variable \<open>static\<close> is the content of that
  object after the call, and \<open>currentTime\<close> and the time of the record both read it.
\<close>

section \<open>The environment of a report\<close>

record report_env =
  now_count :: time_t
  now_print :: time_t
  report_open_fails :: bool
  archive_count_open_fails :: bool
  archive_print_open_fails :: bool

section \<open>The filter\<close>

definition selected :: "cint \<Rightarrow> bool \<Rightarrow> bool \<Rightarrow> bool \<Rightarrow> bool" where
  "selected timeframe past24Hours sameWeek sameMonth \<longleftrightarrow>
     (timeframe = 1 \<and> past24Hours) \<or> (timeframe = 2 \<and> sameWeek) \<or>
     (timeframe = 3 \<and> sameMonth)"

section \<open>Counting the active patients\<close>

fun count_admitted :: "calendar \<Rightarrow> time_t \<Rightarrow> cint \<Rightarrow> cint \<Rightarrow> cint \<Rightarrow> cint \<Rightarrow>
    Patient list \<Rightarrow> cint \<Rightarrow> cint" where
  "count_admitted cal now currentYear currentDayOfYear currentMonth timeframe [] count = count"
| "count_admitted cal now currentYear currentDayOfYear currentMonth timeframe (current # rest)
     count =
     (let admissionTimestamp = admissionDate current;
          admissionTime = cal admissionTimestamp;
          admissionYear = tm_year admissionTime;
          admissionDayOfYear = tm_yday admissionTime;
          admissionMonth = tm_mon admissionTime;
          hoursDiff = hours_diff now admissionTimestamp;
          past24Hours = (hoursDiff \<le>s 24);
          sameWeek = (admissionYear = currentYear \<and>
                      (currentDayOfYear - admissionDayOfYear) <s 7);
          sameMonth = (admissionYear = currentYear \<and> admissionMonth = currentMonth)
      in count_admitted cal now currentYear currentDayOfYear currentMonth timeframe rest
           (if selected timeframe past24Hours sameWeek sameMonth then count + 1 else count))"

definition countPatientsByTimeframe :: "calendar \<Rightarrow> time_t \<Rightarrow> cint \<Rightarrow> hms \<Rightarrow> cint \<times> hms" where
  "countPatientsByTimeframe cal now timeframe s =
     (if patientHead s = [] then (0, say (Printf ''No patients admitted!\<newline>'') s)
      else let currentTime = cal now
           in (count_admitted cal now (tm_year currentTime) (tm_yday currentTime)
                 (tm_mon currentTime) timeframe (patientHead s) 0, s))"

section \<open>Counting the archive\<close>

fun count_discharged :: "calendar \<Rightarrow> time_t \<Rightarrow> cint \<Rightarrow> DischargedPatient list \<Rightarrow> cint \<Rightarrow> cint" where
  "count_discharged cal now timeframe [] count = count"
| "count_discharged cal now timeframe (dischargedPatient # rest) count =
     (let dischargeTimestamp = dischargeDate dischargedPatient;
          static = cal dischargeTimestamp;
          dischargeTime = static;
          currentTime = static;
          hoursDiff = hours_diff now dischargeTimestamp;
          past24Hours = (hoursDiff \<le>s 24);
          sameWeek = (tm_year dischargeTime = tm_year currentTime \<and>
                      (tm_yday currentTime - tm_yday dischargeTime) <s 7);
          sameMonth = (tm_year dischargeTime = tm_year currentTime \<and>
                       tm_mon dischargeTime = tm_mon currentTime)
      in count_discharged cal now timeframe rest
           (if selected timeframe past24Hours sameWeek sameMonth then count + 1 else count))"

definition countDischargedPatientsByTimeframe ::
    "limits \<Rightarrow> calendar \<Rightarrow> time_t \<Rightarrow> bool \<Rightarrow> cint \<Rightarrow> hms \<Rightarrow> cint \<times> hms" where
  "countDischargedPatientsByTimeframe L cal now open_fails timeframe s =
     (case (if open_fails then None else files s DischargedDat) of
        None \<Rightarrow> (0, say (Printf ''No discharged patients found!\<newline>'') s)
      | Some bytes \<Rightarrow>
          (count_discharged cal now timeframe (fread_all (discharged_codec L) bytes) 0, s))"

section \<open>Printing\<close>

text \<open>One line that goes to the console and, with the same text, to the report file.\<close>

definition emit :: "fname \<Rightarrow> string \<Rightarrow> hms \<Rightarrow> hms" where
  "emit file line s = say (Printf line) (s\<lparr>files := fappend file line (files s)\<rparr>)"

definition emit_all :: "fname \<Rightarrow> string list \<Rightarrow> hms \<Rightarrow> hms" where
  "emit_all file lines s = fold (emit file) lines s"

definition rule_double :: string where
  "rule_double = ''=======================================\<newline>''"

definition rule_single :: string where
  "rule_single = ''---------------------------------------\<newline>''"

definition patient_row :: "string \<Rightarrow> Patient \<Rightarrow> string \<Rightarrow> string" where
  "patient_row label p dateStr =
     ''| ID: '' @ ljust 5 (show_cint (patientId p)) @ '' Name: '' @ ljust 15 (name p) @
     '' | Age: '' @ ljust 3 (show_cint (ageInYears p)) @
     '' Room: '' @ ljust 5 (show_cint (roomNumber p)) @
     '' Diagnosis: '' @ ljust 20 (diagnosis p) @
     '' | '' @ label @ '': '' @ ljust 10 dateStr @ '' |\<newline>''"

fun admitted_rows :: "calendar \<Rightarrow> time_t \<Rightarrow> cint \<Rightarrow> Patient list \<Rightarrow> string list" where
  "admitted_rows cal now timeframe [] = []"
| "admitted_rows cal now timeframe (node # rest) =
     (let admissionTimestamp = admissionDate node;
          static = cal admissionTimestamp;
          admissionTime = static;
          currentTime = static;
          hoursDiff = hours_diff now admissionTimestamp;
          past24Hours = (hoursDiff \<le>s 24);
          sameWeek = (tm_year admissionTime = tm_year currentTime \<and>
                      (tm_yday currentTime - tm_yday admissionTime) <s 7);
          sameMonth = (tm_year admissionTime = tm_year currentTime \<and>
                       tm_mon admissionTime = tm_mon currentTime)
      in (if selected timeframe past24Hours sameWeek sameMonth
          then [patient_row ''Admitted'' node (strftime_ymd admissionTime), rule_single]
          else []) @
         admitted_rows cal now timeframe rest)"

definition printFormattedReport ::
    "calendar \<Rightarrow> time_t \<Rightarrow> fname \<Rightarrow> string \<Rightarrow> cint \<Rightarrow> cint \<Rightarrow> hms \<Rightarrow> hms" where
  "printFormattedReport cal now file header result timeframe s =
     (let currentTimeStr = strftime_ymd (cal now);
          s1 = emit_all file
                 [header @ '' - '' @ currentTimeStr @ ''\<newline>'', rule_double,
                  ''Total patients admitted: '' @ show_cint result @ ''\<newline>'', rule_single] s
      in if result = 0
         then emit_all file [''| No patients admitted in this timeframe |\<newline>'', rule_single] s1
         else emit_all file (admitted_rows cal now timeframe (patientHead s1)) s1)"

definition displayPatientReport :: "calendar \<Rightarrow> report_env \<Rightarrow> cint \<Rightarrow> hms \<Rightarrow> hms" where
  "displayPatientReport cal e choice s =
     (let (result, s1) = countPatientsByTimeframe cal (now_count e) choice s in
      if report_open_fails e then say (Printf ''Error opening file for writing!\<newline>'') s1
      else
        let s2 = s1\<lparr>files := fappend PatientReportsTxt ''\<newline>''
                               (fopen_a PatientReportsTxt (files s1))\<rparr>;
            s3 = printFormattedReport cal (now_print e) PatientReportsTxt
                   ''   Patient Admission Report - Daily'' result choice s2
        in say (Printf ''\<newline>Report successfully written to patient_reports.txt\<newline>'') s3)"

fun discharged_rows :: "calendar \<Rightarrow> time_t \<Rightarrow> cint \<Rightarrow> DischargedPatient list \<Rightarrow> string list" where
  "discharged_rows cal now timeframe [] = []"
| "discharged_rows cal now timeframe (dischargedPatient # rest) =
     (let dischargeTimestamp = dischargeDate dischargedPatient;
          static = cal dischargeTimestamp;
          dischargeTime = static;
          currentTime = static;
          dischargeDateStr = strftime_ymd dischargeTime;
          hoursDiff = hours_diff now dischargeTimestamp;
          past24Hours = (hoursDiff \<le>s 24);
          sameWeek = (tm_year dischargeTime = tm_year currentTime \<and>
                      (tm_yday currentTime - tm_yday dischargeTime) <s 7);
          sameMonth = (tm_year dischargeTime = tm_year currentTime \<and>
                       tm_mon dischargeTime = tm_mon currentTime)
      in (if selected timeframe past24Hours sameWeek sameMonth
          then [patient_row ''Discharged'' (patient dischargedPatient) dischargeDateStr,
                rule_single]
          else []) @
         discharged_rows cal now timeframe rest)"

definition printDischargedFormattedReport ::
    "limits \<Rightarrow> calendar \<Rightarrow> time_t \<Rightarrow> bool \<Rightarrow> fname \<Rightarrow> string \<Rightarrow> cint \<Rightarrow> cint \<Rightarrow> hms \<Rightarrow> hms" where
  "printDischargedFormattedReport L cal now open_fails file header result timeframe s =
     (let currentTimeStr = strftime_ymd (cal now);
          s1 = emit_all file
                 [header @ '' - '' @ currentTimeStr @ ''\<newline>'', rule_double,
                  ''Total patients discharged: '' @ show_cint result @ ''\<newline>'', rule_single] s
      in if result = 0
         then emit_all file
                [''| No patients discharged in this timeframe |\<newline>'', rule_single] s1
         else
           (case (if open_fails then None else files s1 DischargedDat) of
              None \<Rightarrow> say (Printf ''Error opening file to read discharged patients.\<newline>'') s1
            | Some bytes \<Rightarrow>
                emit_all file
                  (discharged_rows cal now timeframe (fread_all (discharged_codec L) bytes)) s1))"

definition displayDischargedPatientReport ::
    "limits \<Rightarrow> calendar \<Rightarrow> report_env \<Rightarrow> cint \<Rightarrow> hms \<Rightarrow> hms" where
  "displayDischargedPatientReport L cal e choice s =
     (let (result, s1) = countDischargedPatientsByTimeframe L cal (now_count e)
                           (archive_count_open_fails e) choice s in
      if report_open_fails e then say (Printf ''Error opening file for writing!\<newline>'') s1
      else
        let s2 = s1\<lparr>files := fappend DischargedReportsTxt ''\<newline>''
                               (fopen_a DischargedReportsTxt (files s1))\<rparr>;
            s3 = printDischargedFormattedReport L cal (now_print e) (archive_print_open_fails e)
                   DischargedReportsTxt ''   Discharged Patient Report - Weekly'' result choice s2
        in say (Printf
             ''\<newline>Discharge Report successfully written to discharged_reports.txt\<newline>'') s3)"

declare countPatientsByTimeframe_def [hms_unfold] countDischargedPatientsByTimeframe_def [hms_unfold]
  emit_def [hms_unfold] emit_all_def [hms_unfold] printFormattedReport_def [hms_unfold]
  displayPatientReport_def [hms_unfold] printDischargedFormattedReport_def [hms_unfold]
  displayDischargedPatientReport_def [hms_unfold]

section \<open>Frame: a report changes the console and its report file only\<close>

lemma emit_all_fields [simp]:
  "patientHead (emit_all f ls s) = patientHead s"
  "totalPatients (emit_all f ls s) = totalPatients s"
  "patientIDCounter (emit_all f ls s) = patientIDCounter s"
  "console (emit_all f ls s) = console s @ map Printf ls"
  by (induction ls arbitrary: s) (simp_all add: emit_all_def emit_def)

lemma emit_all_other_files [simp]: "g \<noteq> f \<Longrightarrow> files (emit_all f ls s) g = files s g"
  by (induction ls arbitrary: s) (simp_all add: emit_all_def emit_def)

lemma emit_all_file:
  "files (emit_all f ls s) f =
     (if ls = [] then files s f
      else Some ((case files s f of None \<Rightarrow> [] | Some old \<Rightarrow> old) @ concat ls))"
proof (induction ls arbitrary: s)
  case Nil
  then show ?case by (simp add: emit_all_def)
next
  case (Cons l ls)
  have "emit_all f (l # ls) s = emit_all f ls (emit f l s)" by (simp add: emit_all_def)
  with Cons [of "emit f l s"] show ?case
    by (cases "files s f") (simp_all add: emit_def)
qed

lemma countPatientsByTimeframe_state [simp]:
  "patientHead (snd (countPatientsByTimeframe cal now tf s)) = patientHead s"
  "totalPatients (snd (countPatientsByTimeframe cal now tf s)) = totalPatients s"
  "patientIDCounter (snd (countPatientsByTimeframe cal now tf s)) = patientIDCounter s"
  "files (snd (countPatientsByTimeframe cal now tf s)) = files s"
  by (simp_all add: countPatientsByTimeframe_def Let_def)

lemma countDischargedPatientsByTimeframe_state [simp]:
  "patientHead (snd (countDischargedPatientsByTimeframe L cal now o_f tf s)) = patientHead s"
  "totalPatients (snd (countDischargedPatientsByTimeframe L cal now o_f tf s)) = totalPatients s"
  "patientIDCounter (snd (countDischargedPatientsByTimeframe L cal now o_f tf s))
     = patientIDCounter s"
  "files (snd (countDischargedPatientsByTimeframe L cal now o_f tf s)) = files s"
  by (simp_all add: countDischargedPatientsByTimeframe_def split: option.splits)

lemma printFormattedReport_store [simp, hms_frame]:
  "patientHead (printFormattedReport cal now f h r tf s) = patientHead s"
  "totalPatients (printFormattedReport cal now f h r tf s) = totalPatients s"
  "patientIDCounter (printFormattedReport cal now f h r tf s) = patientIDCounter s"
  "g \<noteq> f \<Longrightarrow> files (printFormattedReport cal now f h r tf s) g = files s g"
  by (simp_all add: printFormattedReport_def Let_def)

lemma printDischargedFormattedReport_store [simp, hms_frame]:
  "patientHead (printDischargedFormattedReport L cal now o_f f h r tf s) = patientHead s"
  "totalPatients (printDischargedFormattedReport L cal now o_f f h r tf s) = totalPatients s"
  "patientIDCounter (printDischargedFormattedReport L cal now o_f f h r tf s)
     = patientIDCounter s"
  "g \<noteq> f \<Longrightarrow> files (printDischargedFormattedReport L cal now o_f f h r tf s) g = files s g"
  by (simp_all add: printDischargedFormattedReport_def Let_def split: option.splits)

lemma displayPatientReport_store [simp, hms_frame]:
  "patientHead (displayPatientReport cal e c s) = patientHead s"
  "totalPatients (displayPatientReport cal e c s) = totalPatients s"
  "patientIDCounter (displayPatientReport cal e c s) = patientIDCounter s"
  "g \<noteq> PatientReportsTxt \<Longrightarrow> files (displayPatientReport cal e c s) g = files s g"
  by (simp_all add: displayPatientReport_def Let_def split_beta)

lemma displayDischargedPatientReport_store [simp, hms_frame]:
  "patientHead (displayDischargedPatientReport L cal e c s) = patientHead s"
  "totalPatients (displayDischargedPatientReport L cal e c s) = totalPatients s"
  "patientIDCounter (displayDischargedPatientReport L cal e c s) = patientIDCounter s"
  "g \<noteq> DischargedReportsTxt \<Longrightarrow> files (displayDischargedPatientReport L cal e c s) g = files s g"
  by (simp_all add: displayDischargedPatientReport_def Let_def split_beta)

section \<open>What the loops select\<close>

text \<open>
  The filter as \<open>countPatientsByTimeframe\<close> applies it: the record time against the
  current time.
\<close>

definition in_timeframe :: "calendar \<Rightarrow> time_t \<Rightarrow> cint \<Rightarrow> time_t \<Rightarrow> bool" where
  "in_timeframe cal now timeframe t \<longleftrightarrow>
     selected timeframe (hours_diff now t \<le>s 24)
       (tm_year (cal t) = tm_year (cal now) \<and> (tm_yday (cal now) - tm_yday (cal t)) <s 7)
       (tm_year (cal t) = tm_year (cal now) \<and> tm_mon (cal t) = tm_mon (cal now))"

text \<open>
  The filter as the three other loops apply it: the year, the day of the year and the
  month of the record are compared with themselves.
\<close>

definition in_timeframe_aliased :: "time_t \<Rightarrow> cint \<Rightarrow> time_t \<Rightarrow> bool" where
  "in_timeframe_aliased now timeframe t \<longleftrightarrow>
     (timeframe = 1 \<and> hours_diff now t \<le>s 24) \<or> timeframe = 2 \<or> timeframe = 3"

lemma count_admitted_filter:
  "count_admitted cal now (tm_year (cal now)) (tm_yday (cal now)) (tm_mon (cal now)) tf ps c =
     c + of_nat (length (filter (\<lambda>p. in_timeframe cal now tf (admissionDate p)) ps))"
  by (induction ps arbitrary: c) (simp_all add: Let_def in_timeframe_def)

lemma count_discharged_filter:
  "count_discharged cal now tf ds c =
     c + of_nat (length (filter (\<lambda>d. in_timeframe_aliased now tf (dischargeDate d)) ds))"
  by (induction ds arbitrary: c)
    (simp_all add: Let_def in_timeframe_aliased_def selected_def word_sless_alt)

lemma admitted_rows_filter:
  "admitted_rows cal now tf ps =
     concat (map (\<lambda>p. [patient_row ''Admitted'' p (strftime_ymd (cal (admissionDate p))),
                        rule_single])
               (filter (\<lambda>p. in_timeframe_aliased now tf (admissionDate p)) ps))"
  by (induction ps) (simp_all add: Let_def in_timeframe_aliased_def selected_def word_sless_alt)

lemma discharged_rows_filter:
  "discharged_rows cal now tf ds =
     concat (map (\<lambda>d. [patient_row ''Discharged'' (patient d)
                          (strftime_ymd (cal (dischargeDate d))), rule_single])
               (filter (\<lambda>d. in_timeframe_aliased now tf (dischargeDate d)) ds))"
  by (induction ds) (simp_all add: Let_def in_timeframe_aliased_def selected_def word_sless_alt)

text \<open>The daily test in numbers: the record is younger than 25 hours.\<close>

lemma hours_diff_le_24:
  assumes "\<bar>sint now - sint t\<bar> < 3600 * 2 ^ 31"
  shows "hours_diff now t \<le>s 24 \<longleftrightarrow> sint now - sint t < 90000"
proof -
  let ?d = "sint now - sint t"
  have "\<bar>?d sdiv 3600\<bar> = \<bar>?d\<bar> div 3600"
    by (simp add: signed_divide_int_def abs_mult sgn_if)
  also from assms have "\<dots> < 2 ^ 31"
    using zdiv_mono1 [of "\<bar>?d\<bar>" "3600 * 2 ^ 31 - 1" 3600] by simp
  finally have "- (2 ^ 31) \<le> ?d sdiv 3600" "?d sdiv 3600 < 2 ^ 31" by simp_all
  then have "sint (word_of_int (?d sdiv 3600) :: cint) = ?d sdiv 3600"
    by (rule sint_word_of_int32)
  then show ?thesis by (simp add: hours_diff_def word_sle_eq sdiv_3600_le_iff)
qed

section \<open>The count and the listing\<close>

text \<open>
  C27.  \<open>countPatientsByTimeframe\<close> returns the number of active patients whose admission
  time passes the filter of the requested timeframe against the current time: at most
  24 whole hours old for 1, same year and fewer than 7 days of the year apart for 2, same
  year and month for 3, none for any other value.  It prints a notice when the list is
  empty and changes nothing else.
\<close>

theorem countPatientsByTimeframe_counts:
  "fst (countPatientsByTimeframe cal now tf s) =
     of_nat (length (filter (\<lambda>p. in_timeframe cal now tf (admissionDate p)) (patientHead s))) \<and>
   console (snd (countPatientsByTimeframe cal now tf s)) =
     console s @ (if patientHead s = [] then [Printf ''No patients admitted!\<newline>''] else []) \<and>
   files (snd (countPatientsByTimeframe cal now tf s)) = files s"
proof (cases "patientHead s = []")
  case True
  then show ?thesis by (simp add: countPatientsByTimeframe_def)
next
  case False
  then show ?thesis by (simp add: countPatientsByTimeframe_def Let_def count_admitted_filter)
qed

text \<open>
  C29.  The daily filter is a window of 25 hours that is open to the future: the count
  for timeframe 1 is the number of patients admitted less than 90000 seconds before the
  current time, those with an admission time after it included.
\<close>

theorem daily_window_is_25_hours:
  assumes "\<forall>p \<in> set (patientHead s). \<bar>sint now - sint (admissionDate p)\<bar> < 3600 * 2 ^ 31"
  shows "fst (countPatientsByTimeframe cal now 1 s) =
           of_nat (length (filter (\<lambda>p. sint now - sint (admissionDate p) < 90000)
                             (patientHead s)))"
proof -
  have "filter (\<lambda>p. in_timeframe cal now 1 (admissionDate p)) (patientHead s) =
        filter (\<lambda>p. sint now - sint (admissionDate p) < 90000) (patientHead s)"
    using assms by (intro filter_cong) (simp_all add: in_timeframe_def selected_def hours_diff_le_24)
  then show ?thesis
    by (cases "patientHead s = []")
      (simp_all add: countPatientsByTimeframe_def Let_def count_admitted_filter)
qed

text \<open>
  C28.  The weekly and the monthly listing show every active patient, whatever the
  admission date: inside the loop of \<open>printFormattedReport\<close> the pointer \<^verbatim>\<open>currentTime\<close>
  refers to the static object that \<^verbatim>\<open>localtime\<close> has just overwritten with the admission
  time, so the year, day and month tests compare the admission time with itself.  The
  console then shows the header with the count it was given, followed by one row and
  one rule for each patient of the list.
\<close>

theorem report_lists_every_patient:
  assumes "tf = 2 \<or> tf = 3" and "result \<noteq> 0"
  shows "console (printFormattedReport cal now f header result tf s) =
           console s @
           map Printf
             ([header @ '' - '' @ strftime_ymd (cal now) @ ''\<newline>'', rule_double,
               ''Total patients admitted: '' @ show_cint result @ ''\<newline>'', rule_single] @
              concat (map (\<lambda>p. [patient_row ''Admitted'' p
                                    (strftime_ymd (cal (admissionDate p))), rule_single])
                        (patientHead s)))"
proof -
  from assms(1) have "filter (\<lambda>p. in_timeframe_aliased now tf (admissionDate p)) (patientHead s)
      = patientHead s"
    by (auto simp: in_timeframe_aliased_def)
  with assms(2) show ?thesis
    by (simp add: printFormattedReport_def Let_def admitted_rows_filter)
qed

text \<open>
  C30.  The weekly and the monthly count of the archive is the number of records in
  \<^verbatim>\<open>discharged_patients.dat\<close>, whatever their discharge dates:
  \<open>countDischargedPatientsByTimeframe\<close> has the same aliasing of \<^verbatim>\<open>currentTime\<close>.
\<close>

theorem discharged_count_ignores_dates:
  assumes "tf = 2 \<or> tf = 3" and "files s DischargedDat = Some bytes"
  shows "fst (countDischargedPatientsByTimeframe L cal now False tf s) =
           of_nat (length bytes div sizeof_DischargedPatient L)"
proof -
  let ?ds = "fread_all (discharged_codec L) bytes"
  from assms(1) have "filter (\<lambda>d. in_timeframe_aliased now tf (dischargeDate d)) ?ds = ?ds"
    by (auto simp: in_timeframe_aliased_def)
  moreover have "length ?ds = length bytes div sizeof_DischargedPatient L"
    using length_fread_all [of "discharged_codec L" bytes]
    by (simp add: sizeof_DischargedPatient_def sizeof_Patient_def)
  ultimately show ?thesis
    using assms(2) by (simp add: countDischargedPatientsByTimeframe_def count_discharged_filter)
qed

end
