(* ===== verification/Room_Usage.thy ===== *)
theory Room_Usage
  imports Persistence Time_Format
begin

text \<open>
  The room usage report, \<open>displayRoomUsageReport\<close> of \<^verbatim>\<open>src/patient_management.c\<close>
  (lines 553-609), and the conversion \<^verbatim>\<open>%d\<close> of \<^verbatim>\<open>fscanf\<close> that it reads the log with.

  \<^item> \<open>scanf_d\<close> is one call \<^verbatim>\<open>fscanf(file, "%d", &n)\<close> on the unread text of the file: white
    space is skipped, then an optional sign and at least one digit are converted.  The
    result is the number with the text that is left, or \<open>None\<close> when the call does not
    return 1 (no digit where one is expected, or end of file).
  \<^item> \<open>scan_rooms\<close> is the sequence of numbers that the loop
    \<^verbatim>\<open>while (fscanf(file, "%d", &roomNumber) == 1)\<close> sees.
  \<^item> \<open>usage_loop\<close> is the body of that loop over the array \<^verbatim>\<open>roomCounts\<close> (a list of 51
    counters) and the two totals; \<open>usage_rows\<close> is the loop that prints the table.
\<close>

section \<open>The conversion \<^verbatim>\<open>%d\<close>\<close>

definition is_space :: "char \<Rightarrow> bool" where
  "is_space c \<longleftrightarrow> c \<in> set [CHR '' '', CHR 0x09, CHR 0x0A, CHR 0x0B, CHR 0x0C, CHR 0x0D]"

definition is_digit :: "char \<Rightarrow> bool" where
  "is_digit c \<longleftrightarrow> c \<in> set ''0123456789''"

definition digit_val :: "char \<Rightarrow> nat" where
  "digit_val c = of_char c - 48"

definition digits_nat :: "string \<Rightarrow> nat" where
  "digits_nat ds = foldl (\<lambda>n c. 10 * n + digit_val c) 0 ds"

definition skip_sign :: "string \<Rightarrow> bool \<times> string" where
  "skip_sign inp =
     (case inp of
        [] \<Rightarrow> (False, [])
      | c # cs \<Rightarrow> if c = CHR ''-'' then (True, cs)
                 else if c = CHR ''+'' then (False, cs) else (False, inp))"

definition scanf_d :: "string \<Rightarrow> (cint \<times> string) option" where
  "scanf_d inp =
     (let (neg, rest1) = skip_sign (dropWhile is_space inp);
          ds = takeWhile is_digit rest1
      in if ds = [] then None
         else Some (word_of_int ((if neg then - 1 else 1) * int (digits_nat ds)),
                    dropWhile is_digit rest1))"

lemma skip_sign_length: "length (snd (skip_sign inp)) \<le> length inp"
  by (simp add: skip_sign_def split: list.splits)

lemma scanf_d_shorter:
  assumes "scanf_d inp = Some (n, rest)"
  shows "length rest < length inp"
proof -
  obtain neg r1 where s: "skip_sign (dropWhile is_space inp) = (neg, r1)"
    by (cases "skip_sign (dropWhile is_space inp)")
  with assms have ds: "takeWhile is_digit r1 \<noteq> []" and rest: "rest = dropWhile is_digit r1"
    by (auto simp: scanf_d_def Let_def split: if_splits)
  from ds have "length (dropWhile is_digit r1) < length r1"
    by (cases r1) (auto simp: le_imp_less_Suc length_dropWhile_le split: if_splits)
  moreover from s skip_sign_length [of "dropWhile is_space inp"]
  have "length r1 \<le> length (dropWhile is_space inp)" by simp
  moreover have "length (dropWhile is_space inp) \<le> length inp" by (rule length_dropWhile_le)
  ultimately show ?thesis using rest by simp
qed

function scan_rooms :: "string \<Rightarrow> cint list" where
  "scan_rooms inp =
     (case scanf_d inp of None \<Rightarrow> [] | Some (roomNo, rest) \<Rightarrow> roomNo # scan_rooms rest)"
  by pat_completeness auto
termination
  by (relation "measure length") (auto dest: scanf_d_shorter)

declare scan_rooms.simps [simp del]

section \<open>The report\<close>

fun usage_loop :: "cint list \<Rightarrow> cint list \<Rightarrow> cint \<Rightarrow> cint \<Rightarrow> hms \<Rightarrow> cint list \<times> cint \<times> cint \<times> hms" where
  "usage_loop [] roomCounts totalEntries validEntries s =
     (roomCounts, totalEntries, validEntries, s)"
| "usage_loop (roomNo # rest) roomCounts totalEntries validEntries s =
     (if 1 \<le>s roomNo \<and> roomNo \<le>s 50
      then usage_loop rest
             (roomCounts[unat roomNo := roomCounts ! unat roomNo + 1])
             (totalEntries + 1) (validEntries + 1) s
      else usage_loop rest roomCounts (totalEntries + 1) validEntries
             (say (Eprintf (''Warning: Found invalid room number '' @ [CHR 0x27] @
                            show_cint roomNo @ [CHR 0x27] @
                            '' in room_usage.txt\<newline>'')) s))"

definition usage_rows :: "cint list \<Rightarrow> string list" where
  "usage_rows roomCounts =
     concat (map (\<lambda>i. if 0 <s roomCounts ! i
                       then [ljust 4 (show_nat i) @ '' | '' @ show_cint (roomCounts ! i) @
                             ''\<newline>'']
                       else [])
               [1..<51])"

definition displayRoomUsageReport :: "bool \<Rightarrow> hms \<Rightarrow> hms" where
  "displayRoomUsageReport open_fails s =
     (let s1 = say (Printf ''\<newline>--- Room Usage Report ---\<newline>'') s in
      case (if open_fails then None else files s1 RoomUsageTxt) of
        None \<Rightarrow> say (Printf ''Error opening room_usage.txt for reading'') s1
      | Some text \<Rightarrow>
          let (roomCounts, totalEntries, validEntries, s2) =
                usage_loop (scan_rooms text) (replicate 51 0) 0 0 s1;
              s3 = say (Printf ''-----|------------\<newline>'')
                     (say (Printf ''Room | Usage Count\<newline>'') s2);
              rows = usage_rows roomCounts;
              s4 = fold (\<lambda>row. say (Printf row)) rows s3;
              s5 = (if rows = [] \<and> validEntries = 0
                    then say (Printf ''No valid room usage data found in the file.\<newline>'') s4
                    else s4)
          in say (Printf ''-------------------------\<newline>'')
               (say (Printf (''Valid rooms logged: '' @ show_cint validEntries @ ''\<newline>''))
                  (say (Printf (''Total entries read: '' @ show_cint totalEntries @ ''\<newline>''))
                     (say (Printf ''-------------------------\<newline>'') s5))))"

declare displayRoomUsageReport_def [hms_unfold]

section \<open>Reading back what \<^verbatim>\<open>%d\<close> printed\<close>

lemma digit_table: "list_all (\<lambda>k. digit_val (''0123456789'' ! k) = k) [0..<10]"
  by code_simp

lemma digit_val_digit_char [simp]: "digit_val (digit_char n) = n mod 10"
proof -
  have "n mod 10 \<in> set [0..<10]" by simp
  with digit_table have "digit_val (''0123456789'' ! (n mod 10)) = n mod 10"
    unfolding list_all_iff by blast
  then show ?thesis by (simp only: digit_char_def)
qed

lemma is_digit_digit_char [simp]: "is_digit (digit_char n)"
  using digit_char_is_digit [of n] by (simp only: is_digit_def)

lemma digits_nat_snoc: "digits_nat (ds @ [c]) = 10 * digits_nat ds + digit_val c"
  by (simp add: digits_nat_def)

lemma digits_nat_show_nat [simp]: "digits_nat (show_nat n) = n"
proof (induction n rule: show_nat.induct)
  case (1 n)
  show ?case
  proof (cases "n < 10")
    case True
    then show ?thesis by (subst show_nat.simps) (simp add: digits_nat_def)
  next
    case False
    with "1.IH" show ?thesis by (subst show_nat.simps) (simp add: digits_nat_snoc)
  qed
qed

lemma show_nat_all_digits: "c \<in> set (show_nat n) \<Longrightarrow> is_digit c"
  using show_nat_digits [of n] unfolding is_digit_def by blast

lemma digit_not_space: "is_digit c \<Longrightarrow> \<not> is_space c \<and> c \<noteq> CHR ''-'' \<and> c \<noteq> CHR ''+''"
  unfolding is_digit_def is_space_def by auto

lemma takeWhile_show_nat:
  "\<not> is_digit c \<Longrightarrow> takeWhile is_digit (show_nat n @ c # rest) = show_nat n"
  by (simp add: takeWhile_append2 show_nat_all_digits)

lemma dropWhile_show_nat:
  "\<not> is_digit c \<Longrightarrow> dropWhile is_digit (show_nat n @ c # rest) = c # rest"
  by (simp add: dropWhile_append2 show_nat_all_digits)

lemma show_nat_Cons: "\<exists>d ds. show_nat n = d # ds \<and> is_digit d"
  using show_nat_nonempty [of n] show_nat_all_digits [of _ n] by (cases "show_nat n") auto

lemma scanf_d_show_nat:
  assumes "\<not> is_digit c"
  shows "scanf_d (show_nat n @ c # rest) = Some (of_nat n, c # rest)"
proof -
  from show_nat_Cons [of n] obtain d ds where d: "show_nat n = d # ds" "is_digit d" by blast
  with digit_not_space [of d]
  have "skip_sign (dropWhile is_space (show_nat n @ c # rest)) = (False, show_nat n @ c # rest)"
    by (simp add: skip_sign_def)
  with assms show ?thesis
    by (simp add: scanf_d_def takeWhile_show_nat dropWhile_show_nat)
qed

lemma scanf_d_minus_show_nat:
  assumes "\<not> is_digit c"
  shows "scanf_d (CHR ''-'' # show_nat n @ c # rest) = Some (- of_nat n, c # rest)"
proof -
  have "skip_sign (dropWhile is_space (CHR ''-'' # show_nat n @ c # rest))
      = (True, show_nat n @ c # rest)"
    by (simp add: skip_sign_def is_space_def)
  with assms show ?thesis
    by (simp add: scanf_d_def takeWhile_show_nat dropWhile_show_nat)
qed

lemma scanf_d_show_cint:
  assumes "\<not> is_digit c"
  shows "scanf_d (show_cint r @ c # rest) = Some (r, c # rest)"
proof (cases "sint r < 0")
  case True
  then have "(- of_nat (nat (- sint r)) :: cint) = word_of_int (sint r)" by simp
  with True scanf_d_minus_show_nat [OF assms, of "nat (- sint r)" rest] show ?thesis
    by (simp add: show_cint_def show_int_def)
next
  case False
  then have "(of_nat (nat (sint r)) :: cint) = word_of_int (sint r)" by simp
  with False scanf_d_show_nat [OF assms, of "nat (sint r)" rest] show ?thesis
    by (simp add: show_cint_def show_int_def)
qed

lemma scanf_d_skip_space: "is_space c \<Longrightarrow> scanf_d (c # inp) = scanf_d inp"
  by (simp add: scanf_d_def)

lemma scan_rooms_skip_space: "is_space c \<Longrightarrow> scan_rooms (c # inp) = scan_rooms inp"
  by (simp add: scan_rooms.simps [of "c # inp"] scan_rooms.simps [of inp] scanf_d_skip_space)

text \<open>The text that \<open>logRoomUsage\<close> has written for a sequence of rooms.\<close>

definition room_log :: "cint list \<Rightarrow> string" where
  "room_log rs = concat (map (\<lambda>r. show_cint r @ ''\<newline>'') rs)"

lemma room_log_simps [simp]:
  "room_log [] = []"
  "room_log (r # rs) = show_cint r @ CHR ''\<newline>'' # room_log rs"
  "room_log (rs @ rs') = room_log rs @ room_log rs'"
  by (simp_all add: room_log_def)

lemma scan_rooms_room_log:
  assumes "scanf_d junk = None"
  shows "scan_rooms (room_log rs @ junk) = rs"
proof (induction rs)
  case Nil
  from assms show ?case by (simp add: scan_rooms.simps [of junk])
next
  case (Cons r rs)
  have n: "\<not> is_digit (CHR ''\<newline>'')" "is_space (CHR ''\<newline>'')"
    by (simp_all add: is_digit_def is_space_def)
  have "scan_rooms (room_log (r # rs) @ junk) = r # scan_rooms (CHR ''\<newline>'' # room_log rs @ junk)"
    using scanf_d_show_cint [OF n(1), of r "room_log rs @ junk"]
    by (simp add: scan_rooms.simps [of "show_cint r @ CHR ''\<newline>'' # room_log rs @ junk"])
  with Cons n(2) show ?case by (simp add: scan_rooms_skip_space)
qed

section \<open>The tally\<close>

text \<open>An entry that the loop counts: a room number from 1 to 50.\<close>

definition valid_room_entry :: "cint \<Rightarrow> bool" where
  "valid_room_entry r \<longleftrightarrow> 1 \<le>s r \<and> r \<le>s 50"

definition room_warning :: "cint \<Rightarrow> console_event" where
  "room_warning r =
     Eprintf (''Warning: Found invalid room number '' @ [CHR 0x27] @ show_cint r @ [CHR 0x27] @
              '' in room_usage.txt\<newline>'')"

lemma valid_room_entry_index:
  assumes "valid_room_entry r"
  shows "int (unat r) = sint r" and "1 \<le> unat r" and "unat r \<le> 50"
proof -
  from assms have b: "1 \<le> sint r" "sint r \<le> 50" by (simp_all add: valid_room_entry_def cint_less)
  have "uint (word_of_int k :: cint) = k mod 2 ^ 32" for k by (simp add: uint_word_of_int)
  from this [of "sint r"] have "uint r = sint r mod 2 ^ 32" by simp
  with b show "int (unat r) = sint r" by simp
  with b show "1 \<le> unat r" and "unat r \<le> 50" by linarith+
qed

definition tally :: "cint list \<Rightarrow> cint list \<Rightarrow> cint list" where
  "tally rs counts =
     fold (\<lambda>r c. if valid_room_entry r then c[unat r := c ! unat r + 1] else c) rs counts"

lemma usage_loop_eq:
  "usage_loop rs counts t v s =
     (tally rs counts, t + of_nat (length rs),
      v + of_nat (length (filter valid_room_entry rs)),
      fold (\<lambda>r. say (room_warning r)) (filter (\<lambda>r. \<not> valid_room_entry r) rs) s)"
  by (induction rs arbitrary: counts t v s)
    (simp_all add: tally_def valid_room_entry_def room_warning_def)

lemma length_tally [simp]: "length (tally rs counts) = length counts"
  by (induction rs arbitrary: counts) (simp_all add: tally_def)

lemma tally_nth:
  assumes "length counts = 51" and "i < 51"
  shows "tally rs counts ! i =
           counts ! i + of_nat (length (filter (\<lambda>r. valid_room_entry r \<and> unat r = i) rs))"
  using assms(1)
proof (induction rs arbitrary: counts)
  case Nil
  then show ?case by (simp add: tally_def)
next
  case (Cons r rs)
  let ?c = "if valid_room_entry r then counts[unat r := counts ! unat r + 1] else counts"
  have t: "tally (r # rs) counts = tally rs ?c" by (simp add: tally_def)
  from Cons.prems have "length ?c = 51" by simp
  from Cons.IH [OF this] assms(2) Cons.prems valid_room_entry_index(3) [of r] show ?case
    unfolding t by (auto simp: nth_list_update)
qed

section \<open>The log and the report\<close>

lemma scanf_d_Nil [simp]: "scanf_d [] = None"
  by (simp add: scanf_d_def skip_sign_def)

lemma logRoomUsage_room_log:
  "files (logRoomUsage False False r s) RoomUsageTxt =
     Some ((case files s RoomUsageTxt of None \<Rightarrow> [] | Some old \<Rightarrow> old) @ room_log [r])"
  by (simp add: logRoomUsage_def split: option.splits)

text \<open>
  C31.  The usage log is read back as it was written: when \<^verbatim>\<open>room_usage.txt\<close> holds the
  lines that \<open>logRoomUsage\<close> wrote for the rooms \<open>rs\<close>, one more call appends the line of
  its room, and the reading loop of the report delivers exactly these rooms in order.
  The loop ends at the first text that is not a number: whatever follows it in the
  file, valid lines included, is not read.
\<close>

theorem room_log_read_back:
  assumes "files s RoomUsageTxt = Some (room_log rs)" and "scanf_d junk = None"
  shows "files (logRoomUsage False False r s) RoomUsageTxt = Some (room_log (rs @ [r])) \<and>
         scan_rooms (room_log (rs @ [r]) @ junk) = rs @ [r]"
  using assms(1) scan_rooms_room_log [OF assms(2), of "rs @ [r]"]
  by (simp add: logRoomUsage_room_log)

text \<open>
  C32.  The tally of the report: after the loop over the entries \<open>rs\<close>, counter \<open>i\<close> of
  \<^verbatim>\<open>roomCounts\<close> has grown by the number of entries that are the room \<open>i\<close> and lie between
  1 and 50, \<^verbatim>\<open>totalEntries\<close> by the number of entries and \<^verbatim>\<open>validEntries\<close> by the number
  of entries between 1 and 50 (all modulo \<open>2 ^ 32\<close>).  Every entry that passes the test of
  line 574 is, read as an index, inside the array of 51 counters, so the increment of
  line 576 stays within \<^verbatim>\<open>roomCounts\<close>.
\<close>

theorem usage_loop_tallies:
  assumes "length counts = 51" and "i < 51"
  shows "fst (usage_loop rs counts t v s) ! i =
           counts ! i + of_nat (length (filter (\<lambda>r. valid_room_entry r \<and> unat r = i) rs)) \<and>
         length (fst (usage_loop rs counts t v s)) = 51 \<and>
         fst (snd (usage_loop rs counts t v s)) = t + of_nat (length rs) \<and>
         fst (snd (snd (usage_loop rs counts t v s))) =
           v + of_nat (length (filter valid_room_entry rs)) \<and>
         (\<forall>r \<in> set rs. 1 \<le>s r \<and> r \<le>s 50 \<longrightarrow> unat r < length counts)"
proof -
  have "unat r < length counts" if "1 \<le>s r \<and> r \<le>s 50" for r :: cint
    using that valid_room_entry_index(3) [of r] assms(1) by (simp add: valid_room_entry_def)
  with assms show ?thesis by (simp add: usage_loop_eq tally_nth)
qed

lemma displayRoomUsageReport_store [simp, hms_frame]:
  "patientHead (displayRoomUsageReport o_f s) = patientHead s"
  "totalPatients (displayRoomUsageReport o_f s) = totalPatients s"
  "patientIDCounter (displayRoomUsageReport o_f s) = patientIDCounter s"
  "files (displayRoomUsageReport o_f s) = files s"
  by (simp_all add: displayRoomUsageReport_def usage_loop_eq Let_def split: option.splits)

end
