(* ===== verification/Console_Input.thy ===== *)
theory Console_Input
  imports Store_Invariants Room_Usage
begin

text \<open>
  The console input of \<^verbatim>\<open>src/patient_management.c\<close> (lines 614-760): the four input loops
  of an admission, the identifier and the confirmation of a discharge, and the identifier
  of a search.

  Standard input is the \<open>string\<close> of the characters not yet read; the end of the string
  is the end of the file.

  \<^item> \<open>fgets\<close> is \<^verbatim>\<open>fgets(buffer, n, stdin)\<close>: at most \<open>n - 1\<close> characters up to and including
    the first newline, or \<open>None\<close> at the end of the file (the array is then unchanged).
  \<^item> \<open>cut_newline\<close> is the C string in the array after
    \<^verbatim>\<open>buffer[strcspn(buffer, "\n")] = '\0'\<close>.
  \<^item> \<open>scanf_d\<close> (theory \<open>Room_Usage\<close>) is the conversion \<^verbatim>\<open>%d\<close>; \<open>scanf_d_unread\<close> is what a
    failed conversion leaves unread.  \<open>scanf_c\<close> is \<^verbatim>\<open>scanf(" %c", &c)\<close>.
  \<^item> \<open>clearInputBuffer\<close> of \<^verbatim>\<open>utils.h\<close> discards the rest of the line.

  An input loop repeats until a value passes its validator, so it need not return: the
  loops are partial functions with an \<open>option\<close> result, \<open>None\<close> for a loop that never
  returns.  The total functions \<open>first_accepted\<close> and \<open>text_entry\<close> are their
  specifications: the first entry of the input that is accepted, and \<open>None\<close> exactly when
  the input ends before one.

  A variable that the code reads although no call has written it, and an array that
  \<^verbatim>\<open>fgets\<close> writes past its end, are the two values of \<open>fault\<close>; the behaviour of the C
  program is undefined from there on.
\<close>

section \<open>Standard input\<close>

definition fgets :: "nat \<Rightarrow> string \<Rightarrow> (string \<times> string) option" where
  "fgets n inp =
     (if inp = [] then None
      else let k = min (n - 1) (Suc (length (takeWhile (\<lambda>c. c \<noteq> CHR 0x0A) inp)))
           in Some (take k inp, drop k inp))"

definition cut_newline :: "string \<Rightarrow> string" where
  "cut_newline buffer = takeWhile (\<lambda>c. c \<noteq> CHR 0x0A \<and> c \<noteq> NUL) buffer"

definition clearInputBuffer :: "string \<Rightarrow> string" where
  "clearInputBuffer inp = drop 1 (dropWhile (\<lambda>c. c \<noteq> CHR 0x0A) inp)"

definition scanf_d_unread :: "string \<Rightarrow> string" where
  "scanf_d_unread inp = snd (skip_sign (dropWhile is_space inp))"

definition scanf_c :: "string \<Rightarrow> (char \<times> string) option" where
  "scanf_c inp = (case dropWhile is_space inp of [] \<Rightarrow> None | c # rest \<Rightarrow> Some (c, rest))"

datatype fault = ArrayOverrun | UninitialisedRead

text \<open>
  The array and the unread input after \<^verbatim>\<open>fgets(array, n, stdin)\<close> on an array of \<open>cap\<close>
  elements whose content is then read: \<open>array\<close> is its content before the call, \<open>None\<close>
  when nothing has been stored in it.
\<close>

definition fgets_into :: "nat \<Rightarrow> nat \<Rightarrow> string option \<Rightarrow> string \<Rightarrow> fault + string \<times> string" where
  "fgets_into n cap array inp =
     (case fgets n inp of
        None \<Rightarrow> (case array of None \<Rightarrow> Inl UninitialisedRead | Some buffer \<Rightarrow> Inr (buffer, inp))
      | Some (got, rest) \<Rightarrow> if cap < length got + 1 then Inl ArrayOverrun else Inr (got, rest))"

type_synonym 'a reader = "string \<Rightarrow> hms \<Rightarrow> ('a \<times> string \<times> hms) option"
type_synonym 'a faulty_reader = "string \<Rightarrow> hms \<Rightarrow> (fault + 'a \<times> string \<times> hms) option"

section \<open>The input loops of an admission\<close>

text \<open>
  The array \<^verbatim>\<open>patientName\<close> of \<^verbatim>\<open>addPatientRecord\<close> has \<^verbatim>\<open>MAX_PATIENT_NAME_LENGTH\<close> elements
  and no initial value; \<^verbatim>\<open>fgets\<close> is called with the size 101.
\<close>

partial_function (option) getPatientName :: "limits \<Rightarrow> string option \<Rightarrow> string faulty_reader" where
  "getPatientName L patientName inp s =
     (let s1 = say (Printf ''Enter Patient Name:\<newline>'') s in
      case fgets_into 101 (MAX_PATIENT_NAME_LENGTH L) patientName inp of
        Inl f \<Rightarrow> Some (Inl f)
      | Inr (buffer, rest) \<Rightarrow>
          if validatePatientName L (cut_newline buffer) = IS_VALID
          then Some (Inr (cut_newline buffer, rest, s1))
          else getPatientName L (Some (cut_newline buffer)) rest
                 (say (Printf ''Invalid patient name. Please try again.\<newline>'') s1))"

partial_function (option) getPatientAge :: "limits \<Rightarrow> cint reader" where
  "getPatientAge L inp s =
     (let s1 = say (Printf ''Enter Patient Age:\<newline>'') s in
      case scanf_d inp of
        None \<Rightarrow>
          getPatientAge L (clearInputBuffer (scanf_d_unread inp))
            (say (Printf ''Invalid input. Please enter a number.\<newline>'') s1)
      | Some (patientAge, rest) \<Rightarrow>
          if validatePatientAge L patientAge = IS_VALID
          then Some (patientAge, clearInputBuffer rest, s1)
          else getPatientAge L (clearInputBuffer rest)
                 (say (Printf ''Invalid patient age. Please try again.\<newline>'') s1))"

partial_function (option) getPatientDiagnosis ::
  "limits \<Rightarrow> string option \<Rightarrow> string faulty_reader" where
  "getPatientDiagnosis L patientDiagnosis inp s =
     (let s1 = say (Printf ''Enter Patient Diagnosis:\<newline>'') s in
      case fgets_into (MAX_DIAGNOSIS_LENGTH L) (MAX_DIAGNOSIS_LENGTH L) patientDiagnosis inp of
        Inl f \<Rightarrow> Some (Inl f)
      | Inr (buffer, rest) \<Rightarrow>
          if validatePatientDiagnosis L (cut_newline buffer) = IS_VALID
          then Some (Inr (cut_newline buffer, rest, s1))
          else getPatientDiagnosis L (Some (cut_newline buffer)) rest
                 (say (Printf ''Invalid diagnosis. Please try again.\<newline>'') s1))"

partial_function (option) getRoomNumber :: "limits \<Rightarrow> cint reader" where
  "getRoomNumber L inp s =
     (let s1 = say (Printf ''Enter Patient Room:\<newline>'') s in
      case scanf_d inp of
        None \<Rightarrow>
          getRoomNumber L (clearInputBuffer (scanf_d_unread inp))
            (say (Printf ''Invalid input. Please enter a number.\<newline>'') s1)
      | Some (roomNo, rest) \<Rightarrow>
          if validateRoomNumber L roomNo \<noteq> IS_VALID
          then getRoomNumber L (clearInputBuffer rest)
                 (say (Printf ''Invalid room number. Please try again.\<newline>'') s1)
          else if isRoomOccupiedInList roomNo (patientHead s1) \<noteq> ROOM_UNOCCUPIED
          then getRoomNumber L (clearInputBuffer rest)
                 (say (Printf ''Room already occupied. Please choose another room.\<newline>'') s1)
          else Some (roomNo, clearInputBuffer rest, s1))"


section \<open>How much a read consumes\<close>

lemma length_clearInputBuffer: "length (clearInputBuffer inp) \<le> length inp"
  using length_dropWhile_le [of "\<lambda>c. c \<noteq> CHR 0x0A" inp] by (simp add: clearInputBuffer_def)

lemma clearInputBuffer_shorter:
  assumes "inp \<noteq> []"
  shows "length (clearInputBuffer inp) < length inp"
proof -
  let ?d = "dropWhile (\<lambda>c. c \<noteq> CHR 0x0A) inp"
  have "length (clearInputBuffer inp) = length ?d - 1" by (simp add: clearInputBuffer_def)
  moreover have "length ?d \<le> length inp" by (rule length_dropWhile_le)
  moreover from assms have "0 < length inp" by simp
  ultimately show ?thesis by linarith
qed

lemma clearInputBuffer_Nil [simp]: "clearInputBuffer [] = []"
  by (simp add: clearInputBuffer_def)

lemma length_scanf_d_unread: "length (scanf_d_unread inp) \<le> length inp"
  using skip_sign_length [of "dropWhile is_space inp"] length_dropWhile_le [of is_space inp]
  by (simp add: scanf_d_unread_def)

lemma scanf_d_unread_Nil [simp]: "scanf_d_unread [] = []"
  by (simp add: scanf_d_unread_def skip_sign_def)

lemma failed_scan_shorter:
  assumes "inp \<noteq> []"
  shows "length (clearInputBuffer (scanf_d_unread inp)) < length inp"
proof (cases "scanf_d_unread inp = []")
  case True
  with assms show ?thesis by simp
next
  case False
  from clearInputBuffer_shorter [OF False] length_scanf_d_unread [of inp]
  show ?thesis by linarith
qed

lemma scan_shorter:
  assumes "scanf_d inp = Some (n, rest)"
  shows "length (clearInputBuffer rest) < length inp"
  using scanf_d_shorter [OF assms] length_clearInputBuffer [of rest] by linarith

lemma fgets_Nil [simp]: "fgets n [] = None"
  by (simp add: fgets_def)

lemma fgets_None_iff [simp]: "fgets n inp = None \<longleftrightarrow> inp = []"
  by (simp add: fgets_def Let_def)

lemma fgets_split: "fgets n inp = Some (got, rest) \<Longrightarrow> inp = got @ rest"
  by (auto simp: fgets_def Let_def split: if_splits)

lemma fgets_shorter:
  "fgets n inp = Some (got, rest) \<Longrightarrow> 2 \<le> n \<Longrightarrow> length rest < length inp"
  by (cases inp) (auto simp: fgets_def Let_def min_def split: if_splits)

lemma fgets_length: "fgets n inp = Some (got, rest) \<Longrightarrow> length got \<le> n - 1"
  by (auto simp: fgets_def Let_def split: if_splits)

lemma cut_newline_idem [simp]: "cut_newline (cut_newline b) = cut_newline b"
  by (simp add: cut_newline_def)

lemma cut_newline_clean:
  "CHR 0x0A \<notin> set (cut_newline b)" "NUL \<notin> set (cut_newline b)"
  by (auto simp: cut_newline_def dest: set_takeWhileD)

lemma length_cut_newline: "length (cut_newline b) \<le> length b"
  by (simp add: cut_newline_def length_takeWhile_le)

section \<open>The specification of a numeric entry\<close>

text \<open>
  The first number of the input that \<open>ok\<close> accepts, with the input after its line.  A
  failed conversion and a rejected number both discard the rest of the line.
\<close>

function first_accepted :: "(cint \<Rightarrow> bool) \<Rightarrow> string \<Rightarrow> (cint \<times> string) option" where
  "first_accepted ok inp =
     (if inp = [] then None
      else case scanf_d inp of
        None \<Rightarrow> first_accepted ok (clearInputBuffer (scanf_d_unread inp))
      | Some (n, rest) \<Rightarrow>
          if ok n then Some (n, clearInputBuffer rest)
          else first_accepted ok (clearInputBuffer rest))"
  by pat_completeness auto
termination
  by (relation "measure (\<lambda>(ok, inp). length inp)")
     (auto intro: failed_scan_shorter scan_shorter)

declare first_accepted.simps [simp del]

lemma first_accepted_step:
  "first_accepted ok [] = None"
  "inp \<noteq> [] \<Longrightarrow> scanf_d inp = None \<Longrightarrow>
     first_accepted ok inp = first_accepted ok (clearInputBuffer (scanf_d_unread inp))"
  "scanf_d inp = Some (n, rest) \<Longrightarrow> ok n \<Longrightarrow>
     first_accepted ok inp = Some (n, clearInputBuffer rest)"
  "scanf_d inp = Some (n, rest) \<Longrightarrow> \<not> ok n \<Longrightarrow>
     first_accepted ok inp = first_accepted ok (clearInputBuffer rest)"
  by (subst first_accepted.simps, auto simp: scanf_d_Nil)+

lemma first_accepted_ok: "first_accepted ok inp = Some (n, rest) \<Longrightarrow> ok n"
  by (induction ok inp rule: first_accepted.induct)
     (subst (asm) first_accepted.simps, auto split: if_splits option.splits)

text \<open>
  A loop that at the end of the input does not return, and whose iteration discards
  the line of a failed conversion or of a rejected number and returns an accepted
  number, returns what \<open>first_accepted\<close> says.  \<open>I\<close> is what the loop keeps true of the
  state.
\<close>

definition entry_of :: "('a \<times> string \<times> hms) option \<Rightarrow> ('a \<times> string) option" where
  "entry_of = map_option (\<lambda>(n, rest, s). (n, rest))"

lemma entry_of_simps [simp]:
  "entry_of None = None" "entry_of (Some (n, rest, s)) = Some (n, rest)"
  by (simp_all add: entry_of_def)

lemma number_loop:
  fixes f :: "cint reader"
  assumes eof: "\<And>s. f [] s = None"
    and failed: "\<And>inp s. I s \<Longrightarrow> scanf_d inp = None \<Longrightarrow>
          f inp s = f (clearInputBuffer (scanf_d_unread inp)) (retry s)"
    and accepted: "\<And>inp s n rest. I s \<Longrightarrow> scanf_d inp = Some (n, rest) \<Longrightarrow> ok n \<Longrightarrow>
          f inp s = Some (n, clearInputBuffer rest, prompted s)"
    and rejected: "\<And>inp s n rest. I s \<Longrightarrow> scanf_d inp = Some (n, rest) \<Longrightarrow> \<not> ok n \<Longrightarrow>
          f inp s = f (clearInputBuffer rest) (complain n s)"
    and keeps: "\<And>s n. I s \<Longrightarrow> I (retry s) \<and> I (complain n s) \<and> I (prompted s)"
  shows "I s \<Longrightarrow> entry_of (f inp s) = first_accepted ok inp \<and>
                (\<forall>r. f inp s = Some r \<longrightarrow> I (snd (snd r)))"
proof (induction inp arbitrary: s rule: length_induct)
  case (1 inp)
  show ?case
  proof (cases "inp = []")
    case True
    then show ?thesis by (simp add: eof first_accepted_step(1))
  next
    case False
    show ?thesis
    proof (cases "scanf_d inp")
      case None
      from "1.prems" keeps have "I (retry s)" by blast
      with "1.IH" failed_scan_shorter [OF False] failed [OF "1.prems" None] show ?thesis
        by (simp add: first_accepted_step(2) [OF False None])
    next
      case (Some r)
      then obtain n rest where r: "scanf_d inp = Some (n, rest)" by (cases r) simp
      show ?thesis
      proof (cases "ok n")
        case True
        from "1.prems" keeps have "I (prompted s)" by blast
        with accepted [OF "1.prems" r True] show ?thesis
          by (simp add: first_accepted_step(3) [where ok = ok, OF r True])
      next
        case False
        from "1.prems" keeps have "I (complain n s)" by blast
        with "1.IH" scan_shorter [OF r] rejected [OF "1.prems" r False] show ?thesis
          by (simp add: first_accepted_step(4) [where ok = ok, OF r False])
      qed
    qed
  qed
qed

section \<open>A valid entry is reached\<close>

text \<open>
  Input that ends a line: every read that begins in it ends in it, because the
  newline is neither a digit nor a sign, and \<open>clearInputBuffer\<close> stops at it.
\<close>

definition ends_line :: "string \<Rightarrow> bool" where
  "ends_line x \<longleftrightarrow> x \<noteq> [] \<and> last x = CHR 0x0A"

lemma newline_class [simp]: "is_space (CHR 0x0A)" "\<not> is_digit (CHR 0x0A)"
  by (simp_all add: is_space_def is_digit_def)

lemma ends_line_mem: "ends_line x \<Longrightarrow> CHR 0x0A \<in> set x"
  by (auto simp: ends_line_def dest: last_in_set)

lemma ends_line_suffix: "ends_line (p @ r) \<Longrightarrow> r \<noteq> [] \<Longrightarrow> ends_line r"
  by (simp add: ends_line_def)

lemma ends_line_dropWhile:
  assumes "ends_line x" and "\<not> P (CHR 0x0A)"
  shows "ends_line (dropWhile P x)"
proof -
  from assms ends_line_mem [OF assms(1)] have "dropWhile P x \<noteq> []" by auto
  moreover from assms(1) have "ends_line (takeWhile P x @ dropWhile P x)" by simp
  ultimately show ?thesis by (rule ends_line_suffix [rotated])
qed

lemma clearInputBuffer_append:
  assumes "ends_line x"
  shows "clearInputBuffer (x @ e) = clearInputBuffer x @ e"
proof -
  let ?d = "dropWhile (\<lambda>c. c \<noteq> CHR 0x0A) x"
  from ends_line_dropWhile [OF assms, of "\<lambda>c. c \<noteq> CHR 0x0A"] have "?d \<noteq> []"
    by (simp add: ends_line_def)
  moreover from ends_line_mem [OF assms]
  have "dropWhile (\<lambda>c. c \<noteq> CHR 0x0A) (x @ e) = ?d @ e" by (simp add: dropWhile_append1)
  ultimately show ?thesis by (cases ?d) (simp_all add: clearInputBuffer_def)
qed

lemma clearInputBuffer_ends:
  assumes "ends_line x"
  shows "clearInputBuffer x = [] \<or> ends_line (clearInputBuffer x)"
proof -
  let ?k = "Suc (length (takeWhile (\<lambda>c. c \<noteq> CHR 0x0A) x))"
  have "clearInputBuffer x = drop ?k x" by (simp add: clearInputBuffer_def dropWhile_eq_drop)
  then have "x = take ?k x @ clearInputBuffer x" by simp
  with assms ends_line_suffix [of "take ?k x" "clearInputBuffer x"] show ?thesis by auto
qed

lemma skip_sign_append:
  "x \<noteq> [] \<Longrightarrow> skip_sign (x @ e) = (fst (skip_sign x), snd (skip_sign x) @ e)"
  by (cases x) (simp_all add: skip_sign_def)

lemma ends_line_skip_sign:
  assumes "ends_line x" and "\<not> is_space (hd x)"
  shows "ends_line (snd (skip_sign x))"
proof (cases x)
  case Nil
  with assms show ?thesis by (simp add: ends_line_def)
next
  case (Cons c tl)
  with assms have "c \<noteq> CHR 0x0A" by auto
  with assms Cons have "ends_line tl" by (auto simp: ends_line_def split: if_splits)
  with assms Cons show ?thesis by (simp add: skip_sign_def)
qed

lemma scan_within_line:
  assumes "ends_line pre" and "\<not> list_all is_space pre"
  shows "scanf_d (pre @ e) = map_option (\<lambda>(n, r). (n, r @ e)) (scanf_d pre)"
    and "scanf_d_unread (pre @ e) = scanf_d_unread pre @ e"
    and "ends_line (scanf_d_unread pre)"
    and "scanf_d pre = Some (n, r) \<Longrightarrow> ends_line r"
proof -
  let ?x = "dropWhile is_space pre"
  let ?y = "snd (skip_sign ?x)"
  from assms(2) obtain c where c: "c \<in> set pre" "\<not> is_space c" by (auto simp: list_all_iff)
  then have x: "dropWhile is_space (pre @ e) = ?x @ e" by (simp add: dropWhile_append1)
  from c have ne: "?x \<noteq> []" by auto
  then have hd: "\<not> is_space (hd ?x)" by (rule hd_dropWhile)
  from ne assms(1) have "ends_line (takeWhile is_space pre @ ?x)" by simp
  with ne have "ends_line ?x" by (rule ends_line_suffix [rotated])
  then have y: "ends_line ?y" using hd by (rule ends_line_skip_sign)
  from ne have s: "skip_sign (?x @ e) = (fst (skip_sign ?x), ?y @ e)" by (rule skip_sign_append)
  from ends_line_mem [OF y]
  have t: "takeWhile is_digit (?y @ e) = takeWhile is_digit ?y"
    and d: "dropWhile is_digit (?y @ e) = dropWhile is_digit ?y @ e"
    by (simp_all add: takeWhile_append1 dropWhile_append1)
  from x s t d show "scanf_d (pre @ e) = map_option (\<lambda>(n, r). (n, r @ e)) (scanf_d pre)"
    by (simp add: scanf_d_def Let_def split_beta)
  from x s show "scanf_d_unread (pre @ e) = scanf_d_unread pre @ e"
    by (simp add: scanf_d_unread_def)
  from y show "ends_line (scanf_d_unread pre)" by (simp add: scanf_d_unread_def)
  from ends_line_dropWhile [OF y, of is_digit] show "ends_line r" if "scanf_d pre = Some (n, r)"
    using that by (auto simp: scanf_d_def Let_def split_beta split: if_splits)
qed

lemma scanf_d_skip_spaces: "list_all is_space pre \<Longrightarrow> scanf_d (pre @ e) = scanf_d e"
  by (induction pre) (simp_all add: scanf_d_skip_space)

lemma first_accepted_reaches:
  assumes "scanf_d entry = Some (v, r)" and "ok v"
  shows "pre = [] \<or> ends_line pre \<Longrightarrow> first_accepted ok (pre @ entry) \<noteq> None"
proof (induction pre rule: length_induct)
  case (1 pre)
  from assms(1) have entry: "entry \<noteq> []" by (auto simp: scanf_d_Nil)
  show ?case
  proof (cases "list_all is_space pre")
    case True
    with assms have "scanf_d (pre @ entry) = Some (v, r)" by (simp add: scanf_d_skip_spaces)
    with assms(2) show ?thesis by (simp add: first_accepted_step(3) [where ok = ok])
  next
    case False
    with "1.prems" have pre: "ends_line pre" by auto
    note w = scan_within_line(1,2) [OF pre False, of entry]
      scan_within_line(3,4) [OF pre False]
    have next_line: "first_accepted ok (clearInputBuffer x @ entry) \<noteq> None"
      if "ends_line x" "length x \<le> length pre" for x
    proof -
      from that(1) have "x \<noteq> []" by (simp add: ends_line_def)
      from clearInputBuffer_shorter [OF this] that(2)
      have "length (clearInputBuffer x) < length pre" by simp
      with "1.IH" clearInputBuffer_ends [OF that(1)] show ?thesis by blast
    qed
    show ?thesis
    proof (cases "scanf_d pre")
      case None
      with w(1) have "scanf_d (pre @ entry) = None" by simp
      with entry w(2) have "first_accepted ok (pre @ entry)
          = first_accepted ok (clearInputBuffer (scanf_d_unread pre @ entry))"
        by (simp add: first_accepted_step(2))
      with next_line [OF w(3) length_scanf_d_unread] show ?thesis
        by (simp add: clearInputBuffer_append [OF w(3)])
    next
      case (Some a)
      then obtain n r' where a: "scanf_d pre = Some (n, r')" by (cases a) simp
      with w(1) have s: "scanf_d (pre @ entry) = Some (n, r' @ entry)" by simp
      from w(4) [OF a] have e: "ends_line r'" .
      from scanf_d_shorter [OF a] have l: "length r' \<le> length pre" by simp
      show ?thesis
      proof (cases "ok n")
        case True
        with s show ?thesis by (simp add: first_accepted_step(3) [where ok = ok])
      next
        case False
        with s next_line [OF e l] show ?thesis
          by (simp add: first_accepted_step(4) [where ok = ok] clearInputBuffer_append [OF e])
      qed
    qed
  qed
qed

section \<open>The age and the room\<close>

lemma getPatientAge_step:
  "scanf_d inp = None \<Longrightarrow>
     getPatientAge L inp s =
       getPatientAge L (clearInputBuffer (scanf_d_unread inp))
         (say (Printf ''Invalid input. Please enter a number.\<newline>'')
            (say (Printf ''Enter Patient Age:\<newline>'') s))"
  "scanf_d inp = Some (n, rest) \<Longrightarrow> validatePatientAge L n = IS_VALID \<Longrightarrow>
     getPatientAge L inp s =
       Some (n, clearInputBuffer rest, say (Printf ''Enter Patient Age:\<newline>'') s)"
  "scanf_d inp = Some (n, rest) \<Longrightarrow> validatePatientAge L n \<noteq> IS_VALID \<Longrightarrow>
     getPatientAge L inp s =
       getPatientAge L (clearInputBuffer rest)
         (say (Printf ''Invalid patient age. Please try again.\<newline>'')
            (say (Printf ''Enter Patient Age:\<newline>'') s))"
  by (subst getPatientAge.simps, simp add: Let_def)+

lemma getPatientAge_eof: "getPatientAge L [] s = None"
proof -
  have "inp \<noteq> []" if "getPatientAge L inp s = Some r" for inp r
  proof (rule getPatientAge.raw_induct [where P = "\<lambda>L inp s r. inp \<noteq> []", OF _ that], goal_cases)
    case (1 f L inp s r)
    show ?case
    proof
      assume "inp = []"
      with 1(2) 1(1) [of L "[]"] show False by (simp add: scanf_d_Nil Let_def)
    qed
  qed
  then show ?thesis by (cases "getPatientAge L [] s") auto
qed

text \<open>An input loop changes nothing but the console.\<close>

definition quiet :: "hms \<Rightarrow> hms \<Rightarrow> bool" where
  "quiet s s' \<longleftrightarrow>
     patientHead s' = patientHead s \<and> totalPatients s' = totalPatients s \<and>
     patientIDCounter s' = patientIDCounter s \<and> files s' = files s"

lemma quiet_refl [simp]: "quiet s s"
  by (simp add: quiet_def)

lemma quiet_say [simp]: "quiet s (say ev s') = quiet s s'"
  by (simp add: quiet_def)

lemma quiet_trans: "quiet s s1 \<Longrightarrow> quiet s1 s2 \<Longrightarrow> quiet s s2"
  by (simp add: quiet_def)

lemma quiet_store_inv: "quiet s s' \<Longrightarrow> store_inv L s' = store_inv L s"
  using invariants_cong(1-3) [of s' s] invariants_cong(4) [of s' s L]
  by (simp add: quiet_def store_inv_def)

lemma getPatientAge_loop:
  "entry_of (getPatientAge L inp s) =
     first_accepted (\<lambda>n. validatePatientAge L n = IS_VALID) inp \<and>
   (\<forall>r. getPatientAge L inp s = Some r \<longrightarrow> quiet s (snd (snd r)))"
  by (rule number_loop [where I = "quiet s" and f = "getPatientAge L"
        and prompted = "say (Printf ''Enter Patient Age:\<newline>'')"
        and retry = "\<lambda>s. say (Printf ''Invalid input. Please enter a number.\<newline>'')
                     (say (Printf ''Enter Patient Age:\<newline>'') s)"
        and complain = "\<lambda>n s. say (Printf ''Invalid patient age. Please try again.\<newline>'')
                     (say (Printf ''Enter Patient Age:\<newline>'') s)"])
     (simp_all add: getPatientAge_eof getPatientAge_step)

lemmas getPatientAge_first_accepted = getPatientAge_loop [THEN conjunct1]

lemma getPatientAge_quiet: "getPatientAge L inp s = Some (n, rest, s') \<Longrightarrow> quiet s s'"
  using getPatientAge_loop [of L inp s] by simp

definition room_free :: "limits \<Rightarrow> Patient list \<Rightarrow> cint \<Rightarrow> bool" where
  "room_free L ps n \<longleftrightarrow>
     validateRoomNumber L n = IS_VALID \<and> isRoomOccupiedInList n ps = ROOM_UNOCCUPIED"

lemma getRoomNumber_step:
  "scanf_d inp = None \<Longrightarrow>
     getRoomNumber L inp s =
       getRoomNumber L (clearInputBuffer (scanf_d_unread inp))
         (say (Printf ''Invalid input. Please enter a number.\<newline>'')
            (say (Printf ''Enter Patient Room:\<newline>'') s))"
  "scanf_d inp = Some (n, rest) \<Longrightarrow> room_free L (patientHead s) n \<Longrightarrow>
     getRoomNumber L inp s =
       Some (n, clearInputBuffer rest, say (Printf ''Enter Patient Room:\<newline>'') s)"
  "scanf_d inp = Some (n, rest) \<Longrightarrow> validateRoomNumber L n \<noteq> IS_VALID \<Longrightarrow>
     getRoomNumber L inp s =
       getRoomNumber L (clearInputBuffer rest)
         (say (Printf ''Invalid room number. Please try again.\<newline>'')
            (say (Printf ''Enter Patient Room:\<newline>'') s))"
  "scanf_d inp = Some (n, rest) \<Longrightarrow> validateRoomNumber L n = IS_VALID \<Longrightarrow>
   isRoomOccupiedInList n (patientHead s) \<noteq> ROOM_UNOCCUPIED \<Longrightarrow>
     getRoomNumber L inp s =
       getRoomNumber L (clearInputBuffer rest)
         (say (Printf ''Room already occupied. Please choose another room.\<newline>'')
            (say (Printf ''Enter Patient Room:\<newline>'') s))"
  by (subst getRoomNumber.simps, simp add: Let_def room_free_def)+

lemma getRoomNumber_eof: "getRoomNumber L [] s = None"
proof -
  have "inp \<noteq> []" if "getRoomNumber L inp s = Some r" for inp r
  proof (rule getRoomNumber.raw_induct [where P = "\<lambda>L inp s r. inp \<noteq> []", OF _ that], goal_cases)
    case (1 f L inp s r)
    show ?case
    proof
      assume "inp = []"
      with 1(2) 1(1) [of L "[]"] show False by (simp add: scanf_d_Nil Let_def)
    qed
  qed
  then show ?thesis by (cases "getRoomNumber L [] s") auto
qed

lemma getRoomNumber_loop:
  "entry_of (getRoomNumber L inp s) = first_accepted (room_free L (patientHead s)) inp \<and>
   (\<forall>r. getRoomNumber L inp s = Some r \<longrightarrow> quiet s (snd (snd r)))"
proof (rule number_loop [where I = "quiet s" and f = "getRoomNumber L"
      and prompted = "say (Printf ''Enter Patient Room:\<newline>'')"
      and retry = "\<lambda>s. say (Printf ''Invalid input. Please enter a number.\<newline>'')
                     (say (Printf ''Enter Patient Room:\<newline>'') s)"
      and complain = "\<lambda>n s. say (Printf (if validateRoomNumber L n \<noteq> IS_VALID
            then ''Invalid room number. Please try again.\<newline>''
            else ''Room already occupied. Please choose another room.\<newline>''))
          (say (Printf ''Enter Patient Room:\<newline>'') s)"], goal_cases)
  case (3 inp s' n rest)
  then show ?case by (simp add: getRoomNumber_step(2) quiet_def)
next
  case (4 inp s' n rest)
  then show ?case
    by (cases "validateRoomNumber L n = IS_VALID")
       (simp_all add: getRoomNumber_step(3,4) room_free_def quiet_def)
qed (simp_all add: getRoomNumber_eof getRoomNumber_step(1))

lemmas getRoomNumber_first_accepted = getRoomNumber_loop [THEN conjunct1]

lemma getRoomNumber_quiet: "getRoomNumber L inp s = Some (n, rest, s') \<Longrightarrow> quiet s s'"
  using getRoomNumber_loop [of L inp s] by simp

section \<open>The specification of a text entry\<close>

text \<open>
  The first line (or piece of a line of \<open>n - 1\<close> characters) that \<open>ok\<close> accepts.  At the
  end of the input the array keeps the rejected text of the iteration before, so the
  loop does not return.
\<close>

function text_entry ::
  "nat \<Rightarrow> nat \<Rightarrow> (string \<Rightarrow> bool) \<Rightarrow> string option \<Rightarrow> string \<Rightarrow> (fault + string \<times> string) option"
where
  "text_entry n cap ok array inp =
     (case fgets_into n cap array inp of
        Inl f \<Rightarrow> Some (Inl f)
      | Inr (buffer, rest) \<Rightarrow>
          if ok (cut_newline buffer) then Some (Inr (cut_newline buffer, rest))
          else if inp = [] \<or> n < 2 then None
          else text_entry n cap ok (Some (cut_newline buffer)) rest)"
  by pat_completeness auto
termination
proof (relation "measure (\<lambda>(n, cap, ok, array, inp). length inp)", goal_cases)
  case (2 n cap ok array inp r buffer rest)
  then have "fgets n inp = Some (buffer, rest)"
    by (auto simp: fgets_into_def split: option.splits if_splits)
  with 2 fgets_shorter [of n inp buffer rest] show ?case by simp
qed simp

declare text_entry.simps [simp del]

definition text_of :: "(fault + 'a \<times> string \<times> hms) option \<Rightarrow> (fault + 'a \<times> string) option" where
  "text_of = map_option (map_sum id (\<lambda>(x, rest, s). (x, rest)))"

lemma text_of_simps [simp]:
  "text_of None = None" "text_of (Some (Inl f)) = Some (Inl f)"
  "text_of (Some (Inr (x, rest, s))) = Some (Inr (x, rest))"
  by (simp_all add: text_of_def)

lemma fgets_into_Nil [simp]:
  "fgets_into n cap array [] = (case array of None \<Rightarrow> Inl UninitialisedRead | Some b \<Rightarrow> Inr (b, []))"
  by (simp add: fgets_into_def)

lemma fgets_into_shorter:
  "fgets_into n cap array inp = Inr (buffer, rest) \<Longrightarrow> inp \<noteq> [] \<Longrightarrow> 2 \<le> n \<Longrightarrow>
     length rest < length inp"
  using fgets_shorter [of n inp buffer rest]
  by (auto simp: fgets_into_def split: option.splits if_splits)

lemma text_entry_eof: "\<not> ok (cut_newline b) \<Longrightarrow> text_entry n cap ok (Some b) [] = None"
  by (subst text_entry.simps) simp

lemma text_loop:
  fixes f :: "string option \<Rightarrow> string faulty_reader"
  assumes eof: "\<And>b s. \<not> ok (cut_newline b) \<Longrightarrow> f (Some b) [] s = None"
    and step: "\<And>array inp s. f array inp s =
          (case fgets_into n cap array inp of
             Inl e \<Rightarrow> Some (Inl e)
           | Inr (buffer, rest) \<Rightarrow>
               if ok (cut_newline buffer) then Some (Inr (cut_newline buffer, rest, prompted s))
               else f (Some (cut_newline buffer)) rest (complain s))"
    and n: "2 \<le> n"
    and keeps: "\<And>s. I s \<Longrightarrow> I (prompted s) \<and> I (complain s)"
  shows "I s \<Longrightarrow> text_of (f array inp s) = text_entry n cap ok array inp \<and>
                (\<forall>r. f array inp s = Some (Inr r) \<longrightarrow> I (snd (snd r)))"
proof (induction inp arbitrary: array s rule: length_induct)
  case (1 inp)
  show ?case
  proof (cases "fgets_into n cap array inp")
    case (Inl e)
    then show ?thesis by (simp add: step [of array inp] text_entry.simps [of n cap ok array inp])
  next
    case (Inr r)
    then obtain buffer rest where r: "fgets_into n cap array inp = Inr (buffer, rest)"
      by (cases r) simp
    show ?thesis
    proof (cases "ok (cut_newline buffer)")
      case True
      from "1.prems" keeps have "I (prompted s)" by blast
      with True r show ?thesis
        by (simp add: step [of array inp] text_entry.simps [of n cap ok array inp])
    next
      case False
      show ?thesis
      proof (cases "inp = []")
        case True
        with r have "array = Some buffer" by (simp split: option.splits)
        with True False eof [of buffer s] show ?thesis
          by (simp add: text_entry_eof)
      next
        case nonempty: False
        from "1.prems" keeps have "I (complain s)" by blast
        with "1.IH" fgets_into_shorter [OF r nonempty n]
        have "text_of (f (Some (cut_newline buffer)) rest (complain s))
            = text_entry n cap ok (Some (cut_newline buffer)) rest \<and>
          (\<forall>r. f (Some (cut_newline buffer)) rest (complain s) = Some (Inr r)
                 \<longrightarrow> I (snd (snd r)))" by blast
        with r False nonempty n show ?thesis
          by (simp add: step [of array inp] text_entry.simps [of n cap ok array inp])
      qed
    qed
  qed
qed

text \<open>What an entry that was returned satisfies: it came from a read that fitted the array.\<close>

lemma text_entry_result:
  assumes "text_entry n cap ok array inp = Some (Inr (x, rest))"
    and "array = None \<or> (\<exists>b. array = Some b \<and> length b < cap)"
  shows "ok x \<and> length x < cap \<and> NUL \<notin> set x \<and> CHR 0x0A \<notin> set x"
  using assms
proof (induction n cap ok array inp rule: text_entry.induct)
  case (1 n cap ok array inp)
  from "1.prems"(1) obtain buffer r where f: "fgets_into n cap array inp = Inr (buffer, r)"
    by (subst (asm) text_entry.simps) (auto split: sum.splits)
  with "1.prems"(2) have fit: "length buffer < cap"
    by (auto simp: fgets_into_def split: option.splits if_splits)
  then have short: "length (cut_newline buffer) < cap"
    using length_cut_newline [of buffer] by simp
  show ?case
  proof (cases "ok (cut_newline buffer)")
    case True
    with "1.prems"(1) f have "x = cut_newline buffer"
      by (subst (asm) text_entry.simps) simp
    with True short cut_newline_clean [of buffer] show ?thesis by simp
  next
    case False
    with "1.prems"(1) f have more: "\<not> (inp = [] \<or> n < 2)"
      and "text_entry n cap ok (Some (cut_newline buffer)) r = Some (Inr (x, rest))"
      by (subst (asm) text_entry.simps, simp split: if_splits)+
    with "1.IH" [OF f refl False more] short show ?thesis by simp
  qed
qed

text \<open>A line that fits is read whole, and the entry is the line without its newline.\<close>

lemma takeWhile_until [simp]:
  "c \<notin> set line \<Longrightarrow> takeWhile (\<lambda>x. x \<noteq> c) (line @ c # rest) = line"
  by (induction line) auto

lemma fgets_line:
  assumes "CHR 0x0A \<notin> set line" and "length line + 1 < n"
  shows "fgets n (line @ CHR 0x0A # rest) = Some (line @ [CHR 0x0A], rest)"
proof -
  from assms(2) have "min (n - 1) (Suc (length line)) = Suc (length line)" by simp
  with assms(1) show ?thesis by (simp add: fgets_def Let_def)
qed

lemma fgets_long_line:
  assumes "CHR 0x0A \<notin> set line" and "n \<le> length line + 1"
  shows "fgets n (line @ CHR 0x0A # rest) =
           Some (take (n - 1) line, drop (n - 1) line @ CHR 0x0A # rest)"
proof -
  from assms(2) have "min (n - 1) (Suc (length line)) = n - 1" "n - 1 \<le> length line"
    by simp_all
  with assms(1) show ?thesis by (simp add: fgets_def Let_def)
qed

lemma cut_newline_line:
  "CHR 0x0A \<notin> set line \<Longrightarrow> NUL \<notin> set line \<Longrightarrow> cut_newline (line @ CHR 0x0A # rest) = line"
  unfolding cut_newline_def by (induction line) auto

lemma text_entry_line:
  assumes "CHR 0x0A \<notin> set line" and "NUL \<notin> set line" and "length line + 1 < n"
    and "length line + 1 < cap" and "ok line"
  shows "text_entry n cap ok array (line @ CHR 0x0A # rest) = Some (Inr (line, rest))"
  using assms cut_newline_line [of line "[]"]
  by (subst text_entry.simps) (simp add: fgets_into_def fgets_line)

text \<open>
  The array is overrun exactly when the piece read, with the newline if it was read
  and the terminating NUL, is longer than the array.  A read whose size argument is the
  size of the array never overruns it.
\<close>

lemma fgets_into_overrun:
  assumes "CHR 0x0A \<notin> set line"
  shows "fgets_into n cap array (line @ CHR 0x0A # rest) = Inl ArrayOverrun
           \<longleftrightarrow> cap \<le> min (n - 1) (length line + 1)"
proof (cases "length line + 1 < n")
  case True
  with assms show ?thesis by (auto simp: fgets_into_def fgets_line min_def)
next
  case False
  with assms show ?thesis by (auto simp: fgets_into_def fgets_long_line min_def)
qed

lemma fgets_into_fits:
  assumes "n \<le> cap" and "1 \<le> cap"
  shows "fgets_into n cap array inp \<noteq> Inl ArrayOverrun"
proof (cases "fgets n inp")
  case None
  then show ?thesis by (simp add: fgets_into_def split: option.splits)
next
  case (Some r)
  then obtain got rest where r: "fgets n inp = Some (got, rest)" by (cases r) simp
  from fgets_length [OF r] assms have "\<not> cap < length got + 1" by simp
  with r show ?thesis by (simp add: fgets_into_def)
qed

lemma text_entry_fits:
  shows "n \<le> cap \<Longrightarrow> 1 \<le> cap \<Longrightarrow> text_entry n cap ok array inp \<noteq> Some (Inl ArrayOverrun)"
proof (induction n cap ok array inp rule: text_entry.induct)
  case (1 n cap ok array inp)
  show ?case
  proof (cases "fgets_into n cap array inp")
    case (Inl e)
    with fgets_into_fits [OF "1.prems", of array inp] show ?thesis
      by (subst text_entry.simps) simp
  next
    case (Inr r)
    then obtain buffer rest where f: "fgets_into n cap array inp = Inr (buffer, rest)"
      by (cases r) simp
    show ?thesis
    proof (cases "ok (cut_newline buffer) \<or> inp = [] \<or> n < 2")
      case True
      with f show ?thesis by (subst text_entry.simps) auto
    next
      case False
      with f "1.IH" [OF f refl _ _ "1.prems"] show ?thesis
        by (subst text_entry.simps) simp
    qed
  qed
qed

section \<open>The name and the diagnosis\<close>

lemma getPatientName_eof:
  assumes "validatePatientName L (cut_newline b) \<noteq> IS_VALID"
  shows "getPatientName L (Some b) [] s = None"
proof -
  have "\<not> (inp = [] \<and> (\<exists>b. a = Some b \<and> validatePatientName L (cut_newline b) \<noteq> IS_VALID))"
    if "getPatientName L a inp s = Some r" for a inp r
  proof (rule getPatientName.raw_induct [where P = "\<lambda>L a inp s r.
      \<not> (inp = [] \<and> (\<exists>b. a = Some b \<and> validatePatientName L (cut_newline b) \<noteq> IS_VALID))",
      OF _ that], goal_cases)
    case (1 f L a inp s r)
    show ?case
    proof
      assume "inp = [] \<and> (\<exists>b. a = Some b \<and> validatePatientName L (cut_newline b) \<noteq> IS_VALID)"
      then obtain b where "inp = []" "a = Some b"
        "validatePatientName L (cut_newline b) \<noteq> IS_VALID" by blast
      with 1(2) 1(1) [of L "Some (cut_newline b)" "[]"] show False by (simp add: Let_def)
    qed
  qed
  with assms show ?thesis by (cases "getPatientName L (Some b) [] s") auto
qed

lemma getPatientDiagnosis_eof:
  assumes "validatePatientDiagnosis L (cut_newline b) \<noteq> IS_VALID"
  shows "getPatientDiagnosis L (Some b) [] s = None"
proof -
  have "\<not> (inp = [] \<and> (\<exists>b. a = Some b \<and> validatePatientDiagnosis L (cut_newline b) \<noteq> IS_VALID))"
    if "getPatientDiagnosis L a inp s = Some r" for a inp r
  proof (rule getPatientDiagnosis.raw_induct [where P = "\<lambda>L a inp s r.
      \<not> (inp = [] \<and> (\<exists>b. a = Some b \<and> validatePatientDiagnosis L (cut_newline b) \<noteq> IS_VALID))",
      OF _ that], goal_cases)
    case (1 f L a inp s r)
    show ?case
    proof
      assume "inp = [] \<and> (\<exists>b. a = Some b \<and> validatePatientDiagnosis L (cut_newline b) \<noteq> IS_VALID)"
      then obtain b where "inp = []" "a = Some b"
        "validatePatientDiagnosis L (cut_newline b) \<noteq> IS_VALID" by blast
      with 1(2) 1(1) [of L "Some (cut_newline b)" "[]"] show False by (simp add: Let_def)
    qed
  qed
  with assms show ?thesis by (cases "getPatientDiagnosis L (Some b) [] s") auto
qed

lemma getPatientName_loop:
  "text_of (getPatientName L array inp s) =
     text_entry 101 (MAX_PATIENT_NAME_LENGTH L) (\<lambda>x. validatePatientName L x = IS_VALID) array inp \<and>
   (\<forall>r. getPatientName L array inp s = Some (Inr r) \<longrightarrow> quiet s (snd (snd r)))"
proof (rule text_loop [where f = "getPatientName L" and I = "quiet s"
        and prompted = "say (Printf ''Enter Patient Name:\<newline>'')"
        and complain = "\<lambda>s. say (Printf ''Invalid patient name. Please try again.\<newline>'')
                          (say (Printf ''Enter Patient Name:\<newline>'') s)"], goal_cases)
  case (2 array inp s)
  show ?case by (subst getPatientName.simps) (simp add: Let_def)
qed (simp_all add: getPatientName_eof)

lemmas getPatientName_text_entry = getPatientName_loop [THEN conjunct1]

lemma getPatientName_quiet:
  "getPatientName L array inp s = Some (Inr (x, rest, s')) \<Longrightarrow> quiet s s'"
  using getPatientName_loop [of L array inp s] by simp

lemma getPatientDiagnosis_loop:
  assumes "2 \<le> MAX_DIAGNOSIS_LENGTH L"
  shows "text_of (getPatientDiagnosis L array inp s) =
     text_entry (MAX_DIAGNOSIS_LENGTH L) (MAX_DIAGNOSIS_LENGTH L)
       (\<lambda>x. validatePatientDiagnosis L x = IS_VALID) array inp \<and>
   (\<forall>r. getPatientDiagnosis L array inp s = Some (Inr r) \<longrightarrow> quiet s (snd (snd r)))"
proof (rule text_loop [where f = "getPatientDiagnosis L" and I = "quiet s"
        and prompted = "say (Printf ''Enter Patient Diagnosis:\<newline>'')"
        and complain = "\<lambda>s. say (Printf ''Invalid diagnosis. Please try again.\<newline>'')
                          (say (Printf ''Enter Patient Diagnosis:\<newline>'') s)"], goal_cases)
  case (2 array inp s)
  show ?case by (subst getPatientDiagnosis.simps) (simp add: Let_def)
qed (simp_all add: getPatientDiagnosis_eof assms)

lemmas getPatientDiagnosis_text_entry = getPatientDiagnosis_loop [THEN conjunct1]

lemma getPatientDiagnosis_quiet:
  "2 \<le> MAX_DIAGNOSIS_LENGTH L \<Longrightarrow>
   getPatientDiagnosis L array inp s = Some (Inr (x, rest, s')) \<Longrightarrow> quiet s s'"
  using getPatientDiagnosis_loop [of L array inp s] by simp

section \<open>The handlers with their input\<close>

text \<open>
  \<^verbatim>\<open>scanf("%d", &n); clearInputBuffer();\<close> into a variable without a value that is read
  afterwards, and the same for \<^verbatim>\<open>scanf(" %c", &c)\<close>.
\<close>

definition scan_int :: "string \<Rightarrow> fault + cint \<times> string" where
  "scan_int inp =
     (case scanf_d inp of
        None \<Rightarrow> Inl UninitialisedRead
      | Some (n, rest) \<Rightarrow> Inr (n, clearInputBuffer rest))"

definition scan_confirm :: "string \<Rightarrow> fault + char \<times> string" where
  "scan_confirm inp =
     (case scanf_c inp of
        None \<Rightarrow> Inl UninitialisedRead
      | Some (c, rest) \<Rightarrow> Inr (c, clearInputBuffer rest))"

text \<open>
  Sequencing of reads: the next read starts from the input and the state that the
  read before it left, unless that read did not return or ended in a fault.
\<close>

definition and_then ::
  "(fault + 'a \<times> string \<times> hms) option \<Rightarrow> ('a \<Rightarrow> string \<Rightarrow> hms \<Rightarrow> (fault + 'b) option)
     \<Rightarrow> (fault + 'b) option" where
  "and_then m k =
     (case m of
        None \<Rightarrow> None
      | Some (Inl f) \<Rightarrow> Some (Inl f)
      | Some (Inr (x, inp, s)) \<Rightarrow> k x inp s)"

definition no_fault :: "('a \<times> string \<times> hms) option \<Rightarrow> (fault + 'a \<times> string \<times> hms) option" where
  "no_fault = map_option Inr"

lemma and_then_simps [simp]:
  "and_then None k = None"
  "and_then (Some (Inl f)) k = Some (Inl f)"
  "and_then (Some (Inr (x, inp, s))) k = k x inp s"
  by (simp_all add: and_then_def)

lemma no_fault_simps [simp]:
  "no_fault None = None" "no_fault (Some r) = Some (Inr r)"
  by (simp_all add: no_fault_def)

lemma and_then_Inr_iff:
  "and_then m k = Some (Inr y) \<longleftrightarrow>
     (\<exists>x inp s. m = Some (Inr (x, inp, s)) \<and> k x inp s = Some (Inr y))"
  by (auto simp: and_then_def split: option.splits sum.splits)

lemma no_fault_Inr_iff: "no_fault m = Some (Inr r) \<longleftrightarrow> m = Some r"
  by (cases m) simp_all

text \<open>
  \<^verbatim>\<open>addPatientRecord\<close> from its first line: the four input loops fill the local
  variables, and the rest of the function runs with what they returned.  The clock and
  the outcomes of \<^verbatim>\<open>malloc\<close> and of the file operations are those of \<open>e\<close>.
\<close>

definition addPatientRecord_io ::
  "limits \<Rightarrow> add_env \<Rightarrow> string \<Rightarrow> hms \<Rightarrow> (fault + string \<times> hms) option" where
  "addPatientRecord_io L e inp s =
     and_then (getPatientName L None inp s) (\<lambda>patientName inp1 s1.
     and_then (no_fault (getPatientAge L inp1 s1)) (\<lambda>patientAge inp2 s2.
     and_then (getPatientDiagnosis L None inp2 s2) (\<lambda>patientDiagnosis inp3 s3.
     and_then (no_fault (getRoomNumber L inp3 s3)) (\<lambda>roomNo inp4 s4.
       Some (Inr (inp4,
         addPatientRecord L
           (e\<lparr>in_name := patientName, in_age := patientAge,
              in_diagnosis := patientDiagnosis, in_room := roomNo\<rparr>) s4))))))"

text \<open>
  \<^verbatim>\<open>searchPatientById\<close> and \<^verbatim>\<open>dischargePatient\<close> read after their test for an empty list;
  the confirmation is read only when the patient was found.
\<close>

definition searchPatientById_io :: "string \<Rightarrow> hms \<Rightarrow> fault + string \<times> hms" where
  "searchPatientById_io inp s =
     (if patientHead s = [] then Inr (inp, searchPatientById 0 s)
      else case scan_int inp of
        Inl f \<Rightarrow> Inl f
      | Inr (ident, rest) \<Rightarrow> Inr (rest, searchPatientById ident s))"

definition dischargePatient_io ::
  "limits \<Rightarrow> discharge_env \<Rightarrow> string \<Rightarrow> hms \<Rightarrow> fault + string \<times> hms" where
  "dischargePatient_io L e inp s =
     (if patientHead s = [] then Inr (inp, dischargePatient L e s)
      else case scan_int inp of
        Inl f \<Rightarrow> Inl f
      | Inr (ident, inp1) \<Rightarrow>
          (case getPatientFromList ident (patientHead s) of
             None \<Rightarrow> Inr (inp1, dischargePatient L (e\<lparr>in_id := ident\<rparr>) s)
           | Some patientToDischarge \<Rightarrow>
               (case scan_confirm inp1 of
                  Inl f \<Rightarrow> Inl f
                | Inr (confirm, inp2) \<Rightarrow>
                    Inr (inp2,
                      dischargePatient L (e\<lparr>in_id := ident, in_confirm := confirm\<rparr>) s))))"

section \<open>What the input loops guarantee\<close>

lemma addPatientRecord_io_returns:
  assumes "addPatientRecord_io L e inp s = Some (Inr (inp', s'))"
  obtains x inp1 s1 a inp2 s2 d inp3 s3 r s4 where
    "getPatientName L None inp s = Some (Inr (x, inp1, s1))"
    "getPatientAge L inp1 s1 = Some (a, inp2, s2)"
    "getPatientDiagnosis L None inp2 s2 = Some (Inr (d, inp3, s3))"
    "getRoomNumber L inp3 s3 = Some (r, inp', s4)"
    "s' = addPatientRecord L (e\<lparr>in_name := x, in_age := a, in_diagnosis := d, in_room := r\<rparr>) s4"
  using assms unfolding addPatientRecord_io_def and_then_Inr_iff no_fault_Inr_iff
  by blast

text \<open>
  C34.  The input loops establish what the handler needs.  Whatever is typed, an
  admission that returns has run \<open>addPatientRecord\<close> in a state that differs from the
  state before only in the console, with a name, an age and a diagnosis that the
  validators accept, with a room that is valid and free, and with a name and a
  diagnosis that fit their arrays together with the terminating NUL and hold neither a
  NUL nor a newline; the clock and the outcomes of the environment are unchanged.
\<close>

theorem admission_input_refines:
  assumes ret: "addPatientRecord_io L e inp s = Some (Inr (inp', s'))"
    and diag: "2 \<le> MAX_DIAGNOSIS_LENGTH L"
  shows "\<exists>e' s1. s' = addPatientRecord L e' s1 \<and> quiet s s1 \<and>
           add_admissible L e' s1 \<and> storable L (new_patient e' s1) \<and>
           add_now e' = add_now e \<and> add_malloc_ok e' = add_malloc_ok e \<and>
           add_open_fails e' = add_open_fails e \<and> add_write_fails e' = add_write_fails e"
proof -
  from ret obtain x inp1 s1 a inp2 s2 d inp3 s3 r s4 where
    1: "getPatientName L None inp s = Some (Inr (x, inp1, s1))" and
    2: "getPatientAge L inp1 s1 = Some (a, inp2, s2)" and
    3: "getPatientDiagnosis L None inp2 s2 = Some (Inr (d, inp3, s3))" and
    4: "getRoomNumber L inp3 s3 = Some (r, inp', s4)" and
    s': "s' = addPatientRecord L
               (e\<lparr>in_name := x, in_age := a, in_diagnosis := d, in_room := r\<rparr>) s4"
    by (rule addPatientRecord_io_returns)
  let ?e = "e\<lparr>in_name := x, in_age := a, in_diagnosis := d, in_room := r\<rparr>"
  from getPatientName_quiet [OF 1] getPatientAge_quiet [OF 2]
    getPatientDiagnosis_quiet [OF diag 3] getRoomNumber_quiet [OF 4]
  have q: "quiet s s3" "quiet s s4" by (simp_all add: quiet_def)
  from 1 getPatientName_text_entry [of L None inp s]
  have "text_entry 101 (MAX_PATIENT_NAME_LENGTH L) (\<lambda>x. validatePatientName L x = IS_VALID)
          None inp = Some (Inr (x, inp1))" by simp
  then have x: "validatePatientName L x = IS_VALID \<and> length x < MAX_PATIENT_NAME_LENGTH L \<and>
           NUL \<notin> set x \<and> CHR 0x0A \<notin> set x"
    by (rule text_entry_result) simp
  from 3 getPatientDiagnosis_text_entry [OF diag, of None inp2 s2]
  have "text_entry (MAX_DIAGNOSIS_LENGTH L) (MAX_DIAGNOSIS_LENGTH L)
          (\<lambda>x. validatePatientDiagnosis L x = IS_VALID) None inp2 = Some (Inr (d, inp3))" by simp
  then have d: "validatePatientDiagnosis L d = IS_VALID \<and> length d < MAX_DIAGNOSIS_LENGTH L \<and>
           NUL \<notin> set d \<and> CHR 0x0A \<notin> set d"
    by (rule text_entry_result) simp
  from 2 getPatientAge_first_accepted [of L inp1 s1]
  have "first_accepted (\<lambda>n. validatePatientAge L n = IS_VALID) inp1 = Some (a, inp2)" by simp
  then have a: "validatePatientAge L a = IS_VALID" by (rule first_accepted_ok)
  from 4 getRoomNumber_first_accepted [of L inp3 s3]
  have "first_accepted (room_free L (patientHead s3)) inp3 = Some (r, inp')" by simp
  then have "room_free L (patientHead s3) r" by (rule first_accepted_ok)
  with q have r: "room_free L (patientHead s4) r" by (simp add: quiet_def)
  from x a d r have adm: "add_admissible L ?e s4"
    by (simp add: add_admissible_def room_free_def)
  from x d have sto: "storable L (new_patient ?e s4)"
    by (simp add: storable_def new_patient_def)
  have "add_now ?e = add_now e \<and> add_malloc_ok ?e = add_malloc_ok e \<and>
        add_open_fails ?e = add_open_fails e \<and> add_write_fails ?e = add_write_fails e"
    by simp
  with s' q(2) adm sto show ?thesis by blast
qed

lemma entry_of_SomeD: "entry_of m = Some (n, rest) \<Longrightarrow> \<exists>s'. m = Some (n, rest, s')"
  by (cases m) auto

lemma number_loop_returns:
  assumes "entry_of m = first_accepted ok (pre @ entry)"
    and "scanf_d entry = Some (v, r)" and "ok v" and "pre = [] \<or> last pre = CHR 0x0A"
  shows "\<exists>n rest s'. m = Some (n, rest, s') \<and> ok n"
proof -
  from assms(4) have "pre = [] \<or> ends_line pre" by (auto simp: ends_line_def)
  from first_accepted_reaches [where ok = ok, OF assms(2,3) this]
  obtain n rest where f: "first_accepted ok (pre @ entry) = Some (n, rest)" by auto
  with assms(1) entry_of_SomeD [of m n rest] first_accepted_ok [OF f] show ?thesis by auto
qed

text \<open>
  C35.  An accepted entry is reached.  When the input holds, at the start of a line, a
  number that the validator accepts (for the room: a valid number of a free room), then
  the loop returns with an accepted number, whatever the lines before it hold: rejected
  numbers, text that is not a number, or blank lines.
\<close>

theorem valid_entry_is_reached:
  assumes "scanf_d entry = Some (v, r)" and "pre = [] \<or> last pre = CHR 0x0A"
  shows "(validatePatientAge L v = IS_VALID \<longrightarrow>
            (\<exists>n rest s'. getPatientAge L (pre @ entry) s = Some (n, rest, s') \<and>
               validatePatientAge L n = IS_VALID)) \<and>
         (room_free L (patientHead s) v \<longrightarrow>
            (\<exists>n rest s'. getRoomNumber L (pre @ entry) s = Some (n, rest, s') \<and>
               room_free L (patientHead s) n))"
  using number_loop_returns [OF getPatientAge_first_accepted assms(1) _ assms(2), of L s]
    number_loop_returns [OF getRoomNumber_first_accepted assms(1) _ assms(2), of L s]
  by blast

text \<open>
  C37.  At the end of the input no loop returns.  The two numeric loops repeat for ever
  on an empty input, and so do the two text loops once their array holds a rejected
  text; with an array that was never written the first read of the name ends in the
  read of an array without a value.
\<close>

theorem input_loops_spin_at_end_of_input:
  "getPatientAge L [] s = None \<and> getRoomNumber L [] s = None \<and>
   (validatePatientName L (cut_newline b) \<noteq> IS_VALID \<longrightarrow>
      getPatientName L (Some b) [] s = None) \<and>
   (validatePatientDiagnosis L (cut_newline b) \<noteq> IS_VALID \<longrightarrow>
      getPatientDiagnosis L (Some b) [] s = None) \<and>
   getPatientName L None [] s = Some (Inl UninitialisedRead)"
proof -
  have "getPatientName L None [] s = Some (Inl UninitialisedRead)"
    by (subst getPatientName.simps) simp
  then show ?thesis
    by (simp add: getPatientAge_eof getRoomNumber_eof getPatientName_eof getPatientDiagnosis_eof)
qed

text \<open>
  C36.  The array of the name is overrun by a long line.  \<^verbatim>\<open>fgets\<close> is called with the
  size 101 on an array of \<^verbatim>\<open>MAX_PATIENT_NAME_LENGTH\<close> elements: a first line of
  \<^verbatim>\<open>MAX_PATIENT_NAME_LENGTH - 1\<close> characters or more (its newline and the NUL are stored
  too) is written past the end of the array whenever \<^verbatim>\<open>MAX_PATIENT_NAME_LENGTH\<close> is at
  most 100.  The diagnosis is read with the size of its array and is never overrun.
\<close>

theorem name_array_overrun:
  assumes "CHR 0x0A \<notin> set line"
  shows "(MAX_PATIENT_NAME_LENGTH L \<le> min 100 (length line + 1) \<longrightarrow>
            getPatientName L array (line @ CHR 0x0A # rest) s = Some (Inl ArrayOverrun)) \<and>
         (2 \<le> MAX_DIAGNOSIS_LENGTH L \<longrightarrow>
            getPatientDiagnosis L array inp s \<noteq> Some (Inl ArrayOverrun))"
proof (intro conjI impI)
  assume "MAX_PATIENT_NAME_LENGTH L \<le> min 100 (length line + 1)"
  with fgets_into_overrun [OF assms, of 101 "MAX_PATIENT_NAME_LENGTH L" array rest]
  have "fgets_into 101 (MAX_PATIENT_NAME_LENGTH L) array (line @ CHR 0x0A # rest)
      = Inl ArrayOverrun" by simp
  then show "getPatientName L array (line @ CHR 0x0A # rest) s = Some (Inl ArrayOverrun)"
    by (subst getPatientName.simps) simp
next
  assume d: "2 \<le> MAX_DIAGNOSIS_LENGTH L"
  show "getPatientDiagnosis L array inp s \<noteq> Some (Inl ArrayOverrun)"
  proof
    assume "getPatientDiagnosis L array inp s = Some (Inl ArrayOverrun)"
    with getPatientDiagnosis_text_entry [OF d, of array inp s]
      text_entry_fits [of "MAX_DIAGNOSIS_LENGTH L" "MAX_DIAGNOSIS_LENGTH L"
        "\<lambda>x. validatePatientDiagnosis L x = IS_VALID" array inp] d
    show False by simp
  qed
qed

end
