(* ===== verification/Patient_Array.thy ===== *)
theory Patient_Array
  imports Patient_Data
begin

text \<open>
  The handlers of \<^verbatim>\<open>src/patient.c\<close> (lines 6-227), the earlier version of the register:
  the patients are the elements of the array \<^verbatim>\<open>patients\<close> below the index \<^verbatim>\<open>totalPatients\<close>.

  \<^item> \<open>slot\<close> is the \<^verbatim>\<open>struct Patient\<close> of this version (no admission time); the array is the
    list \<open>patients\<close>, whose length is \<^verbatim>\<open>MAX_PATIENT_CAPACITY\<close>; a static array starts with
    all fields zero (\<open>empty_slot\<close>).
  \<^item> the names of the state and of the handlers carry the prefix \<open>a_\<close> where
    \<^verbatim>\<open>patient_management.c\<close> uses the same name.
  \<^item> each input function reads once and validates; what was read is a field of
    \<open>a_add_env\<close>, and the message that a validator prints is printed by the handler.
  \<^item> \<^verbatim>\<open>totalPatients\<close> stays between 0 and the capacity and is an \<open>int\<close>; identifiers are
    32-bit words.
  \<^item> \<open>active\<close> is the abstraction: the elements below \<^verbatim>\<open>totalPatients\<close>.
\<close>

section \<open>State\<close>

record slot =
  s_patientId :: cint
  s_name :: string
  s_age :: cint
  s_diagnosis :: string
  s_roomNumber :: cint

definition empty_slot :: slot where
  "empty_slot = \<lparr>s_patientId = 0, s_name = [], s_age = 0, s_diagnosis = [], s_roomNumber = 0\<rparr>"

record astore =
  patients :: "slot list"
  a_totalPatients :: int
  a_patientIDCounter :: cint
  a_console :: "string list"

definition a_boot :: "nat \<Rightarrow> astore" where
  "a_boot capacity =
     \<lparr>patients = replicate capacity empty_slot, a_totalPatients = 0, a_patientIDCounter = 1,
      a_console = []\<rparr>"

definition out :: "string \<Rightarrow> astore \<Rightarrow> astore" where
  "out msg s = s\<lparr>a_console := a_console s @ [msg]\<rparr>"

record a_add_env =
  a_in_name :: string
  a_in_age :: cint
  a_in_diagnosis :: string
  a_in_room :: cint

section \<open>Helpers\<close>

definition printPatientInfo :: "slot \<Rightarrow> astore \<Rightarrow> astore" where
  "printPatientInfo p s =
     fold out
       [''Patient ID: '' @ show_cint (s_patientId p) @ ''\<newline>'',
        ''Patient Name: '' @ s_name p @ ''\<newline>'',
        ''Age: '' @ show_cint (s_age p) @ ''\<newline>'',
        ''Diagnosis: '' @ s_diagnosis p @ ''\<newline>'',
        ''Room Number: '' @ show_cint (s_roomNumber p) @ ''\<newline>'',
        ''---------------------------------------\<newline>''] s"

definition createNewPatient :: "a_add_env \<Rightarrow> astore \<Rightarrow> slot" where
  "createNewPatient e s =
     \<lparr>s_patientId = a_patientIDCounter s, s_name = a_in_name e, s_age = a_in_age e,
      s_diagnosis = a_in_diagnosis e, s_roomNumber = a_in_room e\<rparr>"

text \<open>The loop of \<^verbatim>\<open>patientExists\<close> from the index \<open>i\<close>; \<open>None\<close> is \<^verbatim>\<open>PATIENT_NOT_FOUND\<close>.\<close>

fun patientExists_from :: "nat \<Rightarrow> cint \<Rightarrow> slot list \<Rightarrow> nat option" where
  "patientExists_from i ident [] = None"
| "patientExists_from i ident (p # ps) =
     (if s_patientId p = ident then Some i else patientExists_from (Suc i) ident ps)"

definition patientExists :: "cint \<Rightarrow> astore \<Rightarrow> nat option" where
  "patientExists ident s = patientExists_from 0 ident (patients s)"

text \<open>The loop of \<^verbatim>\<open>removePatientFromSystem\<close>: every element from \<open>i\<close> on takes the value of
  its right neighbour; the last element keeps its value.\<close>

function shift_left :: "nat \<Rightarrow> slot list \<Rightarrow> slot list" where
  "shift_left i ps = (if i + 1 < length ps then shift_left (i + 1) (ps[i := ps ! (i + 1)]) else ps)"
  by pat_completeness auto
termination
  by (relation "measure (\<lambda>(i, ps). length ps - i)") auto

declare shift_left.simps [simp del]

definition a_removePatientFromSystem :: "nat \<Rightarrow> astore \<Rightarrow> astore" where
  "a_removePatientFromSystem index s =
     s\<lparr>patients := shift_left index (patients s), a_totalPatients := a_totalPatients s - 1\<rparr>"

text \<open>
  \<^verbatim>\<open>checkRoomOccupancy\<close> reads the elements 0 to \<^verbatim>\<open>MAX_ROOM_NUMBER\<close>, whatever the capacity
  of the array is.
\<close>

datatype lookup = Found nat | NotFound | ReadPastEnd

function checkRoomOccupancy_from :: "nat \<Rightarrow> nat \<Rightarrow> cint \<Rightarrow> slot list \<Rightarrow> lookup" where
  "checkRoomOccupancy_from i n room ps =
     (if i < n then
        if length ps \<le> i then ReadPastEnd
        else if s_roomNumber (ps ! i) = room then Found i
        else checkRoomOccupancy_from (i + 1) n room ps
      else NotFound)"
  by pat_completeness auto
termination
  by (relation "measure (\<lambda>(i, n, room, ps). n - i)") auto

declare checkRoomOccupancy_from.simps [simp del]

definition checkRoomOccupancy :: "limits \<Rightarrow> cint \<Rightarrow> astore \<Rightarrow> lookup" where
  "checkRoomOccupancy L room s =
     checkRoomOccupancy_from 0 (nat (sint (MAX_ROOM_NUMBER L) + 1)) room (patients s)"

section \<open>Handlers\<close>

definition a_addPatientRecord :: "limits \<Rightarrow> a_add_env \<Rightarrow> astore \<Rightarrow> astore" where
  "a_addPatientRecord L e s =
     (if int (length (patients s)) \<le> a_totalPatients s
      then out ''Max patient capacity reached!\<newline>'' s
      else let s1 = out ''Enter patient name:\<newline>'' s in
        if validatePatientName L (a_in_name e) = IS_INVALID
        then out (''Patient name must be between '' @ show_nat (MIN_PATIENT_NAME_LENGTH L) @
                  '' and '' @ show_nat (MAX_PATIENT_NAME_LENGTH L) @
                  '' characters long.\<newline>'') s1
      else let s2 = out ''Enter patient age:\<newline>'' s1 in
        if validatePatientAge L (a_in_age e) = IS_INVALID
        then out (''Invalid age! Please enter a number between '' @
                  show_cint (MIN_AGE_YEARS L) @ '' and '' @ show_cint (MAX_AGE_YEARS L) @
                  ''.\<newline>'') s2
      else let s3 = out ''Enter patient diagnosis:\<newline>'' s2 in
        if validatePatientDiagnosis L (a_in_diagnosis e) = IS_INVALID
        then out (''Patient diagnosis must be between '' @ show_nat (MIN_DIAGNOSIS_LENGTH L) @
                  '' and '' @ show_nat (MAX_DIAGNOSIS_LENGTH L) @
                  '' characters long.\<newline>'') s3
      else let s4 = out ''Enter patient room:\<newline>'' s3 in
        if validateRoomNumber L (a_in_room e) = IS_INVALID
        then out (''Invalid Room Number: Must be between '' @ show_cint (MIN_ROOM_NUMBER L) @
                  '' and '' @ show_cint (MAX_ROOM_NUMBER L) @ ''.\<newline>'') s4
      else let newPatient = createNewPatient e s4;
               s5 = s4\<lparr>patients := (patients s4)[nat (a_totalPatients s4) := newPatient],
                       a_totalPatients := a_totalPatients s4 + 1,
                       a_patientIDCounter := a_patientIDCounter s4 + 1\<rparr>
           in printPatientInfo (patients s5 ! nat (a_totalPatients s5 - 1))
                (out ''Patient added successfully!\<newline>'' s5))"

definition a_viewPatientRecords :: "astore \<Rightarrow> astore" where
  "a_viewPatientRecords s =
     (if a_totalPatients s = 0 then out ''No Patients Admitted...\<newline>'' s
      else fold printPatientInfo (filter (\<lambda>p. s_patientId p \<noteq> 0) (patients s))
             (out ''--- Patient Record ---\<newline>'' s))"

definition a_searchPatientById :: "cint \<Rightarrow> astore \<Rightarrow> astore" where
  "a_searchPatientById ident s =
     (let s1 = out ''Enter A Patient Id: '' s in
      case patientExists ident s1 of
        None \<Rightarrow> out ''Patient Does Not Exist!\<newline>'' s1
      | Some index \<Rightarrow> printPatientInfo (patients s1 ! index) s1)"

definition a_confirmDischarge :: "char \<Rightarrow> nat \<Rightarrow> astore \<Rightarrow> bool \<times> astore" where
  "a_confirmDischarge answer patientIndex s =
     (answer = CHR ''y'',
      out ''Are you sure you want to discharge this patient? (y/n)\<newline>''
        (out (''Patient Name: '' @ s_name (patients s ! patientIndex) @ ''\<newline>'')
           (out (''Patient ID: '' @ show_cint (s_patientId (patients s ! patientIndex)) @
                 ''\<newline>'') s)))"

definition a_dischargePatient :: "cint \<Rightarrow> char \<Rightarrow> astore \<Rightarrow> astore" where
  "a_dischargePatient ident answer s =
     (if a_totalPatients s = 0 then out ''No patients to discharge!\<newline>'' s
      else let s1 = out ''Enter ID of patient to discharge:\<newline>'' s in
        case patientExists ident s1 of
          None \<Rightarrow> out ''Patient is not in system.\<newline>'' s1
        | Some index \<Rightarrow>
            let (confirmed, s2) = a_confirmDischarge answer index s1 in
            if confirmed
            then out ''Patient has been discharged!\<newline>'' (a_removePatientFromSystem index s2)
            else out ''Patient discharge cancelled.\<newline>'' s2)"

section \<open>Frame: what printing leaves alone\<close>

lemma out_fields [simp]:
  "patients (out msg s) = patients s" "a_totalPatients (out msg s) = a_totalPatients s"
  "a_patientIDCounter (out msg s) = a_patientIDCounter s"
  "a_console (out msg s) = a_console s @ [msg]"
  by (simp_all add: out_def)

lemma fold_out_fields [simp]:
  "patients (fold out msgs s) = patients s"
  "a_totalPatients (fold out msgs s) = a_totalPatients s"
  "a_patientIDCounter (fold out msgs s) = a_patientIDCounter s"
  by (induction msgs arbitrary: s) simp_all

lemma printPatientInfo_fields [simp]:
  "patients (printPatientInfo p s) = patients s"
  "a_totalPatients (printPatientInfo p s) = a_totalPatients s"
  "a_patientIDCounter (printPatientInfo p s) = a_patientIDCounter s"
  unfolding printPatientInfo_def by (rule fold_out_fields)+

section \<open>The loops\<close>

lemma shift_left_length [simp]: "length (shift_left i ps) = length ps"
  by (induction i ps rule: shift_left.induct) (subst shift_left.simps, simp)

lemma shift_left_eq:
  "i < length ps \<Longrightarrow> shift_left i ps = take i ps @ drop (Suc i) ps @ [last ps]"
proof (induction i ps rule: shift_left.induct)
  case (1 i ps)
  show ?case
  proof (cases "i + 1 < length ps")
    case True
    let ?ps = "ps[i := ps ! (i + 1)]"
    from True have "ps \<noteq> []" by auto
    with True have l: "last ?ps = last ps"
      by (simp add: last_list_update)
    from True have t: "take (Suc i) ?ps = take i ps @ [ps ! (i + 1)]"
      by (simp add: take_Suc_conv_app_nth)
    from True have d: "drop (Suc i) ps = ps ! (i + 1) # drop (Suc (Suc i)) ps"
      by (simp add: Cons_nth_drop_Suc)
    from True "1.IH" have "shift_left (i + 1) ?ps
        = take (Suc i) ?ps @ drop (Suc (Suc i)) ?ps @ [last ?ps]" by simp
    with True l t d show ?thesis by (subst shift_left.simps) simp
  next
    case False
    with "1.prems" have i: "Suc i = length ps" by simp
    then have "ps \<noteq> []" by auto
    then have "ps = butlast ps @ [last ps]" by simp
    moreover from i have "length ps - 1 = i" by simp
    then have "butlast ps = take i ps" by (simp add: butlast_conv_take)
    ultimately have "ps = take i ps @ [last ps]" by simp
    with False i show ?thesis by (subst shift_left.simps) simp
  qed
qed

lemma patientExists_from_Some:
  "patientExists_from i ident ps = Some k \<Longrightarrow>
     \<exists>j. k = i + j \<and> j < length ps \<and> s_patientId (ps ! j) = ident \<and>
         (\<forall>m < j. s_patientId (ps ! m) \<noteq> ident)"
proof (induction ps arbitrary: i)
  case Nil
  then show ?case by simp
next
  case (Cons p ps)
  show ?case
  proof (cases "s_patientId p = ident")
    case True
    with Cons.prems show ?thesis by (intro exI [of _ 0]) simp
  next
    case False
    with Cons.prems have "patientExists_from (Suc i) ident ps = Some k" by simp
    from Cons.IH [OF this] obtain j where j: "k = Suc i + j" "j < length ps"
      "s_patientId (ps ! j) = ident" "\<forall>m < j. s_patientId (ps ! m) \<noteq> ident" by blast
    with False show ?thesis
      by (intro exI [of _ "Suc j"]) (auto simp: less_Suc_eq_0_disj)
  qed
qed

lemma patientExists_from_None:
  "patientExists_from i ident ps = None \<longleftrightarrow> ident \<notin> s_patientId ` set ps"
  by (induction ps arbitrary: i) auto

lemma patientExists_from_first:
  assumes "k < length ps" and "s_patientId (ps ! k) = ident"
    and "\<forall>j < k. s_patientId (ps ! j) \<noteq> ident"
  shows "patientExists_from i ident ps = Some (i + k)"
  using assms
proof (induction ps arbitrary: i k)
  case Nil
  then show ?case by simp
next
  case (Cons p ps)
  show ?case
  proof (cases k)
    case 0
    with Cons.prems show ?thesis by simp
  next
    case (Suc k')
    with Cons.prems have "s_patientId p \<noteq> ident" by auto
    moreover from Cons.prems Suc have "patientExists_from (Suc i) ident ps = Some (Suc i + k')"
      by (intro Cons.IH) auto
    ultimately show ?thesis using Suc by simp
  qed
qed

section \<open>The register as a list\<close>

definition active :: "astore \<Rightarrow> slot list" where
  "active s = take (nat (a_totalPatients s)) (patients s)"

definition a_wf :: "astore \<Rightarrow> bool" where
  "a_wf s \<longleftrightarrow> 0 \<le> a_totalPatients s \<and> a_totalPatients s \<le> int (length (patients s))"

text \<open>The elements from \<^verbatim>\<open>totalPatients\<close> on are as the static initialisation left them.\<close>

definition rest_empty :: "astore \<Rightarrow> bool" where
  "rest_empty s \<longleftrightarrow>
     drop (nat (a_totalPatients s)) (patients s) =
       replicate (length (patients s) - nat (a_totalPatients s)) empty_slot"

definition a_add_ok :: "limits \<Rightarrow> a_add_env \<Rightarrow> bool" where
  "a_add_ok L e \<longleftrightarrow>
     validatePatientName L (a_in_name e) = IS_VALID \<and>
     validatePatientAge L (a_in_age e) = IS_VALID \<and>
     validatePatientDiagnosis L (a_in_diagnosis e) = IS_VALID \<and>
     validateRoomNumber L (a_in_room e) = IS_VALID"

lemma a_boot_wf: "a_wf (a_boot n) \<and> rest_empty (a_boot n) \<and> active (a_boot n) = []"
  by (simp add: a_wf_def rest_empty_def active_def a_boot_def)

lemma a_addPatientRecord_store:
  assumes "a_add_ok L e" and "a_totalPatients s < int (length (patients s))"
  shows "patients (a_addPatientRecord L e s) =
           (patients s)[nat (a_totalPatients s) := createNewPatient e s]"
    and "a_totalPatients (a_addPatientRecord L e s) = a_totalPatients s + 1"
    and "a_patientIDCounter (a_addPatientRecord L e s) = a_patientIDCounter s + 1"
  using assms
  by (simp_all add: a_addPatientRecord_def a_add_ok_def Let_def createNewPatient_def)

lemma a_addPatientRecord_full:
  "int (length (patients s)) \<le> a_totalPatients s \<Longrightarrow>
     a_addPatientRecord L e s = out ''Max patient capacity reached!\<newline>'' s"
  by (simp add: a_addPatientRecord_def)

lemma a_dischargePatient_store:
  assumes "a_totalPatients s \<noteq> 0" and "patientExists ident s = Some i"
  shows "patients (a_dischargePatient ident (CHR ''y'') s) = shift_left i (patients s)"
    and "a_totalPatients (a_dischargePatient ident (CHR ''y'') s) = a_totalPatients s - 1"
    and "a_patientIDCounter (a_dischargePatient ident (CHR ''y'') s) = a_patientIDCounter s"
  using assms
  by (simp_all add: a_dischargePatient_def Let_def patientExists_def a_confirmDischarge_def
      a_removePatientFromSystem_def)

lemma patientExists_index:
  "patientExists ident s = Some i \<Longrightarrow>
     i < length (patients s) \<and> s_patientId (patients s ! i) = ident"
  using patientExists_from_Some [of 0 ident "patients s" i] by (auto simp: patientExists_def)

lemma active_take_drop:
  assumes "i < t" and "t \<le> length ps"
  shows "take (t - 1) (take i ps @ drop (Suc i) ps @ [last ps]) =
           take i (take t ps) @ drop (Suc i) (take t ps)"
proof -
  from assms have "length (take i ps) = i" "i \<le> t - 1"
    "t - 1 - i \<le> length (drop (Suc i) ps)" by simp_all
  then have "take (t - 1) (take i ps @ drop (Suc i) ps @ [last ps])
      = take i ps @ take (t - 1 - i) (drop (Suc i) ps)"
    by simp
  moreover from assms have "take i (take t ps) = take i ps" by (simp add: min_def)
  moreover from assms have "drop (Suc i) (take t ps) = take (t - 1 - i) (drop (Suc i) ps)"
    by (simp add: drop_take)
  ultimately show ?thesis by simp
qed

lemma createNewPatient_cong:
  "a_patientIDCounter s' = a_patientIDCounter s \<Longrightarrow> createNewPatient e s' = createNewPatient e s"
  by (simp add: createNewPatient_def)

text \<open>Shifting from the first empty element on changes nothing.\<close>

lemma shift_left_rest_empty:
  assumes "drop t ps = replicate (length ps - t) empty_slot" and "t < length ps"
  shows "shift_left t ps = ps"
proof -
  let ?k = "length ps - t"
  from assms(2) obtain k where k: "?k = Suc k" by (cases ?k) auto
  have "drop (Suc t) ps = drop 1 (drop t ps)" by simp
  with assms(1) k have d: "drop (Suc t) ps = replicate k empty_slot" by simp
  from assms(2) have "last ps = last (drop t ps)" by simp
  with assms(1) k have l: "last ps = empty_slot" by simp
  have "replicate k empty_slot @ [empty_slot] = replicate (Suc k) empty_slot"
    by (simp add: replicate_append_same)
  with assms(1) k d l have "drop (Suc t) ps @ [last ps] = drop t ps" by simp
  with shift_left_eq [OF assms(2)] show ?thesis by simp
qed

text \<open>The copy that the shift leaves in the last element.\<close>

lemma shift_left_last_two:
  assumes "Suc i < length ps"
  shows "shift_left i ps ! (length ps - 1) = last ps"
    and "shift_left i ps ! (length ps - 2) = last ps"
proof -
  let ?xs = "take i ps @ drop (Suc i) ps @ [last ps]"
  from assms have e: "shift_left i ps = ?xs" by (simp add: shift_left_eq)
  from assms have "length ?xs = length ps" by simp
  with assms have "?xs ! (length ps - 1) = last ?xs"
    by (metis last_conv_nth append_is_Nil_conv not_Cons_self2)
  with e show "shift_left i ps ! (length ps - 1) = last ps" by simp
  from assms have "ps \<noteq> []" by auto
  from assms have "?xs ! (length ps - 2) = (drop (Suc i) ps @ [last ps]) ! (length ps - 2 - i)"
    by (simp add: nth_append)
  also from assms have "\<dots> = drop (Suc i) ps ! (length ps - 2 - i)"
    by (simp add: nth_append)
  also from assms have "\<dots> = ps ! (length ps - 1)"
  proof -
    from assms have "Suc (length ps - 2) = length ps - 1" by simp
    with assms show ?thesis by simp
  qed
  also from \<open>ps \<noteq> []\<close> have "\<dots> = last ps" by (simp add: last_conv_nth)
  finally show "shift_left i ps ! (length ps - 2) = last ps" using e by simp
qed

lemma checkRoomOccupancy_from_past_end:
  assumes "length ps < n" and "room \<notin> s_roomNumber ` set ps" and "i \<le> length ps"
  shows "checkRoomOccupancy_from i n room ps = ReadPastEnd"
  using assms
proof (induction i n room ps rule: checkRoomOccupancy_from.induct)
  case (1 i n room ps)
  show ?case
  proof (cases "i = length ps")
    case True
    with "1.prems" show ?thesis by (subst checkRoomOccupancy_from.simps) simp
  next
    case False
    with "1.prems" have i: "i < length ps" "i < n" by simp_all
    with "1.prems" have "s_roomNumber (ps ! i) \<noteq> room" by (metis imageI nth_mem)
    with i "1.IH" "1.prems" show ?thesis
      by (subst checkRoomOccupancy_from.simps) simp
  qed
qed

text \<open>
  C38.  The array as a list.  In a state whose counter lies within the array, an
  admission with valid input below the capacity appends the new record to the active
  patients, and a confirmed discharge of an identifier that \<open>patientExists\<close> finds among the
  active patients removes exactly the element at its index; both keep the counter
  within the array, and an admission at full capacity changes nothing but the console.
\<close>

theorem array_register_refines_list:
  assumes "a_wf s"
  shows "(a_add_ok L e \<and> a_totalPatients s < int (length (patients s)) \<longrightarrow>
            active (a_addPatientRecord L e s) = active s @ [createNewPatient e s] \<and>
            a_wf (a_addPatientRecord L e s)) \<and>
         (int (length (patients s)) \<le> a_totalPatients s \<longrightarrow>
            active (a_addPatientRecord L e s) = active s) \<and>
         (patientExists ident s = Some i \<and> int i < a_totalPatients s \<longrightarrow>
            active (a_dischargePatient ident (CHR ''y'') s) =
              take i (active s) @ drop (Suc i) (active s) \<and>
            a_wf (a_dischargePatient ident (CHR ''y'') s))"
proof (intro conjI impI)
  assume a: "a_add_ok L e \<and> a_totalPatients s < int (length (patients s))"
  with assms have t: "nat (a_totalPatients s) < length (patients s)"
    by (simp add: a_wf_def nat_less_iff)
  from a assms have "nat (a_totalPatients s + 1) = Suc (nat (a_totalPatients s))"
    by (simp add: a_wf_def)
  with a t show "active (a_addPatientRecord L e s) = active s @ [createNewPatient e s]"
    by (simp add: active_def a_addPatientRecord_store take_Suc_conv_app_nth)
  from a assms show "a_wf (a_addPatientRecord L e s)"
    by (simp add: a_wf_def a_addPatientRecord_store)
next
  assume "int (length (patients s)) \<le> a_totalPatients s"
  then show "active (a_addPatientRecord L e s) = active s"
    by (simp add: a_addPatientRecord_full active_def)
next
  assume d: "patientExists ident s = Some i \<and> int i < a_totalPatients s"
  with assms have i: "i < nat (a_totalPatients s)" "nat (a_totalPatients s) \<le> length (patients s)"
    and n: "a_totalPatients s \<noteq> 0" "nat (a_totalPatients s - 1) = nat (a_totalPatients s) - 1"
    by (auto simp: a_wf_def nat_less_iff nat_le_iff nat_diff_distrib)
  from i have "i < length (patients s)" by simp
  with d n have "active (a_dischargePatient ident (CHR ''y'') s) =
      take (nat (a_totalPatients s) - 1)
        (take i (patients s) @ drop (Suc i) (patients s) @ [last (patients s)])"
    by (simp add: active_def a_dischargePatient_store shift_left_eq)
  also note active_take_drop [OF i]
  finally show "active (a_dischargePatient ident (CHR ''y'') s) =
      take i (active s) @ drop (Suc i) (active s)"
    by (simp only: active_def)
  from d n assms show "a_wf (a_dischargePatient ident (CHR ''y'') s)"
    by (simp add: a_wf_def a_dischargePatient_store)
qed

text \<open>
  C39.  The identifier 0 names the first empty element.  In a register that is neither
  empty nor full, whose patients have identifiers other than 0 and whose remaining
  elements are as initialised, \<open>patientExists\<close> finds the identifier 0 at the index
  \<^verbatim>\<open>totalPatients\<close>; a confirmed discharge of 0 leaves the array as it is and decrements
  \<^verbatim>\<open>totalPatients\<close>, so the last patient is no longer among the active ones, and the next
  admission overwrites that patient.
\<close>

theorem discharge_of_identifier_zero:
  assumes "a_wf s" and "rest_empty s" and "0 < a_totalPatients s"
    and "a_totalPatients s < int (length (patients s))"
    and "\<forall>p \<in> set (active s). s_patientId p \<noteq> 0"
  shows "patientExists 0 s = Some (nat (a_totalPatients s)) \<and>
         patients (a_dischargePatient 0 (CHR ''y'') s) = patients s \<and>
         a_totalPatients (a_dischargePatient 0 (CHR ''y'') s) = a_totalPatients s - 1 \<and>
         active (a_dischargePatient 0 (CHR ''y'') s) = butlast (active s) \<and>
         (a_add_ok L e \<longrightarrow>
            patients (a_addPatientRecord L e (a_dischargePatient 0 (CHR ''y'') s)) =
              (patients s)[nat (a_totalPatients s) - 1 := createNewPatient e s])"
proof -
  let ?t = "nat (a_totalPatients s)" and ?ps = "patients s"
  let ?s' = "a_dischargePatient 0 (CHR ''y'') s"
  from assms(3,4) have t: "?t < length ?ps" "0 < ?t" by (simp_all add: nat_less_iff)
  from assms(2) have d: "drop ?t ?ps = replicate (length ?ps - ?t) empty_slot"
    by (simp add: rest_empty_def)
  from t have "?ps ! ?t = hd (drop ?t ?ps)" by (simp add: hd_drop_conv_nth)
  with d t have z: "s_patientId (?ps ! ?t) = 0" by (simp add: empty_slot_def)
  have "s_patientId (?ps ! j) \<noteq> 0" if "j < ?t" for j
  proof -
    from that t have "?ps ! j \<in> set (take ?t ?ps)" by (metis in_set_conv_nth length_take
      less_imp_le_nat min.absorb2 nth_take order_less_le_trans)
    with assms(5) show ?thesis by (simp add: active_def)
  qed
  with patientExists_from_first [of ?t ?ps 0 0] t z
  have found: "patientExists 0 s = Some ?t" by (simp add: patientExists_def)
  from assms(3) have n: "a_totalPatients s \<noteq> 0" by simp
  from shift_left_rest_empty [OF d t(1)] a_dischargePatient_store [OF n found]
  have p: "patients ?s' = ?ps" and c: "a_totalPatients ?s' = a_totalPatients s - 1"
    and k: "a_patientIDCounter ?s' = a_patientIDCounter s" by simp_all
  from assms(3) have m: "nat (a_totalPatients s - 1) = ?t - 1" by (simp add: nat_diff_distrib)
  from t have "butlast (take ?t ?ps) = take (?t - 1) ?ps"
    by (simp add: butlast_take)
  with p c m have a: "active ?s' = butlast (active s)" by (simp add: active_def)
  have "patients (a_addPatientRecord L e ?s') = ?ps[?t - 1 := createNewPatient e s]"
    if "a_add_ok L e"
  proof -
    from c assms(4) p have "a_totalPatients ?s' < int (length (patients ?s'))" by simp
    from a_addPatientRecord_store(1) [OF that this] p c m createNewPatient_cong [OF k]
    show ?thesis by simp
  qed
  with found p c a show ?thesis by simp
qed

text \<open>
  C40.  A discharge from a full register leaves a copy.  \<open>removePatientFromSystem\<close> moves
  every element after the index one place down and never clears the last element: after
  a confirmed discharge at an index before the last one, the last two elements of the
  array both hold the patient that was last, while \<^verbatim>\<open>totalPatients\<close> is one less; when
  the register was full, the element at \<^verbatim>\<open>totalPatients\<close> is then not empty.
\<close>

theorem discharge_leaves_copy_of_last:
  assumes "patientExists ident s = Some i" and "Suc i < length (patients s)"
    and "a_totalPatients s = int (length (patients s))"
  shows "patients (a_dischargePatient ident (CHR ''y'') s) ! (length (patients s) - 1) =
           last (patients s) \<and>
         patients (a_dischargePatient ident (CHR ''y'') s) ! (length (patients s) - 2) =
           last (patients s) \<and>
         a_totalPatients (a_dischargePatient ident (CHR ''y'') s) = int (length (patients s)) - 1 \<and>
         (s_patientId (last (patients s)) \<noteq> 0 \<longrightarrow>
            \<not> rest_empty (a_dischargePatient ident (CHR ''y'') s))"
proof -
  let ?s' = "a_dischargePatient ident (CHR ''y'') s" and ?n = "length (patients s)"
  from assms(2,3) have n: "a_totalPatients s \<noteq> 0" by auto
  note st = a_dischargePatient_store [OF n assms(1)]
  from st(1) shift_left_last_two [OF assms(2)]
  have l: "patients ?s' ! (?n - 1) = last (patients s)"
    "patients ?s' ! (?n - 2) = last (patients s)" by simp_all
  from st(2) assms(3) have c: "a_totalPatients ?s' = int ?n - 1" by simp
  have "\<not> rest_empty ?s'" if "s_patientId (last (patients s)) \<noteq> 0"
  proof
    assume "rest_empty ?s'"
    with c st(1) assms(2) have "drop (?n - 1) (patients ?s') = [empty_slot]"
      by (simp add: rest_empty_def nat_diff_distrib)
    moreover from st(1) assms(2) have "drop (?n - 1) (patients ?s') = [patients ?s' ! (?n - 1)]"
      by (metis (no_types, lifting) Cons_nth_drop_Suc One_nat_def Suc_pred diff_less
          drop_all length_greater_0_conv less_Suc_eq less_imp_le_nat list.size(3) not_less_zero
          shift_left_length zero_less_one le_refl)
    ultimately have "patients ?s' ! (?n - 1) = empty_slot" by simp
    with l(1) that show False by (simp add: empty_slot_def)
  qed
  with l c show ?thesis by simp
qed

end
