(* ===== verification/Spec2Isabelle.thy ===== *)
theory Spec2Isabelle
  imports Store_Invariants Reporting Room_Usage Console_Input Patient_Array
begin

text \<open>
  \<^bold>\<open>The program.\<close>  A console register of the patients of a hospital ward.  The module
  \<^verbatim>\<open>src/patient_management.c\<close> keeps the active patients in a singly linked list
  (\<^verbatim>\<open>patientHead\<close>) with two counters (\<^verbatim>\<open>totalPatients\<close>, \<^verbatim>\<open>patientIDCounter\<close>), mirrors the
  list in the binary file \<^verbatim>\<open>patients.dat\<close>, appends every discharge to
  \<^verbatim>\<open>discharged_patients.dat\<close> and \<^verbatim>\<open>room_usage.txt\<close>, and prints reports.  Its handlers are
  the functions declared in \<^verbatim>\<open>src/patient_management.h\<close>.  \<^verbatim>\<open>src/patient.c\<close> is an earlier
  variant of the module over a fixed array; it holds the four field validators.  The
  headers \<^verbatim>\<open>patient_data.h\<close> and \<^verbatim>\<open>utils.h\<close> and the menu are not among the sources.

  \<^bold>\<open>The theories\<close>, in import order.

  \<^item> \<open>HMS_Prelude\<close>: C \<^verbatim>\<open>int\<close> as \<open>32 word\<close> (\<open>cint\<close>) and \<^verbatim>\<open>time_t\<close> as \<open>64 word\<close>, the
    successor, predecessor and wrap-around facts of signed 32-bit arithmetic,
    \<open>remove_first\<close> (unlink the first matching element) with its lemmas, the decimal
    rendering \<open>show_int\<close>, and the collections \<open>hms_unfold\<close> and \<open>hms_frame\<close>.
  \<^item> \<open>Patient_Data\<close>: the records \<open>Patient\<close> and \<open>DischargedPatient\<close>, the constants of the
    missing headers as the record \<open>limits\<close> (every function that depends on one takes it as
    an argument; \<open>spec_limits\<close> holds the documented values), \<open>createPatient\<close>, and the
    validators \<open>validatePatientName\<close>, \<open>validatePatientAge\<close>, \<open>validatePatientDiagnosis\<close>,
    \<open>validateRoomNumber\<close> of \<^verbatim>\<open>src/patient.c\<close>.
  \<^item> \<open>Binary_File\<close>: a file is the \<open>string\<close> of its bytes.  A \<open>codec\<close> gives the size, the
    encoder and the decoder of a fixed-size record, \<open>codec_ok\<close> is the interface its users
    rely on.  \<open>fread_all\<close> is the loop \<^verbatim>\<open>while (fread(&r, sizeof r, 1, f) == 1)\<close>,
    \<open>fwrite_loop\<close> the loop that writes a list record by record and stops at the first
    \<^verbatim>\<open>fwrite\<close> that fails.  Lemmas: round trip, length, behaviour on a truncated file.
  \<^item> \<open>Patient_Codec\<close>: the byte layout of the two structs (integers little-endian, strings
    in NUL-padded arrays, no padding between fields) and the proof that it satisfies
    \<open>codec_ok\<close> on the \<open>storable\<close> patients.  The layout is an assumption about the
    compiler; the theories above it use only \<open>codec_ok\<close>.
  \<^item> \<open>Patient_List\<close>: the list functions \<open>insertPatientAtEndOfList\<close>, \<open>getPatientFromList\<close>,
    \<open>isRoomOccupiedInList\<close>, \<open>computeNextPatientId\<close> and the unlinking loop of
    \<open>removePatientFromSystem\<close> (\<open>unlink_node\<close>).  The linked list is the HOL list of its
    nodes' records, \<^verbatim>\<open>NULL\<close> is \<open>[]\<close>; a failed \<^verbatim>\<open>malloc\<close> is a Boolean argument.
  \<^item> \<open>Stdio\<close>: the six files the program names (\<open>fname\<close>), the file system as a map from
    them to contents, \<^verbatim>\<open>fopen\<close> in the modes \<^verbatim>\<open>w\<close> and \<^verbatim>\<open>a\<close>, \<^verbatim>\<open>remove\<close>, \<^verbatim>\<open>rename\<close>, and the
    events of the console.
  \<^item> \<open>Persistence\<close>: the state record \<open>hms\<close> (the three module variables, the files, the
    console), the initial state \<open>boot\<close>, and \<open>clearBinaryFile\<close>, \<open>updatePatientsFile\<close>,
    \<open>writePatientToFile\<close>, \<open>logRoomUsage\<close>.  Lemmas: the files after the rewrite for each
    outcome of the environment.
  \<^item> \<open>Patient_Management\<close>: the handlers \<open>initializePatientSystem\<close>,
    \<open>initializePatientSystemDefault\<close>, \<open>clearMemory\<close>, \<open>addPatientRecord\<close>,
    \<open>viewPatientRecords\<close>, \<open>searchPatientById\<close>, \<open>dischargePatient\<close>, \<open>confirmDischarge\<close>,
    \<open>removePatientFromSystem\<close>, \<open>backupPatientSystem\<close>, \<open>restoreDataFromFile\<close>.
  \<^item> \<open>Store_Invariants\<close>: the invariants \<open>ids_ok\<close>, \<open>rooms_ok\<close>, \<open>count_ok\<close>, \<open>synced\<close> (together
    \<open>store_inv\<close>), the state after each handler on every branch, and the preservation of
    each invariant by each handler.
  \<^item> \<open>Time_Format\<close>: the four fields of \<^verbatim>\<open>struct tm\<close> the reports read (\<open>tm\<close>), a calendar as
    a function from \<^verbatim>\<open>time_t\<close> to \<open>tm\<close> (\<^verbatim>\<open>localtime\<close> for some time zone), the calendar of UTC
    (\<open>gmtime\<close>), the whole hours between two times (\<open>hours_diff\<close>), left-justified
    \<^verbatim>\<open>printf\<close> fields and \<^verbatim>\<open>strftime\<close> with \<^verbatim>\<open>%Y-%m-%d\<close>.
  \<^item> \<open>Reporting\<close>: \<open>countPatientsByTimeframe\<close>, \<open>countDischargedPatientsByTimeframe\<close>,
    \<open>printFormattedReport\<close>, \<open>printDischargedFormattedReport\<close>, \<open>displayPatientReport\<close> and
    \<open>displayDischargedPatientReport\<close>.  Lemmas: each loop is a filter of the list (or of the
    archive) by the condition the code evaluates, and the reports change neither the list
    nor the counters nor \<^verbatim>\<open>patients.dat\<close>.
  \<^item> \<open>Room_Usage\<close>: the conversion \<^verbatim>\<open>%d\<close> of \<^verbatim>\<open>fscanf\<close> (\<open>scanf_d\<close>), the reading loop of
    \<open>displayRoomUsageReport\<close> (\<open>scan_rooms\<close>, \<open>usage_loop\<close>), the table (\<open>usage_rows\<close>) and the
    report.  Lemmas: \<open>scanf_d\<close> reads back what \<open>show_cint\<close> prints, the loop reads back what
    \<open>logRoomUsage\<close> wrote, and the counters after the loop are the tally of the entries.
  \<^item> \<open>Console_Input\<close>: standard input as the string of the unread characters, \<^verbatim>\<open>fgets\<close>,
    \<^verbatim>\<open>scanf\<close> with \<^verbatim>\<open>%d\<close> and \<^verbatim>\<open> %c\<close>, \<^verbatim>\<open>clearInputBuffer\<close>; the input loops \<open>getPatientName\<close>,
    \<open>getPatientAge\<close>, \<open>getPatientDiagnosis\<close>, \<open>getRoomNumber\<close> as partial functions; the
    handlers that read before they act (\<open>addPatientRecord_io\<close>, \<open>searchPatientById_io\<close>,
    \<open>dischargePatient_io\<close>).  Lemmas: each loop returns what its total specification
    (\<open>first_accepted\<close>, \<open>text_entry\<close>) says and changes only the console; an accepted entry at
    the start of a line is reached; what an admission runs with is admissible and
    storable.
  \<^item> \<open>Patient_Array\<close>: the earlier module \<^verbatim>\<open>src/patient.c\<close>: the state \<open>astore\<close> (the array
    \<^verbatim>\<open>patients\<close> as a list of \<open>slot\<close>s whose length is the capacity, \<^verbatim>\<open>totalPatients\<close>,
    \<^verbatim>\<open>patientIDCounter\<close>, the console), the loops \<open>patientExists\<close>, \<open>shift_left\<close> (of
    \<^verbatim>\<open>removePatientFromSystem\<close>) and \<open>checkRoomOccupancy\<close>, and the handlers
    \<open>a_addPatientRecord\<close>, \<open>a_viewPatientRecords\<close>, \<open>a_searchPatientById\<close>, \<open>a_dischargePatient\<close>.
    The abstraction \<open>active\<close> maps a state to the elements below \<^verbatim>\<open>totalPatients\<close>.
    Lemmas: the loops in closed form, admission and discharge as append and removal on
    \<open>active\<close>, and the two cases in which the array and the counter part ways.
  \<^item> this theory: the handlers and the reports as one datatype of operations (\<open>hms_op\<close>)
    with the step function \<open>exec_op\<close>, runs (\<open>run\<close>), the operations a well-behaved
    environment offers (\<open>admissible\<close>), the reachable states (\<open>reachable\<close>), and the
    properties that span components.  The menu that calls the handlers is not among the
    sources; \<open>hms_op\<close> lists the public functions of \<^verbatim>\<open>patient_management.c\<close>, of which the
    header declares six.

  \<^bold>\<open>State and effects.\<close>  A handler is a function \<open>hms \<Rightarrow> hms\<close>.  Everything the handler
  obtains from outside is an argument: the values typed by the user, the clock, and the
  outcome of each library call that can fail (\<open>init_env\<close>, \<open>add_env\<close>, \<open>discharge_env\<close>,
  \<open>upd_env\<close>, \<open>report_env\<close>).  Each \<^verbatim>\<open>return\<close> and each error branch of the source is a branch
  of the definition; what is printed is appended to \<open>console\<close>.  The handlers of
  \<open>Patient_Management\<close> start after their input; those of \<open>Console_Input\<close> take the unread
  standard input as well, return what is left of it, and run the former with the values
  read.  The handlers of \<open>Patient_Array\<close> are functions \<open>astore \<Rightarrow> astore\<close> of the same
  kind; their input functions read once, so what was read is an argument.

  \<^bold>\<open>The static object of localtime.\<close>  \<^verbatim>\<open>localtime\<close> returns a pointer to one object that
  every call overwrites.  \<open>countPatientsByTimeframe\<close> copies the fields of the current time
  before its loop, and its model compares the two times.  The other three loops keep the
  pointer \<^verbatim>\<open>currentTime\<close> and call \<^verbatim>\<open>localtime\<close> again for each record; their models name the
  content of the object after that call and read both \<^verbatim>\<open>currentTime\<close> and the time of the
  record from it, as the code does.

  \<^bold>\<open>Bounds and termination.\<close>  Counters and identifiers are 32-bit words, so the theorems
  about admission carry the hypothesis \<open>sint (patientIDCounter s) < INT_MAX\<close> where the
  source would overflow.  The loops over the list are structurally recursive; \<open>fread_all\<close>,
  \<open>scan_rooms\<close>, \<open>first_accepted\<close> and \<open>text_entry\<close> terminate by the length of the unread
  input, \<open>shift_left\<close> and \<open>checkRoomOccupancy_from\<close> by the distance of the index from
  its bound.  The four input loops need not return: they are \<^theory_text>\<open>partial_function (option)\<close>,
  \<open>None\<close> is a loop that runs for ever, and the lemmas say for which inputs that is.  No
  fuel is used.  The table of the room report has the 50 rows the source hard-codes.

  \<^bold>\<open>Assumptions.\<close>  What the model takes from outside the sources:
  \<^item> the byte layout of the two structs (theory \<open>Patient_Codec\<close>), used only through
    \<open>codec_ok\<close>; the constants of the missing headers as \<open>limits\<close>, with the bounds 1 and 255
    of the diagnosis in \<open>spec_limits\<close> chosen, not given by the specification;
  \<^item> the validators of \<^verbatim>\<open>src/patient.c\<close> stand for the validators that
    \<^verbatim>\<open>patient_management.c\<close> calls, and \<^verbatim>\<open>IS_NOT_VALID\<close> is \<^verbatim>\<open>IS_INVALID\<close>;
  \<^item> a call of \<^verbatim>\<open>fwrite\<close> that fails writes nothing; \<^verbatim>\<open>remove("patients.tmp")\<close> after a
    failed write (line 862) succeeds; \<^verbatim>\<open>rename\<close> replaces an existing file;
  \<^item> \<^verbatim>\<open>localtime\<close> returns the address of one static object on every call;
  \<^item> the quotient of \<^verbatim>\<open>difftime\<close> by 3600 is exact, so its conversion to \<^verbatim>\<open>int\<close> is the
    signed integer quotient;
  \<^item> signed arithmetic that overflows wraps around (the C standard leaves it undefined);
    the theorems that depend on a value in range say so;
  \<^item> an index into \<^verbatim>\<open>roomCounts\<close> is shown to be in range as a property of the guard
    (the list update of HOL does nothing outside the list);
  \<^item> a read of a variable or an array that holds no value, and a write past the end of
    an array, end the model of the call (\<open>fault\<close>);
  \<^item> in \<open>Patient_Array\<close> the capacity is the length of the list \<open>patients\<close>, and
    \<^verbatim>\<open>totalPatients\<close> is an unbounded integer, which the handlers keep between 0 and the
    capacity from a state where it is (\<open>a_wf\<close>); what \<^verbatim>\<open>scanf\<close> stores is the argument of
    the handler also when the conversion fails.

  \<^bold>\<open>Not modelled.\<close>  The numeric menu in front of the handlers and of the two timeframe
  reports (not among the sources): the choice is an argument.  Time zones other than
  UTC: the theorems hold for every calendar, the examples are evaluated with \<open>gmtime\<close>.
  The text of the standard input in front of the handlers of \<^verbatim>\<open>src/patient.c\<close>: its input
  functions read once with the calls that \<open>Console_Input\<close> models, and the handlers take
  the values read.  The nodes of the list as heap cells: the model is the sequence of
  records they hold.
\<close>

section \<open>The operations of the interface\<close>

datatype hms_op =
    Initialize init_env
  | AddPatient add_env
  | ViewPatients
  | SearchPatient cint
  | Discharge discharge_env
  | Backup upd_env
  | Restore init_env
  | AdmissionReport calendar report_env cint
  | DischargeReport calendar report_env cint
  | RoomReport bool

fun exec_op :: "limits \<Rightarrow> hms_op \<Rightarrow> hms \<Rightarrow> hms" where
  "exec_op L (Initialize e) s = initializePatientSystem L e s"
| "exec_op L (AddPatient e) s = addPatientRecord L e s"
| "exec_op L ViewPatients s = viewPatientRecords s"
| "exec_op L (SearchPatient i) s = searchPatientById i s"
| "exec_op L (Discharge e) s = dischargePatient L e s"
| "exec_op L (Backup e) s = backupPatientSystem L e s"
| "exec_op L (Restore e) s = restoreDataFromFile L e s"
| "exec_op L (AdmissionReport cal e choice) s = displayPatientReport cal e choice s"
| "exec_op L (DischargeReport cal e choice) s = displayDischargedPatientReport L cal e choice s"
| "exec_op L (RoomReport open_fails) s = displayRoomUsageReport open_fails s"

fun run :: "limits \<Rightarrow> hms_op list \<Rightarrow> hms \<Rightarrow> hms" where
  "run L [] s = s"
| "run L (a # as) s = run L as (exec_op L a s)"

fun admissible :: "limits \<Rightarrow> hms_op \<Rightarrow> hms \<Rightarrow> bool" where
  "admissible L (Initialize e) s = init_ok e"
| "admissible L (AddPatient e) s =
     (add_admissible L e s \<and> storable L (new_patient e s) \<and> add_malloc_ok e \<and>
      \<not> add_open_fails e \<and> \<not> add_write_fails e \<and> sint (patientIDCounter s) < INT_MAX)"
| "admissible L ViewPatients s = True"
| "admissible L (SearchPatient i) s = True"
| "admissible L (Discharge e) s = upd_ok (dis_upd e)"
| "admissible L (Backup e) s = upd_ok e"
| "admissible L (Restore e) s = init_ok e"
| "admissible L (AdmissionReport cal e choice) s = True"
| "admissible L (DischargeReport cal e choice) s = True"
| "admissible L (RoomReport open_fails) s = True"

definition disk_ok :: "limits \<Rightarrow> fs \<Rightarrow> bool" where
  "disk_ok L d =
     (case d PatientsDat of
        None \<Rightarrow> True
      | Some bytes \<Rightarrow>
          let xs = fread_all (patient_codec L) bytes
          in bytes = image_of L xs \<and> list_all (storable L) xs \<and> wf_records xs)"

inductive reachable :: "limits \<Rightarrow> hms \<Rightarrow> bool" for L :: limits where
  start: "disk_ok L d \<Longrightarrow> init_ok e \<Longrightarrow> reachable L (initializePatientSystem L e (boot d))"
| step: "reachable L s \<Longrightarrow> admissible L a s \<Longrightarrow> reachable L (exec_op L a s)"

section \<open>Reachable states\<close>

lemma run_append [simp]: "run L (as @ bs) s = run L bs (run L as s)"
  by (induction as arbitrary: s) simp_all

lemma start_store_inv:
  assumes "disk_ok L d" and "init_ok e"
  shows "store_inv L (initializePatientSystem L e (boot d))"
proof (cases "d PatientsDat")
  case None
  then have f: "files (boot d) PatientsDat = None" by simp
  from initializePatientSystem_no_file [of e "boot d" L] f
    initializePatientSystem_no_file_synced [OF f, of L e]
  show ?thesis by (simp add: store_inv_def empty_store_invariants)
next
  case (Some bytes)
  let ?xs = "fread_all (patient_codec L) bytes"
  from Some assms(1) have f: "files (boot d) PatientsDat = Some (image_of L ?xs @ [])"
    and st: "list_all (storable L) ?xs" and w: "wf_records ?xs"
    by (simp_all add: disk_ok_def Let_def)
  from initializePatientSystem_invariants [OF assms(2) f st _ w]
    initializePatientSystem_synced [OF assms(2) _ st, of "boot d"] f
  show ?thesis by (simp add: store_inv_def)
qed

lemma report_store_inv:
  "store_inv L s \<Longrightarrow> store_inv L (displayPatientReport cal e choice s)"
  "store_inv L s \<Longrightarrow> store_inv L (displayDischargedPatientReport L cal e choice s)"
  "store_inv L s \<Longrightarrow> store_inv L (displayRoomUsageReport open_fails s)"
  by (simp_all add: store_inv_def
      invariants_cong [of "displayPatientReport cal e choice s" s]
      invariants_cong [of "displayDischargedPatientReport L cal e choice s" s]
      invariants_cong [of "displayRoomUsageReport open_fails s" s])

text \<open>
  C1.  Every state that the program can reach from a start-up on a well-formed disk by
  admissible operations satisfies the four invariants of the store: identifiers are
  distinct, positive and below the counter; no room is held twice; \<^verbatim>\<open>totalPatients\<close> is
  the length of the list; \<^verbatim>\<open>patients.dat\<close> is the image of the list.  In particular
  \<^verbatim>\<open>totalPatients\<close> is below the counter, so it cannot overflow before the counter does.
\<close>

theorem reachable_store_inv:
  assumes "reachable L s"
  shows "ids_ok s \<and> rooms_ok s \<and> count_ok s \<and> synced L s \<and>
         sint (totalPatients s) < sint (patientIDCounter s)"
proof -
  from assms have inv: "store_inv L s"
  proof induction
    case (start d e)
    then show ?case by (rule start_store_inv)
  next
    case (step s a)
    then show ?case by (cases a) (simp_all add: handler_store_inv report_store_inv)
  qed
  have "sint (totalPatients s) < sint (patientIDCounter s)"
  proof (cases "patientHead s = []")
    case True
    with inv show ?thesis by (simp add: store_inv_def count_ok_def ids_ok_def)
  next
    case False
    with inv ids_ok_length [of s] show ?thesis by (simp add: store_inv_def count_ok_def)
  qed
  with inv show ?thesis by (simp add: store_inv_def)
qed

section \<open>A concrete run\<close>

text \<open>
  The scenario of the specification: a first start-up on a disk without files, the
  admission of one patient into room 12, and her discharge.
\<close>

definition fresh_disk :: fs where
  "fresh_disk = (\<lambda>f. None)"

definition calm :: init_env where
  "calm = \<lparr>ie_open_fails = False, ie_malloc_fails_at = None, ie_clear_open_fails = False\<rparr>"

definition jane :: add_env where
  "jane = \<lparr>in_name = ''Jane Doe'', in_age = 34, in_diagnosis = ''Fracture'', in_room = 12,
            add_now = 1700000000, add_malloc_ok = True, add_open_fails = False,
            add_write_fails = False\<rparr>"

definition jane_record :: Patient where
  "jane_record = createPatient ''Jane Doe'' 34 ''Fracture'' 12 1 1700000000"

definition first_boot :: hms where
  "first_boot = exec_op spec_limits (Initialize calm) (boot fresh_disk)"

definition ward :: hms where
  "ward = exec_op spec_limits (AddPatient jane) first_boot"

text \<open>What the operator types for the admission of the scenario, with one rejected name
  and one line that is not a number, and the state after the prompts.\<close>

definition jane_types :: string where
  "jane_types = ''J\<newline>Jane Doe\<newline>abc\<newline>34\<newline>Fracture\<newline>12\<newline>''"

definition jane_prompted :: hms where
  "jane_prompted =
     fold (\<lambda>line. say (Printf line))
       [''Enter Patient Name:\<newline>'', ''Invalid patient name. Please try again.\<newline>'',
        ''Enter Patient Name:\<newline>'', ''Enter Patient Age:\<newline>'',
        ''Invalid input. Please enter a number.\<newline>'', ''Enter Patient Age:\<newline>'',
        ''Enter Patient Diagnosis:\<newline>'', ''Enter Patient Room:\<newline>'']
       first_boot"

text \<open>Two states of the array register of \<^verbatim>\<open>src/patient.c\<close>: one patient in an array of
  three, and a full array of two.\<close>

definition slot_a :: slot where
  "slot_a = \<lparr>s_patientId = 1, s_name = ''Jane Doe'', s_age = 34, s_diagnosis = ''Fracture'',
             s_roomNumber = 12\<rparr>"

definition slot_b :: slot where
  "slot_b = \<lparr>s_patientId = 2, s_name = ''John Roe'', s_age = 51, s_diagnosis = ''Flu'',
             s_roomNumber = 13\<rparr>"

definition ann :: a_add_env where
  "ann = \<lparr>a_in_name = ''John Roe'', a_in_age = 51, a_in_diagnosis = ''Flu'', a_in_room = 13\<rparr>"

definition register1 :: astore where
  "register1 = \<lparr>patients = [slot_a, empty_slot, empty_slot], a_totalPatients = 1,
                a_patientIDCounter = 2, a_console = []\<rparr>"

definition register_full :: astore where
  "register_full = \<lparr>patients = [slot_a, slot_b], a_totalPatients = 2,
                    a_patientIDCounter = 3, a_console = []\<rparr>"

lemma first_boot_fields [simp]:
  "patientHead first_boot = []" "totalPatients first_boot = 0" "patientIDCounter first_boot = 1"
  "files first_boot = fresh_disk"
  using initializePatientSystem_no_file [of calm "boot fresh_disk" spec_limits]
  by (simp_all add: first_boot_def fresh_disk_def c_constants)

lemma reachable_first_boot: "reachable spec_limits first_boot"
  unfolding first_boot_def exec_op.simps
  by (rule reachable.start) (simp_all add: disk_ok_def fresh_disk_def init_ok_def calm_def)

lemma jane_record_storable: "storable spec_limits jane_record"
  by (simp add: storable_def jane_record_def spec_limits_def NUL_def)

lemma admissible_jane: "admissible spec_limits (AddPatient jane) first_boot"
  using jane_record_storable
  by (simp add: add_admissible_def validate_defs spec_limits_def jane_def new_patient_def
      jane_record_def c_constants INT_MAX_def cint_less)

lemma ward_fields [simp]:
  "patientHead ward = [jane_record]" "totalPatients ward = 1" "patientIDCounter ward = 2"
  "files ward PatientsDat = Some (Patient_bytes spec_limits jane_record)"
  by (simp_all add: ward_def addPatientRecord_store addPatientRecord_files new_patient_def
      jane_def jane_record_def fresh_disk_def)

lemma reachable_ward: "reachable spec_limits ward"
  unfolding ward_def using reachable_first_boot admissible_jane by (rule reachable.step)

theorem reachable_store_inv_witness:
  "ids_ok ward \<and> rooms_ok ward \<and> count_ok ward \<and> synced spec_limits ward \<and>
   sint (totalPatients ward) < sint (patientIDCounter ward)"
  using reachable_ward by (rule reachable_store_inv)

section \<open>Runs of admissions\<close>

text \<open>
  C10.  A run of admissions whose allocations succeed appends the new records in the
  order of the admissions, with the names and rooms that were entered and with the
  consecutive identifiers counter, counter + 1, ...; as long as the counter stays within
  the range of \<^verbatim>\<open>int\<close> these identifiers are strictly increasing.
\<close>

theorem admissions_in_order:
  assumes "list_all add_malloc_ok es"
    and "sint (patientIDCounter s) + int (length es) \<le> INT_MAX"
  shows "map patientId (patientHead (run L (map AddPatient es) s)) =
           map patientId (patientHead s) @
           map (\<lambda>k. patientIDCounter s + of_nat k) [0..<length es] \<and>
         map name (patientHead (run L (map AddPatient es) s)) =
           map name (patientHead s) @ map in_name es \<and>
         map roomNumber (patientHead (run L (map AddPatient es) s)) =
           map roomNumber (patientHead s) @ map in_room es \<and>
         sorted_wrt (\<lambda>a b. sint a < sint b)
           (map (\<lambda>k. patientIDCounter s + of_nat k) [0..<length es])"
proof -
  have admitted: "map patientId (patientHead (run L (map AddPatient es) s)) =
        map patientId (patientHead s) @
        map (\<lambda>k. patientIDCounter s + of_nat k) [0..<length es] \<and>
      map name (patientHead (run L (map AddPatient es) s)) =
        map name (patientHead s) @ map in_name es \<and>
      map roomNumber (patientHead (run L (map AddPatient es) s)) =
        map roomNumber (patientHead s) @ map in_room es" for s
    using assms(1)
  proof (induction es arbitrary: s)
    case Nil
    then show ?case by simp
  next
    case (Cons e es)
    let ?s1 = "exec_op L (AddPatient e) s"
    from Cons.prems have h: "patientHead ?s1 = patientHead s @ [new_patient e s]"
      and c: "patientIDCounter ?s1 = patientIDCounter s + 1"
      by (simp_all add: addPatientRecord_store)
    have "map (\<lambda>k. patientIDCounter s + of_nat k) [0..<length (e # es)] =
        patientIDCounter s # map (\<lambda>k. patientIDCounter s + 1 + of_nat k) [0..<length es]"
      by (simp add: map_upt_Suc add.assoc del: upt_Suc)
    with Cons.IH [of ?s1] Cons.prems h c show ?case by (simp del: exec_op.simps)
  qed
  have "sint (patientIDCounter s + of_nat k) = sint (patientIDCounter s) + int k"
    if "k < length es" for k
    using that assms(2) by (intro sint_add_nat32) simp
  then have "sorted_wrt (\<lambda>a b. sint a < sint b)
      (map (\<lambda>k. patientIDCounter s + of_nat k) [0..<length es])"
    by (simp add: sorted_wrt_iff_nth_less)
  with admitted [of s] show ?thesis by simp
qed

section \<open>Restore in a state that satisfies the invariants\<close>

lemma restore_in_sync:
  assumes "store_inv L s" and "init_ok e"
  shows "patientHead (restoreDataFromFile L e s) = patientHead s \<and>
         totalPatients (restoreDataFromFile L e s) = totalPatients s \<and>
         patientIDCounter (restoreDataFromFile L e s) = computeNextPatientId (patientHead s) \<and>
         files (restoreDataFromFile L e s) PatientsDat = files s PatientsDat"
proof (cases "files s PatientsDat")
  case None
  with assms(1) have "patientHead s = []" "sint (totalPatients s) = 0"
    by (simp_all add: store_inv_def synced_def count_ok_def)
  with None initializePatientSystem_no_file [of e s L] show ?thesis
    by (simp add: restoreDataFromFile_def c_constants signed_eq_0_iff)
next
  case (Some bytes)
  with assms(1) have f: "files s PatientsDat = Some (image_of L (patientHead s) @ [])"
    and st: "list_all (storable L) (patientHead s)"
    and t: "sint (totalPatients s) = int (length (patientHead s))"
    by (simp_all add: store_inv_def synced_def count_ok_def)
  from assms(1) have "int (length (patientHead s)) < INT_MAX"
    by (simp add: store_inv_def store_inv_wf_records wf_records_length)
  then have "sint (of_nat (length (patientHead s)) :: cint) = int (length (patientHead s))"
    by (simp add: sint_of_nat32 INT_MAX_def)
  with t have "sint (totalPatients s) = sint (of_nat (length (patientHead s)) :: cint)"
    by simp
  then have "totalPatients s = of_nat (length (patientHead s))"
    by (rule injD [OF inj_sint])
  with initializePatientSystem_image [OF assms(2) f st] f
    initializePatientSystem_files_kept [OF assms(2) _ st, of s]
  show ?thesis by (simp add: restoreDataFromFile_def)
qed

text \<open>
  C23.  In a state that satisfies the invariants of the store, so in every reachable
  state, a restore changes neither the list nor \<^verbatim>\<open>totalPatients\<close>
  nor \<^verbatim>\<open>patients.dat\<close>; it only recomputes the counter from the identifiers of the
  list, which can lower it but never below an identifier in use.
\<close>

theorem restore_keeps_store:
  assumes "store_inv L s" and "init_ok e"
  shows "patientHead (exec_op L (Restore e) s) = patientHead s \<and>
         totalPatients (exec_op L (Restore e) s) = totalPatients s \<and>
         files (exec_op L (Restore e) s) PatientsDat = files s PatientsDat \<and>
         sint (patientIDCounter (exec_op L (Restore e) s)) \<le> sint (patientIDCounter s) \<and>
         ids_ok (exec_op L (Restore e) s)"
proof -
  note inv = assms(1)
  then have "wf_records (patientHead s)" by (simp add: store_inv_def store_inv_wf_records)
  then have b: "\<forall>p \<in> set (patientHead s). sint (patientId p) < INT_MAX"
    by (simp add: wf_records_def list_all_iff)
  have "sint (max_id_loop 0 (patientHead s)) < sint (patientIDCounter s)"
    using max_id_loop_attained [of 0 "patientHead s"] inv
    by (auto simp: store_inv_def ids_ok_def list_all_iff)
  with computeNextPatientId_sint [OF b]
  have "sint (computeNextPatientId (patientHead s)) \<le> sint (patientIDCounter s)" by simp
  moreover from inv assms(2) have "store_inv L (exec_op L (Restore e) s)"
    by (simp add: handler_store_inv)
  ultimately show ?thesis
    using restore_in_sync [OF inv assms(2)] by (simp add: store_inv_def)
qed

section \<open>Identifiers after a restore\<close>

text \<open>
  C17.  Identifiers can be assigned twice: when the patient with the largest identifier
  is discharged and the store is then restored from the file, the counter is recomputed
  from the remaining records, and the next admission receives an identifier that is not
  above the identifier of the discharged patient, which is in the archive.
\<close>

theorem restore_reuses_discharged_id:
  assumes "store_inv L s" and "discharge_goes e s p" and "upd_ok (dis_upd e)"
    and "init_ok e'" and "\<forall>q \<in> set (patientHead s). sint (patientId q) \<le> sint (in_id e)"
  shows "sint (patientId (new_patient a (run L [Discharge e, Restore e'] s)))
           \<le> sint (patientId p)"
proof -
  let ?s1 = "dischargePatient L e s"
  note inv = assms(1)
  with assms(3) have inv1: "store_inv L ?s1" by (simp add: dischargePatient_store_inv)
  from assms(2) have p: "p \<in> set (patientHead s)" "patientId p = in_id e"
    by (auto simp: discharge_goes_def dest: getPatientFromList_SomeD)
  with inv have pos: "0 < sint (in_id e)" by (auto simp: store_inv_def ids_ok_def list_all_iff)
  note u = dischargePatient_store(1) [OF assms(2), of L]
  from inv have "distinct (map patientId (patientHead s))" by (simp add: store_inv_def ids_ok_def)
  with u have gone: "in_id e \<notin> patientId ` set (patientHead ?s1)" by (rule unlink_node_gone)
  have below: "\<forall>q \<in> set (patientHead ?s1). sint (patientId q) < sint (in_id e)"
  proof
    fix q assume q: "q \<in> set (patientHead ?s1)"
    with unlink_node_subset [OF u] assms(5) have "sint (patientId q) \<le> sint (in_id e)"
      by auto
    moreover have "sint (patientId q) \<noteq> sint (in_id e)"
    proof
      assume "sint (patientId q) = sint (in_id e)"
      then have "patientId q = in_id e" by (rule injD [OF inj_sint])
      with q gone show False by (auto simp: image_iff)
    qed
    ultimately show "sint (patientId q) < sint (in_id e)" by simp
  qed
  from inv1 have "wf_records (patientHead ?s1)" by (simp add: store_inv_def store_inv_wf_records)
  then have "\<forall>q \<in> set (patientHead ?s1). sint (patientId q) < INT_MAX"
    by (simp add: wf_records_def list_all_iff)
  from computeNextPatientId_sint [OF this] max_id_loop_attained [of 0 "patientHead ?s1"] below pos
  have "sint (computeNextPatientId (patientHead ?s1)) \<le> sint (in_id e)" by auto
  with restore_in_sync [OF inv1 assms(4)] p(2) show ?thesis by simp
qed

section \<open>The scenario, continued\<close>

definition discharge_jane :: discharge_env where
  "discharge_jane =
     \<lparr>in_id = 1, in_confirm = CHR ''y'', dis_now = 1700003600, archive_open_fails = False,
      archive_write_fails = False, log_open_fails = False, log_write_fails = False,
      dis_upd = no_upd_faults\<rparr>"

definition discharged :: hms where
  "discharged = exec_op spec_limits (Discharge discharge_jane) ward"

lemma store_inv_first_boot: "store_inv spec_limits first_boot"
  unfolding first_boot_def exec_op.simps
  by (rule start_store_inv) (simp_all add: disk_ok_def fresh_disk_def init_ok_def calm_def)

lemma store_inv_ward: "store_inv spec_limits ward"
  using store_inv_first_boot admissible_jane by (simp add: ward_def handler_store_inv)

lemma ward_other_files: "f \<noteq> PatientsDat \<Longrightarrow> files ward f = None"
  by (simp add: ward_def addPatientRecord_files jane_def fresh_disk_def)

lemma jane_goes: "discharge_goes discharge_jane ward jane_record"
  by (simp add: discharge_goes_def discharge_jane_def jane_record_def)

lemma env_facts [simp]:
  "upd_ok no_upd_faults" "init_ok calm" "add_malloc_ok jane" "in_room jane = 12"
  "in_id discharge_jane = 1" "dis_upd discharge_jane = no_upd_faults"
  "\<not> log_open_fails discharge_jane" "\<not> log_write_fails discharge_jane"
  "in_confirm discharge_jane = CHR ''y''" "dis_now discharge_jane = 1700003600"
  by (simp_all add: upd_ok_def no_upd_faults_def init_ok_def calm_def jane_def discharge_jane_def)

lemma jane_record_fields [simp]:
  "patientId jane_record = 1" "roomNumber jane_record = 12" "name jane_record = ''Jane Doe''"
  by (simp_all add: jane_record_def)

lemma show_cint_12: "show_cint 12 = ''12''"
  by (simp add: show_cint_def show_int_def show_nat.simps digit_char_def)

lemma discharged_fields:
  "patientHead discharged = []"
  "files discharged DischargedDat =
     Some (Discharged_bytes spec_limits \<lparr>patient = jane_record, dischargeDate = 1700003600\<rparr>)"
  "files discharged RoomUsageTxt = Some ''12\<newline>''"
  "files discharged PatientsDat = Some []"
  using dischargePatient_store(1) [OF jane_goes, of spec_limits]
    dischargePatient_archive [OF jane_goes, of spec_limits]
    dischargePatient_room_log [OF jane_goes, of spec_limits]
    dischargePatient_active_file [OF jane_goes, of spec_limits]
  by (simp_all add: discharged_def ward_other_files show_cint_12 unlink_node_def)

text \<open>
  C11.  The scenario of the specification.  On an empty store the admission of Jane Doe
  into room 12 gives a list of length one whose record has identifier 1, and room 12 is
  occupied, so a second admission into room 12 is not admissible.  Her confirmed
  discharge empties the list, leaves one entry for her in the archive, frees room 12,
  writes the line \<^verbatim>\<open>12\<close> to \<^verbatim>\<open>room_usage.txt\<close> and rewrites \<^verbatim>\<open>patients.dat\<close> as the empty file.
\<close>

theorem spec_scenario:
  "patientHead ward = [jane_record] \<and> patientId jane_record = 1 \<and>
   isRoomOccupiedInList 12 (patientHead ward) = 1 \<and>
   \<not> add_admissible spec_limits (jane\<lparr>in_name := ''John Roe''\<rparr>) ward \<and>
   patientHead discharged = [] \<and>
   files discharged DischargedDat =
     Some (Discharged_bytes spec_limits \<lparr>patient = jane_record, dischargeDate = 1700003600\<rparr>) \<and>
   fread_all (discharged_codec spec_limits)
     (Discharged_bytes spec_limits \<lparr>patient = jane_record, dischargeDate = 1700003600\<rparr>)
     = [\<lparr>patient = jane_record, dischargeDate = 1700003600\<rparr>] \<and>
   isRoomOccupiedInList 12 (patientHead discharged) = ROOM_UNOCCUPIED \<and>
   files discharged RoomUsageTxt = Some ''12\<newline>'' \<and>
   files discharged PatientsDat = Some []"
proof -
  let ?d = "\<lparr>patient = jane_record, dischargeDate = 1700003600\<rparr>"
  have "fread_all (discharged_codec spec_limits) (fwrite_all (discharged_codec spec_limits) [?d])
      = [?d]"
    using discharged_codec_ok
    by (rule fread_all_fwrite_all) (simp add: jane_record_storable)
  moreover have "\<not> add_admissible spec_limits (jane\<lparr>in_name := ''John Roe''\<rparr>) ward"
    by (simp add: add_admissible_def c_constants)
  ultimately show ?thesis by (simp add: discharged_fields c_constants)
qed

section \<open>The theorems of the components at the scenario\<close>

lemma sizeof_Patient_spec: "sizeof_Patient spec_limits = 375"
  by (simp add: sizeof_Patient_def spec_limits_def)

lemma new_patient_jane: "new_patient jane first_boot = jane_record"
  by (simp add: new_patient_def jane_def jane_record_def)

definition torn_disk :: fs where
  "torn_disk = fresh_disk(PatientsDat \<mapsto> image_of spec_limits [jane_record] @ ''abc'')"

definition twin_disk :: fs where
  "twin_disk = fresh_disk(PatientsDat \<mapsto> image_of spec_limits [jane_record, jane_record])"

theorem fread_all_truncated_witness:
  "fread_all (patient_codec spec_limits)
     (take 500 (fwrite_all (patient_codec spec_limits) [jane_record, jane_record]))
   = [jane_record]"
  using fread_all_truncated [OF patient_codec_ok, where xs = "[jane_record, jane_record]" and n = 500
      and L1 = spec_limits]
    jane_record_storable
  by (simp add: sizeof_Patient_spec)

theorem fread_all_consumes_witness:
  "length (fread_all (patient_codec spec_limits) (replicate 800 (CHR ''a''))) = 2"
  using fread_all_consumes [where c = "patient_codec spec_limits" and bs = "replicate 800 (CHR ''a'')"]
  by (simp add: sizeof_Patient_spec)

theorem computeNextPatientId_max_witness:
  "sint (computeNextPatientId [jane_record, jane_record\<lparr>patientId := 7\<rparr>]) = 8"
  using computeNextPatientId_max [where xs = "[jane_record, jane_record\<lparr>patientId := 7\<rparr>]"]
  by (simp add: INT_MAX_def)

theorem updatePatientsFile_keeps_original_witness:
  "files (updatePatientsFile spec_limits (no_upd_faults\<lparr>write_fails_at := Some 0\<rparr>) ward)
     PatientsDat = Some (Patient_bytes spec_limits jane_record)"
  using updatePatientsFile_keeps_original
    [where e = "no_upd_faults\<lparr>write_fails_at := Some 0\<rparr>" and s = ward and L = spec_limits]
  by (simp add: upd_write_error_def no_upd_faults_def)

theorem updatePatientsFile_rename_failure_witness:
  "files (updatePatientsFile spec_limits (no_upd_faults\<lparr>rename_fails := True\<rparr>) ward)
     PatientsDat = None"
  using updatePatientsFile_rename_failure
    [where e = "no_upd_faults\<lparr>rename_fails := True\<rparr>" and s = ward and L = spec_limits]
  by (simp add: upd_write_error_def no_upd_faults_def)

theorem admission_assigns_fresh_id_witness:
  "patientHead (addPatientRecord spec_limits jane first_boot) = [jane_record] \<and>
   ids_ok (addPatientRecord spec_limits jane first_boot)"
  using admission_assigns_fresh_id [where s = first_boot and e = jane and L = spec_limits] store_inv_first_boot
  by (simp add: store_inv_def INT_MAX_def new_patient_jane)

theorem admission_keeps_rooms_exclusive_witness:
  "rooms_ok (addPatientRecord spec_limits jane first_boot)"
  using admission_keeps_rooms_exclusive [where s = first_boot and e = jane and L = spec_limits] store_inv_first_boot
  by (simp add: store_inv_def c_constants)

theorem admission_malloc_failure_drops_list_witness:
  "patientHead (addPatientRecord spec_limits (jane\<lparr>add_malloc_ok := False\<rparr>) ward) = [] \<and>
   \<not> count_ok (addPatientRecord spec_limits (jane\<lparr>add_malloc_ok := False\<rparr>) ward)"
  using admission_malloc_failure_drops_list
    [where e = "jane\<lparr>add_malloc_ok := False\<rparr>" and s = ward and L = spec_limits]
    store_inv_ward
  by (simp add: store_inv_def jane_def)

theorem admission_counter_overflow_witness:
  "sint (patientIDCounter
     (addPatientRecord spec_limits jane (ward\<lparr>patientIDCounter := 2147483647\<rparr>))) = INT_MIN"
  using admission_counter_overflow
    [where s = "ward\<lparr>patientIDCounter := 2147483647\<rparr>" and L = spec_limits and e = jane]
  by (simp add: INT_MAX_def)

theorem discharge_is_terminal_witness:
  "patientHead (dischargePatient spec_limits discharge_jane ward) = [] \<and>
   getPatientFromList 1 (patientHead (dischargePatient spec_limits discharge_jane ward)) = None"
  using discharge_is_terminal [OF jane_goes, where L = spec_limits] store_inv_ward
  by (simp add: store_inv_def)

theorem discharge_appends_archive_and_log_witness:
  "files (dischargePatient spec_limits discharge_jane ward) RoomUsageTxt = Some ''12\<newline>''"
  using discharge_appends_archive_and_log [OF jane_goes, where L = spec_limits]
  by (simp add: ward_other_files show_cint_12)

theorem discharge_archive_failure_keeps_patient_witness:
  "patientHead (dischargePatient spec_limits (discharge_jane\<lparr>archive_open_fails := True\<rparr>) ward)
     = [jane_record]"
  using discharge_archive_failure_keeps_patient
    [where e = "discharge_jane\<lparr>archive_open_fails := True\<rparr>" and s = ward and p = jane_record
      and L = spec_limits]
  by simp

theorem load_stops_at_last_complete_record_witness:
  "patientHead (initializePatientSystem spec_limits calm (boot torn_disk)) = [jane_record]"
  using load_stops_at_last_complete_record
    [where e = calm and s = "boot torn_disk" and L = spec_limits and xs = "[jane_record]"
      and junk = "''abc''"] jane_record_storable
  by (simp add: sizeof_Patient_spec torn_disk_def)

theorem load_after_rewrite_witness:
  "patientHead (initializePatientSystem spec_limits calm
     (updatePatientsFile spec_limits no_upd_faults ward)) = [jane_record]"
  using load_after_rewrite [where u = no_upd_faults and e = calm and s = ward and L = spec_limits] jane_record_storable
  by simp

theorem load_idempotent_witness:
  "patientHead (initializePatientSystem spec_limits calm
     (initializePatientSystem spec_limits calm ward)) =
   patientHead (initializePatientSystem spec_limits calm ward)"
  using load_idempotent [where e = calm and L = spec_limits and s = ward] by simp

theorem restore_backup_roundtrip_witness:
  "files (backupPatientSystem spec_limits no_upd_faults
     (restoreDataFromFile spec_limits calm ward)) PatientsDat =
   Some (Patient_bytes spec_limits jane_record)"
  using restore_backup_roundtrip
    [where e = calm and u = no_upd_faults and s = ward and L = spec_limits and xs = "[jane_record]"]
    jane_record_storable
  by simp

theorem load_accepts_duplicate_ids_witness:
  "\<not> ids_ok (initializePatientSystem spec_limits calm (boot twin_disk))"
  using load_accepts_duplicate_ids
    [where e = calm and s = "boot twin_disk" and L = spec_limits and xs = "[jane_record, jane_record]"] jane_record_storable
  by (simp add: twin_disk_def)

theorem admissions_in_order_witness:
  "map patientId
     (patientHead (run spec_limits [AddPatient jane, AddPatient (jane\<lparr>in_room := 13\<rparr>)] first_boot))
   = [1, 2]"
  using admissions_in_order
    [where es = "[jane, jane\<lparr>in_room := 13\<rparr>]" and s = first_boot and L = spec_limits]
  by (simp add: INT_MAX_def upt_rec)

theorem restore_keeps_store_witness:
  "patientHead (exec_op spec_limits (Restore calm) ward) = [jane_record]"
  using restore_keeps_store [OF store_inv_ward, where e = calm] by simp

theorem restore_reuses_discharged_id_witness:
  "sint (patientId
     (new_patient jane (run spec_limits [Discharge discharge_jane, Restore calm] ward))) \<le> 1"
  using restore_reuses_discharged_id [OF store_inv_ward jane_goes, where e' = calm and a = jane] by simp

section \<open>The reports at the scenario\<close>

definition ward_at :: "time_t \<Rightarrow> hms" where
  "ward_at t = ward\<lparr>patientHead := [jane_record\<lparr>admissionDate := t\<rparr>]\<rparr>"

lemma ward_at_fields [simp]:
  "patientHead (ward_at t) = [jane_record\<lparr>admissionDate := t\<rparr>]"
  "console (ward_at t) = console ward"
  by (simp_all add: ward_at_def)

lemma count_one:
  "fst (countPatientsByTimeframe cal now tf (ward_at t)) =
     (if in_timeframe cal now tf t then 1 else 0)"
  by (simp add: countPatientsByTimeframe_def Let_def count_admitted_filter in_timeframe_def)

text \<open>
  The filters of \<open>countPatientsByTimeframe\<close> evaluated with the calendar of UTC at two
  instants: 30 hours before 2023-11-14 22:13:20 is outside the daily window and, here,
  within the same week and month; 2023-12-28 is outside the weekly filter of 2024-01-02,
  because the days of the year are compared within one calendar year; 24 hours and 59
  minutes before the current time is inside the daily window.
\<close>

lemma timeframe_examples:
  "fst (countPatientsByTimeframe gmtime 1700000000 1 (ward_at 1699892000)) = 0 \<and>
   fst (countPatientsByTimeframe gmtime 1700000000 2 (ward_at 1699892000)) = 1 \<and>
   fst (countPatientsByTimeframe gmtime 1700000000 3 (ward_at 1699892000)) = 1 \<and>
   fst (countPatientsByTimeframe gmtime 1704153600 2 (ward_at 1703721600)) = 0 \<and>
   fst (countPatientsByTimeframe gmtime 1700000000 1 (ward_at 1699910060)) = 1"
proof -
  have "\<not> in_timeframe gmtime 1700000000 1 1699892000"
    and "in_timeframe gmtime 1700000000 2 1699892000"
    and "in_timeframe gmtime 1700000000 3 1699892000"
    and "\<not> in_timeframe gmtime 1704153600 2 1703721600"
    and "in_timeframe gmtime 1700000000 1 1699910060"
    by code_simp+
  then show ?thesis by (simp add: count_one)
qed

lemma scan_rooms_12: "scan_rooms ''12\<newline>'' = [12]"
  using scan_rooms_room_log [of "[]" "[12]"] by (simp add: show_cint_12)

lemma usage_rows_12: "usage_rows (tally [12] (replicate 51 0)) = [''12   | 1\<newline>'']"
  by code_simp

lemma show_cint_1: "show_cint 1 = ''1''"
  by code_simp

text \<open>
  C33.  The room usage report after the scenario: with the one line \<^verbatim>\<open>12\<close> in
  \<^verbatim>\<open>room_usage.txt\<close> the report prints the title, the table head, the row of room 12
  with count 1, and the totals 1 and 1, and nothing on the error stream.
\<close>

theorem room_report_scenario:
  "console (displayRoomUsageReport False discharged) =
     console discharged @
     [Printf ''\<newline>--- Room Usage Report ---\<newline>'',
      Printf ''Room | Usage Count\<newline>'', Printf ''-----|------------\<newline>'',
      Printf ''12   | 1\<newline>'',
      Printf ''-------------------------\<newline>'',
      Printf ''Total entries read: 1\<newline>'', Printf ''Valid rooms logged: 1\<newline>'',
      Printf ''-------------------------\<newline>'']"
proof -
  have "valid_room_entry 12" by (simp add: valid_room_entry_def cint_less)
  then show ?thesis
    by (simp add: displayRoomUsageReport_def discharged_fields scan_rooms_12 usage_loop_eq
        usage_rows_12 show_cint_1)
qed

theorem daily_window_is_25_hours_witness:
  "fst (countPatientsByTimeframe gmtime 1700000000 1 (ward_at 1699910001)) = 1"
  using daily_window_is_25_hours
    [where s = "ward_at 1699910001" and now = 1700000000 and cal = gmtime]
  by simp

theorem report_lists_every_patient_witness:
  "length (console (printFormattedReport gmtime 1700000000 PatientReportsTxt ''Weekly'' 1 2
     (ward_at 0))) = length (console ward) + 6"
  using report_lists_every_patient
    [where tf = 2 and result = 1 and cal = gmtime and now = 1700000000
      and f = PatientReportsTxt and header = "''Weekly''" and s = "ward_at 0"]
  by simp

theorem discharged_count_ignores_dates_witness:
  "fst (countDischargedPatientsByTimeframe spec_limits gmtime 9999999999 False 3 discharged) = 1"
  using discharged_count_ignores_dates
    [where tf = 3 and s = discharged and L = spec_limits and cal = gmtime and now = 9999999999
      and bytes = "Discharged_bytes spec_limits
         \<lparr>patient = jane_record, dischargeDate = 1700003600\<rparr>"]
  by (simp add: discharged_fields sizeof_DischargedPatient_def)

theorem room_log_read_back_witness:
  "scan_rooms (room_log [12, 7] @ ''x 13\<newline>'') = [12, 7]"
proof -
  have "scanf_d ''x 13\<newline>'' = None" by code_simp
  with room_log_read_back [where s = discharged and rs = "[12]" and r = 7 and junk = "''x 13\<newline>''"]
  show ?thesis by (simp add: discharged_fields show_cint_12)
qed

theorem usage_loop_tallies_witness:
  "fst (usage_loop [12, 99, 12] (replicate 51 0) 0 0 ward) ! 12 = 2"
proof -
  have "filter (\<lambda>r. valid_room_entry r \<and> unat r = 12) [12, 99, 12 :: cint] = [12, 12]"
    by code_simp
  with usage_loop_tallies
    [where counts = "replicate 51 0" and i = 12 and rs = "[12, 99, 12]" and t = 0 and v = 0
      and s = ward]
  show ?thesis by simp
qed

section \<open>The admission of the scenario, typed at the console\<close>

lemma name_typed:
  "getPatientName spec_limits None jane_types s =
     Some (Inr (''Jane Doe'', ''abc\<newline>34\<newline>Fracture\<newline>12\<newline>'',
       say (Printf ''Enter Patient Name:\<newline>'')
         (say (Printf ''Invalid patient name. Please try again.\<newline>'')
            (say (Printf ''Enter Patient Name:\<newline>'') s))))"
  unfolding jane_types_def
  by (subst getPatientName.simps, simp add: fgets_into_def fgets_def cut_newline_def NUL_def
        validatePatientName_def spec_limits_def Let_def)+

lemma scanf_34: "scanf_d (''34'' @ CHR 0x0A # rest) = Some (34, CHR 0x0A # rest)"
  by (simp add: scanf_d_def skip_sign_def is_space_def is_digit_def digits_nat_def digit_val_def Let_def)


lemma age_typed:
  "getPatientAge spec_limits ''abc\<newline>34\<newline>Fracture\<newline>12\<newline>'' s =
     Some (34, ''Fracture\<newline>12\<newline>'',
       say (Printf ''Enter Patient Age:\<newline>'')
         (say (Printf ''Invalid input. Please enter a number.\<newline>'')
            (say (Printf ''Enter Patient Age:\<newline>'') s)))"
proof -
  have none: "scanf_d ''abc\<newline>34\<newline>Fracture\<newline>12\<newline>'' = None"
    by (simp add: scanf_d_def skip_sign_def is_space_def is_digit_def Let_def)
  have rest: "clearInputBuffer (scanf_d_unread ''abc\<newline>34\<newline>Fracture\<newline>12\<newline>'')
      = ''34\<newline>Fracture\<newline>12\<newline>''"
    by (simp add: clearInputBuffer_def scanf_d_unread_def skip_sign_def is_space_def)
  have valid: "validatePatientAge spec_limits 34 = IS_VALID"
    by (simp add: validatePatientAge_def spec_limits_def cint_less)
  from scanf_34 [of "''Fracture\<newline>12\<newline>''"]
  have some: "scanf_d ''34\<newline>Fracture\<newline>12\<newline>'' = Some (34, ''\<newline>Fracture\<newline>12\<newline>'')"
    by simp
  have "clearInputBuffer ''\<newline>Fracture\<newline>12\<newline>'' = ''Fracture\<newline>12\<newline>''"
    by (simp add: clearInputBuffer_def)
  with getPatientAge_step(2) [OF some valid, of s] show ?thesis
    by (simp only: getPatientAge_step(1) [OF none] rest getPatientAge_step(2) [OF some valid])
qed

lemma diagnosis_typed:
  "getPatientDiagnosis spec_limits None ''Fracture\<newline>12\<newline>'' s =
     Some (Inr (''Fracture'', ''12\<newline>'', say (Printf ''Enter Patient Diagnosis:\<newline>'') s))"
  by (subst getPatientDiagnosis.simps)
     (simp add: fgets_into_def fgets_def cut_newline_def NUL_def validatePatientDiagnosis_def
        spec_limits_def Let_def)

lemma room_typed:
  assumes "patientHead s = []"
  shows "getRoomNumber spec_limits ''12\<newline>'' s =
           Some (12, [], say (Printf ''Enter Patient Room:\<newline>'') s)"
proof -
  have some: "scanf_d ''12\<newline>'' = Some (12, ''\<newline>'')"
    by (simp add: scanf_d_def skip_sign_def is_space_def is_digit_def digits_nat_def
        digit_val_def Let_def)
  from assms have "room_free spec_limits (patientHead s) 12"
    by (simp add: room_free_def valid_room_spec_limits)
  from getRoomNumber_step(2) [OF some this] show ?thesis by (simp add: clearInputBuffer_def)
qed

lemma jane_typed:
  "addPatientRecord_io spec_limits jane jane_types first_boot =
     Some (Inr ([], addPatientRecord spec_limits jane jane_prompted))"
proof -
  have "jane\<lparr>in_name := ''Jane Doe'', in_age := 34, in_diagnosis := ''Fracture'', in_room := 12\<rparr>
      = jane" by (simp add: jane_def)
  then show ?thesis
    by (simp add: addPatientRecord_io_def name_typed age_typed diagnosis_typed room_typed
        jane_prompted_def)
qed

theorem admission_input_refines_witness:
  "\<exists>e' s1. addPatientRecord spec_limits jane jane_prompted = addPatientRecord spec_limits e' s1 \<and>
     quiet first_boot s1 \<and> add_admissible spec_limits e' s1 \<and>
     storable spec_limits (new_patient e' s1) \<and>
     add_now e' = add_now jane \<and> add_malloc_ok e' = add_malloc_ok jane \<and>
     add_open_fails e' = add_open_fails jane \<and> add_write_fails e' = add_write_fails jane"
  using admission_input_refines [OF jane_typed] by (simp add: spec_limits_def)

theorem valid_entry_is_reached_witness:
  "(\<exists>n rest s'. getPatientAge spec_limits ''abc\<newline>999\<newline>34\<newline>'' first_boot = Some (n, rest, s') \<and>
      validatePatientAge spec_limits n = IS_VALID) \<and>
   (\<exists>n rest s'. getRoomNumber spec_limits ''abc\<newline>999\<newline>34\<newline>'' first_boot = Some (n, rest, s') \<and>
      room_free spec_limits (patientHead first_boot) n)"
proof -
  have "validatePatientAge spec_limits 34 = IS_VALID"
    by (simp add: validatePatientAge_def spec_limits_def cint_less)
  moreover have "room_free spec_limits (patientHead first_boot) 34"
    by (simp add: room_free_def valid_room_spec_limits)
  ultimately show ?thesis
    using valid_entry_is_reached [where entry = "''34\<newline>''" and v = 34 and r = "''\<newline>''"
        and pre = "''abc\<newline>999\<newline>''" and L = spec_limits and s = first_boot]
      scanf_34 [of "[]"]
    by simp
qed

theorem name_array_overrun_witness:
  "getPatientName spec_limits None (replicate 99 (CHR ''a'') @ ''\<newline>'') first_boot =
     Some (Inl ArrayOverrun) \<and>
   getPatientDiagnosis spec_limits None (replicate 300 (CHR ''a'') @ ''\<newline>'') first_boot \<noteq>
     Some (Inl ArrayOverrun)"
  using name_array_overrun [where line = "replicate 99 (CHR ''a'')" and rest = "[]"
      and L = spec_limits and array = None and s = first_boot
      and inp = "replicate 300 (CHR ''a'') @ ''\<newline>''"]
  by (simp add: spec_limits_def)

theorem input_loops_spin_at_end_of_input_witness:
  "getPatientAge spec_limits [] first_boot = None \<and>
   getPatientName spec_limits (Some ''J'') [] first_boot = None"
  using input_loops_spin_at_end_of_input
    [where L = spec_limits and s = first_boot and b = "''J''"]
  by (simp add: validatePatientName_def spec_limits_def cut_newline_def NUL_def)

section \<open>The array register at concrete states\<close>

lemma ann_ok: "a_add_ok spec_limits ann"
  by (simp add: a_add_ok_def ann_def validate_defs spec_limits_def cint_less)

lemma register1_facts:
  "a_wf register1" "rest_empty register1" "active register1 = [slot_a]"
  "a_totalPatients register1 = 1" "patients register1 = [slot_a, empty_slot, empty_slot]"
  "createNewPatient ann register1 = slot_b"
  by (simp_all add: a_wf_def rest_empty_def active_def register1_def createNewPatient_def
      ann_def slot_b_def)

theorem array_register_refines_list_witness:
  "active (a_addPatientRecord spec_limits ann register1) = [slot_a, slot_b] \<and>
   active (a_dischargePatient 1 (CHR ''y'') register1) = []"
proof -
  have e: "patientExists 1 register1 = Some 0"
    by (simp add: patientExists_def register1_def slot_a_def)
  have t: "a_totalPatients register1 < int (length (patients register1))"
    "int 0 < a_totalPatients register1" by (simp_all add: register1_facts)
  note r = array_register_refines_list
    [OF register1_facts(1), where L = spec_limits and e = ann and ident = 1 and i = 0]
  from r ann_ok t(1)
  have "active (a_addPatientRecord spec_limits ann register1) =
        active register1 @ [createNewPatient ann register1]" by blast
  moreover from r e t(2)
  have "active (a_dischargePatient 1 (CHR ''y'') register1) =
        take 0 (active register1) @ drop (Suc 0) (active register1)" by blast
  ultimately show ?thesis by (simp add: register1_facts)
qed

theorem discharge_of_identifier_zero_witness:
  "patientExists 0 register1 = Some 1 \<and>
   patients (a_dischargePatient 0 (CHR ''y'') register1) = [slot_a, empty_slot, empty_slot] \<and>
   a_totalPatients (a_dischargePatient 0 (CHR ''y'') register1) = 0 \<and>
   patients (a_addPatientRecord spec_limits ann (a_dischargePatient 0 (CHR ''y'') register1)) =
     [slot_b, empty_slot, empty_slot]"
proof -
  have t: "0 < a_totalPatients register1"
    "a_totalPatients register1 < int (length (patients register1))"
    by (simp_all add: register1_facts)
  have ids: "\<forall>p \<in> set (active register1). s_patientId p \<noteq> 0"
    by (simp add: register1_facts slot_a_def)
  from discharge_of_identifier_zero
    [OF register1_facts(1,2) t ids, where L = spec_limits and e = ann] ann_ok
  show ?thesis by (simp add: register1_facts)
qed

theorem discharge_leaves_copy_of_last_witness:
  "patients (a_dischargePatient 1 (CHR ''y'') register_full) ! 1 = slot_b \<and>
   patients (a_dischargePatient 1 (CHR ''y'') register_full) ! 0 = slot_b \<and>
   a_totalPatients (a_dischargePatient 1 (CHR ''y'') register_full) = 1 \<and>
   \<not> rest_empty (a_dischargePatient 1 (CHR ''y'') register_full)"
proof -
  have f: "patientExists 1 register_full = Some 0"
    by (simp add: patientExists_def register_full_def slot_a_def)
  have p: "patients register_full = [slot_a, slot_b]"
    "a_totalPatients register_full = int (length (patients register_full))"
    "Suc 0 < length (patients register_full)"
    by (simp_all add: register_full_def)
  from discharge_leaves_copy_of_last [OF f p(3,2)]
  show ?thesis by (simp add: p(1) slot_b_def)
qed

end
